(* ===== verification/Prelude.thy ===== *)
theory Prelude
  imports Main "HOL-Library.Sublist"
begin

text \<open>
  What every component shares: Rust's \<open>Result\<close> as a sum (\<open>Inl\<close> the error), its \<open>?\<close> operator as
  \<open>and_then\<close>, the domain's \<open>require\<close> (\<^verbatim>\<open>src/src/domain/error.rs\<close>), the
  "push unless contained" loops, the first minimum of an iterator, and the two interfaces the
  components share: \<open>aggregate\<close> (commands that either refuse or keep the identity and the
  invariant of the aggregate they take) and \<open>lifecycle\<close> (an aggregate whose status moves along
  the edges of a diagram only).
\<close>

named_theorems cmd_defs \<open>definitions of the commands of an aggregate, unfolded together\<close>

subsection \<open>Results\<close>

type_synonym ('e, 'a) result = "'e + 'a"

definition and_then :: "('e, 'a) result \<Rightarrow> ('a \<Rightarrow> ('e, 'b) result) \<Rightarrow> ('e, 'b) result" where
  "and_then r f = (case r of Inl e \<Rightarrow> Inl e | Inr x \<Rightarrow> f x)"

definition require :: "bool \<Rightarrow> 'e \<Rightarrow> ('e, unit) result" where
  "require condition e = (if condition then Inr () else Inl e)"

definition is_ok :: "('e, 'a) result \<Rightarrow> bool" where
  "is_ok r = (case r of Inl _ \<Rightarrow> False | Inr _ \<Rightarrow> True)"

lemma and_then_simps [simp]:
  "and_then (Inl e) f = Inl e"
  "and_then (Inr x) f = f x"
  by (simp_all add: and_then_def)

lemma and_then_Inr [simp]: "and_then r f = Inr y \<longleftrightarrow> (\<exists>x. r = Inr x \<and> f x = Inr y)"
  by (cases r) auto

lemma Inr_and_then [simp]: "Inr y = and_then r f \<longleftrightarrow> (\<exists>x. r = Inr x \<and> f x = Inr y)"
  by (cases r) auto

lemma and_then_Inl: "and_then r f = Inl e \<longleftrightarrow> r = Inl e \<or> (\<exists>x. r = Inr x \<and> f x = Inl e)"
  by (cases r) auto

lemma and_then_cong [fundef_cong]:
  "r = r' \<Longrightarrow> (\<And>x. r' = Inr x \<Longrightarrow> f x = f' x) \<Longrightarrow> and_then r f = and_then r' f'"
  by (cases r') auto

lemma require_Inr [simp]: "require c e = Inr u \<longleftrightarrow> c"
  by (simp add: require_def)

lemma require_Inl [simp]: "require c e = Inl e' \<longleftrightarrow> \<not> c \<and> e' = e"
  by (auto simp: require_def)

lemma require_simps [simp]: "require True e = Inr ()" "require False e = Inl e"
  by (simp_all add: require_def)

lemma is_ok_simps [simp]: "is_ok (Inr x)" "\<not> is_ok (Inl e)"
  by (simp_all add: is_ok_def)

lemma is_ok_iff: "is_ok r \<longleftrightarrow> (\<exists>x. r = Inr x)"
  by (cases r) auto

lemma is_ok_and_then [simp]: "is_ok (and_then r f) \<longleftrightarrow> (\<exists>x. r = Inr x \<and> is_ok (f x))"
  by (cases r) auto

lemma is_ok_require [simp]: "is_ok (require c e) \<longleftrightarrow> c"
  by (simp add: require_def)

subsection \<open>Options\<close>

text \<open>Rust's \<open>Option::is_none_or\<close> and \<open>Option::is_some_and\<close>.\<close>

definition is_none_or :: "('a \<Rightarrow> bool) \<Rightarrow> 'a option \<Rightarrow> bool" where
  "is_none_or p x = (case x of None \<Rightarrow> True | Some a \<Rightarrow> p a)"

definition is_some_and :: "('a \<Rightarrow> bool) \<Rightarrow> 'a option \<Rightarrow> bool" where
  "is_some_and p x = (case x of None \<Rightarrow> False | Some a \<Rightarrow> p a)"

lemma is_none_or_simps [simp]: "is_none_or p None" "is_none_or p (Some a) = p a"
  by (simp_all add: is_none_or_def)

lemma is_some_and_simps [simp]: "\<not> is_some_and p None" "is_some_and p (Some a) = p a"
  by (simp_all add: is_some_and_def)

definition option_filter :: "('a \<Rightarrow> bool) \<Rightarrow> 'a option \<Rightarrow> 'a option" where
  "option_filter p x = (case x of None \<Rightarrow> None | Some a \<Rightarrow> if p a then Some a else None)"

lemma option_filter_simps [simp]:
  "option_filter p None = None"
  "option_filter p (Some a) = (if p a then Some a else None)"
  by (simp_all add: option_filter_def)

lemma option_filter_Some [simp]: "option_filter p x = Some a \<longleftrightarrow> x = Some a \<and> p a"
  by (cases x) auto

subsection \<open>Keeping each element once\<close>

text \<open>
  The loop \<^verbatim>\<open>for x in xs { if !out.contains(x) { out.push(x) } }\<close>, written in several places of
  the domain.
\<close>

fun push_new :: "'a list \<Rightarrow> 'a list \<Rightarrow> 'a list" where
  "push_new out [] = out"
| "push_new out (x # xs) = push_new (if x \<in> set out then out else out @ [x]) xs"

lemma set_push_new [simp]: "set (push_new out xs) = set out \<union> set xs"
  by (induction out xs rule: push_new.induct) auto

lemma distinct_push_new: "distinct out \<Longrightarrow> distinct (push_new out xs)"
  by (induction out xs rule: push_new.induct) auto

lemma prefix_push_new: "prefix out (push_new out xs)"
proof (induction out xs rule: push_new.induct)
  case (2 out x xs)
  then show ?case by (cases "x \<in> set out") (auto intro: prefix_order.trans [of out "out @ [x]"])
qed simp

lemma push_new_subset: "set xs \<subseteq> set out \<Longrightarrow> push_new out xs = out"
  by (induction out xs rule: push_new.induct) auto

lemma push_new_distinct_append:
  "distinct xs \<Longrightarrow> set out \<inter> set xs = {} \<Longrightarrow> push_new out xs = out @ xs"
  by (induction out xs rule: push_new.induct) auto

lemma push_new_idem: "push_new [] (push_new [] xs) = push_new [] xs"
  by (simp add: push_new_distinct_append distinct_push_new)


subsection \<open>Sorted, each once\<close>

text \<open>\<open>sort\<close> then \<open>dedup\<close>, which drops a value equal to the one before it; also the order of a \<open>BTreeSet\<close>.\<close>

definition sort_dedup :: "'a::linorder list \<Rightarrow> 'a list" where
  "sort_dedup xs = remdups_adj (sort xs)"

lemma distinct_remdups_adj_sorted: "sorted xs \<Longrightarrow> distinct (remdups_adj (xs :: 'a::linorder list))"
  by (induction xs rule: remdups_adj.induct) auto

lemma sort_dedup_simps [simp]:
  "set (sort_dedup xs) = set xs" "sorted (sort_dedup xs)" "distinct (sort_dedup xs)"
  by (simp_all add: sort_dedup_def sorted_remdups_adj distinct_remdups_adj_sorted)

lemma sort_dedup_Nil [simp]: "sort_dedup xs = [] \<longleftrightarrow> xs = []"
  by (metis set_empty sort_dedup_simps(1))

lemma sort_dedup_fixed: "sorted xs \<Longrightarrow> distinct xs \<Longrightarrow> sort_dedup xs = xs"
  by (simp add: sort_dedup_def sorted_sort_id remdups_adj_distinct)

subsection \<open>The first minimum\<close>

text \<open>
  Rust's \<open>Iterator::min_by_key\<close> and \<open>min_by\<close>: the first of the elements with the least key.
\<close>

fun min_by_key :: "('a \<Rightarrow> 'k::linorder) \<Rightarrow> 'a list \<Rightarrow> 'a option" where
  "min_by_key k [] = None"
| "min_by_key k (x # xs) =
     (case min_by_key k xs of
        None \<Rightarrow> Some x
      | Some y \<Rightarrow> if k x \<le> k y then Some x else Some y)"

lemma min_by_key_None [simp]: "min_by_key k xs = None \<longleftrightarrow> xs = []"
  by (cases xs) (auto split: option.splits)

lemma min_by_key_in: "min_by_key k xs = Some x \<Longrightarrow> x \<in> set xs"
  by (induction xs arbitrary: x) (auto split: option.splits if_splits)

lemma min_by_key_least: "min_by_key k xs = Some x \<Longrightarrow> y \<in> set xs \<Longrightarrow> k x \<le> k y"
proof (induction xs arbitrary: x y)
  case (Cons a xs)
  show ?case
  proof (cases "min_by_key k xs")
    case None
    with Cons.prems show ?thesis by simp
  next
    case (Some m)
    with Cons.IH have "\<And>z. z \<in> set xs \<Longrightarrow> k m \<le> k z" by blast
    with Cons.prems Some show ?thesis by (fastforce split: if_splits)
  qed
qed simp

lemma min_by_key_Some_ex: "xs \<noteq> [] \<Longrightarrow> \<exists>x. min_by_key k xs = Some x"
  using min_by_key_None [of k xs] by (cases "min_by_key k xs") auto

subsection \<open>Aggregates\<close>

text \<open>
  A command of an aggregate takes the aggregate and returns it changed, or refuses. Every command
  keeps the aggregate's identity and its invariant; a sequence of commands stops at the first
  refusal, as the store's transaction does.
\<close>

fun exec_all :: "('c \<Rightarrow> 's \<Rightarrow> ('e, 's) result) \<Rightarrow> 'c list \<Rightarrow> 's \<Rightarrow> ('e, 's) result" where
  "exec_all exec [] s = Inr s"
| "exec_all exec (c # cs) s = and_then (exec c s) (exec_all exec cs)"

locale aggregate =
  fixes exec :: "'c \<Rightarrow> 's \<Rightarrow> ('e, 's) result"
    and key :: "'s \<Rightarrow> 'k"
    and inv :: "'s \<Rightarrow> bool"
  assumes exec_key: "exec c s = Inr s' \<Longrightarrow> key s' = key s"
    and exec_inv: "inv s \<Longrightarrow> exec c s = Inr s' \<Longrightarrow> inv s'"
begin

lemma exec_all_key: "exec_all exec cs s = Inr s' \<Longrightarrow> key s' = key s"
  by (induction cs arbitrary: s) (auto dest: exec_key)

lemma exec_all_inv: "inv s \<Longrightarrow> exec_all exec cs s = Inr s' \<Longrightarrow> inv s'"
  by (induction cs arbitrary: s) (auto dest: exec_inv)

end

locale lifecycle = aggregate exec key inv
  for exec :: "'c \<Rightarrow> 's \<Rightarrow> ('e, 's) result" and key :: "'s \<Rightarrow> 'k" and inv :: "'s \<Rightarrow> bool" +
  fixes status :: "'s \<Rightarrow> 't"
    and edge :: "'t \<Rightarrow> 't \<Rightarrow> bool"
  assumes exec_edge: "exec c s = Inr s' \<Longrightarrow> status s' = status s \<or> edge (status s) (status s')"
begin

lemma exec_all_path: "exec_all exec cs s = Inr s' \<Longrightarrow> edge\<^sup>*\<^sup>* (status s) (status s')"
proof (induction cs arbitrary: s)
  case (Cons c cs)
  from Cons.prems obtain t where t: "exec c s = Inr t" and "exec_all exec cs t = Inr s'"
    by auto
  from Cons.IH [OF this(2)] exec_edge [OF t] show ?case
    by (auto intro: converse_rtranclp_into_rtranclp)
qed simp

text \<open>A set of statuses no edge leaves is never left.\<close>

lemma exec_all_closed:
  assumes "\<And>a b. a \<in> A \<Longrightarrow> edge a b \<Longrightarrow> b \<in> A"
    and "status s \<in> A" and "exec_all exec cs s = Inr s'"
  shows "status s' \<in> A"
  using exec_all_path [OF assms(3)] assms(2)
  by (induction rule: rtranclp_induct) (auto intro: assms(1))

end

end
