(* ===== verification/Rust_Text.thy ===== *)
theory Rust_Text
  imports Prelude "HOL-Library.Char_ord" "HOL-Library.List_Lexorder"
begin

text \<open>
  Rust's \<open>str\<close> as the sources use it. A string is the list of its UTF-8 bytes, so \<open>length\<close> is
  Rust's \<open>len\<close>; \<open>trim\<close> removes the characters of the Unicode property \<open>White_Space\<close>, written as
  their UTF-8 sequences. UTF-8 is self-synchronising, so a whitespace sequence at the end of a
  string is found by comparing bytes from the end.
\<close>

subsection \<open>White space\<close>

definition white_space :: "string list" where
  "white_space =
     map (\<lambda>b. [char_of b]) [9, 10, 11, 12, 13, 32::nat]
     @ map (\<lambda>bs. map char_of bs)
        [[0xC2, 0x85], [0xC2, 0xA0], [0xE1, 0x9A, 0x80],
         [0xE2, 0x80, 0x80], [0xE2, 0x80, 0x81], [0xE2, 0x80, 0x82], [0xE2, 0x80, 0x83],
         [0xE2, 0x80, 0x84], [0xE2, 0x80, 0x85], [0xE2, 0x80, 0x86], [0xE2, 0x80, 0x87],
         [0xE2, 0x80, 0x88], [0xE2, 0x80, 0x89], [0xE2, 0x80, 0x8A], [0xE2, 0x80, 0xA8],
         [0xE2, 0x80, 0xA9], [0xE2, 0x80, 0xAF], [0xE2, 0x81, 0x9F], [0xE3, 0x80, 0x80::nat]]"

definition ws_width :: "string list \<Rightarrow> string \<Rightarrow> nat" where
  "ws_width ws s = (case find (\<lambda>w. take (length w) s = w) ws of None \<Rightarrow> 0 | Some w \<Rightarrow> length w)"

function strip_ws :: "string list \<Rightarrow> string \<Rightarrow> string" where
  "strip_ws ws s =
     (if ws_width ws s = 0 \<or> s = [] then s else strip_ws ws (drop (ws_width ws s) s))"
  by pat_completeness auto
termination
  by (relation "measure (\<lambda>(ws, s). length s)") auto

declare strip_ws.simps [simp del]

definition trim_start :: "string \<Rightarrow> string" where
  "trim_start s = strip_ws white_space s"

definition trim_end :: "string \<Rightarrow> string" where
  "trim_end s = rev (strip_ws (map rev white_space) (rev s))"

definition trim :: "string \<Rightarrow> string" where
  "trim s = trim_end (trim_start s)"

definition blank :: "string \<Rightarrow> bool" where
  "blank s \<longleftrightarrow> trim s = []"

lemma strip_ws_suffix: "suffix (strip_ws ws s) s"
proof (induction ws s rule: strip_ws.induct)
  case (1 ws s)
  show ?case
  proof (cases "ws_width ws s = 0 \<or> s = []")
    case True
    then show ?thesis by (subst strip_ws.simps) simp
  next
    case False
    with 1 have "suffix (strip_ws ws (drop (ws_width ws s) s)) (drop (ws_width ws s) s)" by blast
    with False show ?thesis
      by (subst strip_ws.simps) (auto intro: suffix_order.trans suffix_drop)
  qed
qed

lemma strip_ws_Nil [simp]: "strip_ws ws [] = []"
  by (subst strip_ws.simps) simp

lemma blank_Nil [simp]: "blank []"
  by (simp add: blank_def trim_def trim_start_def trim_end_def)

lemma strip_ws_done: "ws_width ws (strip_ws ws s) = 0 \<or> strip_ws ws s = []"
proof (induction ws s rule: strip_ws.induct)
  case (1 ws s)
  then show ?case
    by (cases "ws_width ws s = 0 \<or> s = []") (auto simp: strip_ws.simps [of ws s])
qed

lemma strip_ws_idem: "strip_ws ws (strip_ws ws s) = strip_ws ws s"
  using strip_ws_done [of ws s] by (subst strip_ws.simps) auto

text \<open>A string that starts and ends with a byte no white space starts or ends with is kept.\<close>

lemma trim_fixed:
  assumes "ws_width white_space s = 0" and "ws_width (map rev white_space) (rev s) = 0"
  shows "trim s = s"
  using assms by (simp add: trim_def trim_start_def trim_end_def strip_ws.simps)

text \<open>A visible ASCII character survives trimming, so a string with one is not blank.\<close>

lemma strip_ws_keeps:
  "c \<in> set s \<Longrightarrow> c \<notin> set (concat ws) \<Longrightarrow> c \<in> set (strip_ws ws s)"
proof (induction ws s rule: strip_ws.induct)
  case (1 ws s)
  show ?case
  proof (cases "ws_width ws s = 0 \<or> s = []")
    case True
    with 1 show ?thesis by (subst strip_ws.simps) simp
  next
    case False
    then obtain w where w: "find (\<lambda>w. take (length w) s = w) ws = Some w" "ws_width ws s = length w"
      by (auto simp: ws_width_def split: option.splits)
    then have "w \<in> set ws" "s = w @ drop (length w) s"
      by (auto simp: find_Some_iff) (metis append_take_drop_id)
    with 1 have "c \<in> set (drop (length w) s)" by (metis UN_I Un_iff set_append set_concat)
    with 1 False w have "c \<in> set (strip_ws ws (drop (ws_width ws s) s))" by simp
    with False show ?thesis by (subst strip_ws.simps) simp
  qed
qed

lemma white_space_bytes:
  "c \<in> set (concat white_space) \<Longrightarrow> (of_char c :: nat) \<le> 32 \<or> 128 \<le> (of_char c :: nat)"
  by (auto simp: white_space_def)

lemma not_blank:
  assumes "c \<in> set s" and "32 < (of_char c :: nat)" and "(of_char c :: nat) < 128"
  shows "\<not> blank s"
proof -
  from assms white_space_bytes [of c] have c: "c \<notin> set (concat white_space)" by linarith
  then have "c \<notin> set (concat (map rev white_space))" by auto
  with c assms(1) have "c \<in> set (trim s)"
    by (simp add: trim_def trim_start_def trim_end_def strip_ws_keeps del: set_concat)
  then show ?thesis by (auto simp: blank_def)
qed

lemma not_blank_first [simp]: "32 < (of_char c :: nat) \<Longrightarrow> (of_char c :: nat) < 128 \<Longrightarrow> \<not> blank (c # s)"
  by (rule not_blank [of c]) simp_all

subsection \<open>Splitting and joining\<close>

text \<open>\<open>str::split\<close> by one ASCII character: always at least one part.\<close>

fun split_on :: "char \<Rightarrow> string \<Rightarrow> string list" where
  "split_on c [] = [[]]"
| "split_on c (x # xs) =
     (if x = c then [] # split_on c xs
      else (case split_on c xs of [] \<Rightarrow> [[x]] | p # ps \<Rightarrow> (x # p) # ps))"

fun join :: "string \<Rightarrow> string list \<Rightarrow> string" where
  "join sep [] = []"
| "join sep [p] = p"
| "join sep (p # q # ps) = p @ sep @ join sep (q # ps)"

lemma split_on_nonempty [simp]: "split_on c s \<noteq> []"
  by (induction s) (auto split: list.splits)

lemma split_on_no_sep: "\<forall>p \<in> set (split_on c s). c \<notin> set p"
  by (induction s) (auto split: list.splits)

lemma join_Cons: "ps \<noteq> [] \<Longrightarrow> join sep (p # ps) = p @ sep @ join sep ps"
  by (cases ps) auto

lemma join_split_on: "join [c] (split_on c s) = s"
proof (induction s)
  case (Cons x xs)
  show ?case
  proof (cases "split_on c xs")
    case (Cons p ps)
    with Cons.IH show ?thesis by (cases ps) auto
  qed simp
qed simp

lemma split_on_part: "c \<notin> set p \<Longrightarrow> split_on c p = [p]"
  by (induction p) auto

lemma split_on_append: "c \<notin> set p \<Longrightarrow> split_on c (p @ c # s) = p # split_on c s"
  by (induction p) auto

lemma split_on_join:
  "ps \<noteq> [] \<Longrightarrow> \<forall>p \<in> set ps. c \<notin> set p \<Longrightarrow> split_on c (join [c] ps) = ps"
proof (induction ps)
  case (Cons p ps)
  then show ?case
    by (cases ps) (auto simp: split_on_part split_on_append join_Cons)
qed simp

definition strip_prefix :: "string \<Rightarrow> string \<Rightarrow> string option" where
  "strip_prefix p s = (if take (length p) s = p then Some (drop (length p) s) else None)"

lemma strip_prefix_Some: "strip_prefix p s = Some t \<longleftrightarrow> s = p @ t"
  by (auto simp: strip_prefix_def append_eq_conv_conj split: if_splits)
    (metis append_take_drop_id)

definition starts_with :: "string \<Rightarrow> string \<Rightarrow> bool" where
  "starts_with p s \<longleftrightarrow> take (length p) s = p"

subsection \<open>Characters\<close>

definition is_digit :: "char \<Rightarrow> bool" where
  "is_digit c \<longleftrightarrow> 48 \<le> (of_char c :: nat) \<and> (of_char c :: nat) \<le> 57"

definition is_lower :: "char \<Rightarrow> bool" where
  "is_lower c \<longleftrightarrow> 97 \<le> (of_char c :: nat) \<and> (of_char c :: nat) \<le> 122"

definition is_upper :: "char \<Rightarrow> bool" where
  "is_upper c \<longleftrightarrow> 65 \<le> (of_char c :: nat) \<and> (of_char c :: nat) \<le> 90"

definition is_hexdigit :: "char \<Rightarrow> bool" where
  "is_hexdigit c \<longleftrightarrow> is_digit c
     \<or> 65 \<le> (of_char c :: nat) \<and> (of_char c :: nat) \<le> 70
     \<or> 97 \<le> (of_char c :: nat) \<and> (of_char c :: nat) \<le> 102"

definition lower_char :: "char \<Rightarrow> char" where
  "lower_char c = (if is_upper c then char_of ((of_char c :: nat) + 32) else c)"

definition to_ascii_lowercase :: "string \<Rightarrow> string" where
  "to_ascii_lowercase s = map lower_char s"

lemma is_hexdigit_lower: "is_hexdigit c \<Longrightarrow> is_hexdigit (lower_char c)"
  by (auto simp: is_hexdigit_def lower_char_def is_upper_def is_digit_def)

lemma lower_char_idem: "lower_char (lower_char c) = lower_char c"
  by (auto simp: lower_char_def is_upper_def)

lemma length_to_ascii_lowercase [simp]: "length (to_ascii_lowercase s) = length s"
  by (simp add: to_ascii_lowercase_def)

lemma to_ascii_lowercase_idem: "to_ascii_lowercase (to_ascii_lowercase s) = to_ascii_lowercase s"
  by (simp add: to_ascii_lowercase_def lower_char_idem)

subsection \<open>Decimal numbers\<close>

fun nat_digits :: "nat \<Rightarrow> string" where
  "nat_digits n =
     (if n < 10 then [char_of (48 + n)] else nat_digits (n div 10) @ [char_of (48 + n mod 10)])"

declare nat_digits.simps [simp del]

text \<open>\<open>Display\<close> of an integer.\<close>

definition show_int :: "int \<Rightarrow> string" where
  "show_int i = (if i < 0 then CHR ''-'' # nat_digits (nat (- i)) else nat_digits (nat i))"

definition show_nat :: "nat \<Rightarrow> string" where
  "show_nat n = nat_digits n"

definition digit_value :: "char \<Rightarrow> int" where
  "digit_value c = int (of_char c) - 48"

text \<open>The value of a non-empty run of digits; \<open>None\<close> for anything else.\<close>

definition digits_value :: "string \<Rightarrow> int option" where
  "digits_value s =
     (if s \<noteq> [] \<and> list_all is_digit s then Some (foldl (\<lambda>v c. 10 * v + digit_value c) 0 s) else None)"

text \<open>
  \<open>str::parse::<i64>\<close>: an optional sign and digits, within the range of the type.
\<close>

definition parse_i64 :: "string \<Rightarrow> int option" where
  "parse_i64 s =
     (let v = (case s of
                 [] \<Rightarrow> None
               | c # cs \<Rightarrow> (if c = CHR ''-'' then map_option uminus (digits_value cs)
                           else if c = CHR ''+'' then digits_value cs
                           else digits_value s))
      in option_filter (\<lambda>n. - (2 ^ 63) \<le> n \<and> n < 2 ^ 63) v)"

lemma nat_digits_digit: "\<forall>c \<in> set (nat_digits n). is_digit c"
proof (induction n rule: nat_digits.induct)
  case (1 n)
  show ?case
    using 1 by (cases "n < 10")
      (auto simp: nat_digits.simps [of n] is_digit_def)
qed

lemma nat_digits_nonempty [simp]: "nat_digits n \<noteq> []"
  by (subst nat_digits.simps) simp

lemma digits_value_append:
  "digits_value s = Some v \<Longrightarrow> is_digit c \<Longrightarrow> digits_value (s @ [c]) = Some (10 * v + digit_value c)"
  by (auto simp: digits_value_def split: if_splits)

lemma digits_value_nat_digits: "digits_value (nat_digits n) = Some (int n)"
proof (induction n rule: nat_digits.induct)
  case (1 n)
  have dig: "is_digit (char_of (48 + m))" "digit_value (char_of (48 + m)) = int m" if "m < 10" for m :: nat
    using that by (auto simp: is_digit_def digit_value_def)
  show ?case
  proof (cases "n < 10")
    case True
    with dig [of n] show ?thesis by (simp add: nat_digits.simps [of n] digits_value_def)
  next
    case False
    with 1 have "digits_value (nat_digits (n div 10)) = Some (int (n div 10))" by blast
    from digits_value_append [OF this dig(1) [of "n mod 10"]] dig(2) [of "n mod 10"] False
    have "digits_value (nat_digits n) = Some (10 * int (n div 10) + int (n mod 10))"
      by (simp add: nat_digits.simps [of n])
    also have "10 * int (n div 10) + int (n mod 10) = int n" by presburger
    finally show ?thesis .
  qed
qed

lemma first_digit: "nat_digits n = c # cs \<Longrightarrow> is_digit c"
  using nat_digits_digit [of n] by simp

text \<open>Printing and parsing an integer of the type's range is a round trip.\<close>

lemma parse_show_int: "- (2 ^ 63) \<le> i \<Longrightarrow> i < 2 ^ 63 \<Longrightarrow> parse_i64 (show_int i) = Some i"
proof (cases "i < 0")
  case True
  moreover assume "- (2 ^ 63) \<le> i"
  ultimately show ?thesis
    by (simp add: parse_i64_def show_int_def Let_def digits_value_nat_digits)
next
  case False
  obtain c cs where c: "nat_digits (nat i) = c # cs" by (cases "nat_digits (nat i)") auto
  from first_digit [OF c] have "c \<noteq> CHR ''-''" "c \<noteq> CHR ''+''" by (auto simp: is_digit_def)
  moreover assume "- (2 ^ 63) \<le> i" "i < 2 ^ 63"
  ultimately show ?thesis
    using False c digits_value_nat_digits [of "nat i"]
    by (simp add: parse_i64_def show_int_def Let_def)
qed

end
