(* ===== verification/Vocabulary.thy ===== *)
theory Vocabulary
  imports Rust_Text
begin

text \<open>
  The vocabulary of the domain (\<^verbatim>\<open>src/src/domain/mod.rs\<close>, \<^verbatim>\<open>ids.rs\<close>, \<^verbatim>\<open>error.rs\<close>): the enums
  the \<^verbatim>\<open>string_enum!\<close> macro declares, each with its stored name (\<open>as_str\<close>) and its parser
  (\<open>from_str\<close>), the open-ended \<open>AskKind\<close>, \<open>Priority\<close>, the checked identifiers, and
  \<open>DomainError\<close>. A Rust variant name that several enums share gets the enum's name as a prefix.
  The integer identifiers (\<open>i64\<close> newtypes without arithmetic) are \<open>int\<close>.
\<close>

subsection \<open>Identifiers\<close>

type_synonym task_id = int
type_synonym goal_id = int
type_synonym proposal_id = int
type_synonym finding_id = int
type_synonym planner_id = int
type_synonym ask_id = int
type_synonym event_id = int
type_synonym run_id = string
type_synonym commit_sha = string

subsection \<open>The enums\<close>

datatype task_status =
    Draft | Submitted | Ready | InProgress | Completed | Canceled

datatype task_kind =
    Docs | Plugin | Runtime | Ci

datatype run_status =
    Claimed | Starting | Running | Validating | AwaitingIntegration | Integrating
  | NeedsSession | Integrated | Succeeded | Failed | Interrupted

datatype provider =
    Claude

datatype supervisor_mode =
    Launchd | InCmux

datatype session_role =
    SupervisorRole | WorkerRole | PlannerRole | InboxRole | ObserverRole | ReviewerRole

datatype goal_status =
    GoalDraft | GoalOpen

datatype goal_verdict =
    Achieved | Abandoned

datatype ask_reason =
    Authentication | Cost | Scope | Discard | RecoveryFailed

datatype proposal_status =
    ProposalSubmitted | Revising | Accepted | ProposalCanceled

datatype planner_origin =
    PersonOrigin | RuntimeOrigin

datatype planner_state =
    PlannerOpening | PlannerWorking | PlannerIdle | PlannerExited | PlannerLost | PlannerClosed

datatype push_result =
    PushPushed | PushSkipped | PushFailed

datatype impact =
    ImpactHigh | ImpactNormal | ImpactLow

datatype review_decision =
    ReviewPass | ReviewRevise | ReviewConcern

datatype receipt_result =
    ReceiptSucceeded | ReceiptFailed

datatype check_status =
    CheckPassed | CheckFailed | CheckNotApplicable

datatype evidence_check =
    Tests | E2e | SubagentReview

datatype finding_status =
    FindingOpen | FindingProposed | FindingResolved | FindingDismissed

datatype task_action =
    ActReady | ActDraft | ActCancel | ActSubmit | ActApprove | ActBypassReview | ActReopen

datatype ask_kind =
    ApproveLanding | AnswerPrompt | Decide | WorkerQuestion | Blocked | StuckExit | FollowUp
  | Stalled | ApprovePlan | PlannerQuestion | QueueHold | UpdateFailed | ApproveUpdate
  | Other string

datatype priority = Low | Normal | High | Urgent | Interrupt

subsection \<open>Rejections\<close>

text \<open>\<open>DomainError\<close>: each variant carries only the facts its message needs.\<close>

datatype (plugins only: code size) domain_error =
    UnknownValue string string
  | TaskHasUnfinishedRun task_action
  | TransitionNotAllowed task_status task_action
  | GoalClosed goal_id "goal_verdict option"
  | GoalCloseInconsistent goal_id
  | ReadyNeedsPlanReview task_status
  | TaskNotEditable string
  | TaskContentNotEditable task_id task_status
  | SelfDependency
  | DependencyCycle task_id task_id
  | OwnGoalDependency goal_id
  | GoalDependencyCycle task_id goal_id
  | GoalMembershipCycle task_id goal_id
  | EmptyProposal
  | SearchQuery string
  | TaskInOtherProposal task_id proposal_id
  | GoalInOtherProposal goal_id proposal_id
  | ProposalNotInStatus proposal_id proposal_status proposal_status
  | ProposalNotActive proposal_id proposal_status
  | Blank string
  | NonPositiveId string
  | GoalAlreadyClosed goal_id "goal_verdict option"
  | GoalCloseBlocked goal_id goal_verdict "(task_status \<times> nat) list"
  | MalformedReceipt string
  | ReceiptRunMismatch string run_id
  | AgentReportedResult receipt_result string
  | ReceiptCheckFailed string string
  | ReceiptCheckUnexplained string check_status
  | InvalidCommit string
  | FollowUpsNotArray
  | MissingRunDirectory
  | GoalNotDraft goal_id
  | InvalidNoteKind string
  | InvalidFindingKind string
  | FindingNotInStatus finding_id finding_status finding_status
  | AskFindingNotBlocked ask_kind
  | AskWithoutTarget ask_kind
  | UpdateAskWithTarget ask_kind
  | AskKindReason ask_kind ask_reason
  | EventWithoutTarget string
  | AskHoldsTheQueue ask_reason
  | HoldWithoutQueueReason ask_reason
  | TaskNotClaimable task_id task_status
  | RunOfUnclaimedTask task_id task_status
  | RunTransitionNotAllowed run_status string
  | RunInconsistent run_id string
  | InvalidPathGlob string string

type_synonym 'a checked = "(domain_error, 'a) result"

subsection \<open>Names and parsers\<close>

text \<open>
  The macro's \<open>FromStr\<close>: the variant whose name the value is, else \<open>UnknownValue\<close> with the
  enum's name. The literals of one enum differ, so the order of the arms does not matter.
\<close>

definition parse_enum :: "string \<Rightarrow> ('a \<Rightarrow> string) \<Rightarrow> 'a list \<Rightarrow> string \<Rightarrow> 'a checked" where
  "parse_enum kind as_str variants value =
     (case find (\<lambda>v. as_str v = value) variants of
        Some v \<Rightarrow> Inr v
      | None \<Rightarrow> Inl (UnknownValue kind value))"

text \<open>
  What the macro promises of every enum it declares: the variants are all there, and no two have
  the same name. Then a stored name reads back as the variant that wrote it, and nothing else reads.
\<close>

locale string_enum =
  fixes as_str :: "'a \<Rightarrow> string" and variants :: "'a list"
  assumes complete: "v \<in> set variants"
    and distinct_names: "distinct (map as_str variants)"
begin

lemma as_str_inj: "as_str v = as_str w \<Longrightarrow> v = w"
  using distinct_names complete by (auto simp: distinct_map dest: inj_onD)

lemma find_as_str: "find (\<lambda>w. as_str w = as_str v) variants = Some v"
proof (cases "find (\<lambda>w. as_str w = as_str v) variants")
  case None
  with complete [of v] show ?thesis by (auto simp: find_None_iff)
next
  case (Some w)
  then have "as_str w = as_str v" by (auto simp: find_Some_iff)
  with Some as_str_inj show ?thesis by blast
qed

lemma parse_as_str: "parse_enum kind as_str variants (as_str v) = Inr v"
  by (simp add: parse_enum_def find_as_str)

lemma parse_unknown:
  assumes "value \<notin> range as_str"
  shows "parse_enum kind as_str variants value = Inl (UnknownValue kind value)"
proof -
  from assms have "find (\<lambda>w. as_str w = value) variants = None"
    by (auto simp: find_None_iff)
  then show ?thesis by (simp add: parse_enum_def)
qed

lemma as_str_parse: "parse_enum kind as_str variants value = Inr v \<longleftrightarrow> value = as_str v"
proof (cases "value \<in> range as_str")
  case True
  then show ?thesis using as_str_inj by (auto simp: parse_as_str)
next
  case False
  then show ?thesis by (auto simp: parse_unknown)
qed

end

fun TaskStatus_as_str :: "task_status \<Rightarrow> string" where
  "TaskStatus_as_str Draft = ''draft''"
| "TaskStatus_as_str Submitted = ''submitted''"
| "TaskStatus_as_str Ready = ''ready''"
| "TaskStatus_as_str InProgress = ''in_progress''"
| "TaskStatus_as_str Completed = ''completed''"
| "TaskStatus_as_str Canceled = ''canceled''"

definition TaskStatus_from_str :: "string \<Rightarrow> task_status checked" where
  "TaskStatus_from_str = parse_enum ''TaskStatus'' TaskStatus_as_str
     [Draft, Submitted, Ready, InProgress, Completed, Canceled]"

interpretation task_status_enum: string_enum TaskStatus_as_str "[Draft, Submitted, Ready, InProgress, Completed, Canceled]"
  by unfold_locales (case_tac v, simp_all)

fun TaskKind_as_str :: "task_kind \<Rightarrow> string" where
  "TaskKind_as_str Docs = ''docs''"
| "TaskKind_as_str Plugin = ''plugin''"
| "TaskKind_as_str Runtime = ''runtime''"
| "TaskKind_as_str Ci = ''ci''"

definition TaskKind_from_str :: "string \<Rightarrow> task_kind checked" where
  "TaskKind_from_str = parse_enum ''TaskKind'' TaskKind_as_str
     [Docs, Plugin, Runtime, Ci]"

interpretation task_kind_enum: string_enum TaskKind_as_str "[Docs, Plugin, Runtime, Ci]"
  by unfold_locales (case_tac v, simp_all)

fun RunStatus_as_str :: "run_status \<Rightarrow> string" where
  "RunStatus_as_str Claimed = ''claimed''"
| "RunStatus_as_str Starting = ''starting''"
| "RunStatus_as_str Running = ''running''"
| "RunStatus_as_str Validating = ''validating''"
| "RunStatus_as_str AwaitingIntegration = ''awaiting_integration''"
| "RunStatus_as_str Integrating = ''integrating''"
| "RunStatus_as_str NeedsSession = ''needs_session''"
| "RunStatus_as_str Integrated = ''integrated''"
| "RunStatus_as_str Succeeded = ''succeeded''"
| "RunStatus_as_str Failed = ''failed''"
| "RunStatus_as_str Interrupted = ''interrupted''"

definition RunStatus_from_str :: "string \<Rightarrow> run_status checked" where
  "RunStatus_from_str = parse_enum ''RunStatus'' RunStatus_as_str
     [Claimed, Starting, Running, Validating, AwaitingIntegration, Integrating, NeedsSession, Integrated, Succeeded, Failed, Interrupted]"

interpretation run_status_enum: string_enum RunStatus_as_str "[Claimed, Starting, Running, Validating, AwaitingIntegration, Integrating, NeedsSession, Integrated, Succeeded, Failed, Interrupted]"
  by unfold_locales (case_tac v, simp_all)

fun Provider_as_str :: "provider \<Rightarrow> string" where
  "Provider_as_str Claude = ''claude''"

definition Provider_from_str :: "string \<Rightarrow> provider checked" where
  "Provider_from_str = parse_enum ''Provider'' Provider_as_str
     [Claude]"

interpretation provider_enum: string_enum Provider_as_str "[Claude]"
  by unfold_locales (case_tac v, simp_all)

fun SupervisorMode_as_str :: "supervisor_mode \<Rightarrow> string" where
  "SupervisorMode_as_str Launchd = ''launchd''"
| "SupervisorMode_as_str InCmux = ''in_cmux''"

definition SupervisorMode_from_str :: "string \<Rightarrow> supervisor_mode checked" where
  "SupervisorMode_from_str = parse_enum ''SupervisorMode'' SupervisorMode_as_str
     [Launchd, InCmux]"

interpretation supervisor_mode_enum: string_enum SupervisorMode_as_str "[Launchd, InCmux]"
  by unfold_locales (case_tac v, simp_all)

fun SessionRole_as_str :: "session_role \<Rightarrow> string" where
  "SessionRole_as_str SupervisorRole = ''supervisor''"
| "SessionRole_as_str WorkerRole = ''worker''"
| "SessionRole_as_str PlannerRole = ''planner''"
| "SessionRole_as_str InboxRole = ''inbox''"
| "SessionRole_as_str ObserverRole = ''observer''"
| "SessionRole_as_str ReviewerRole = ''reviewer''"

definition SessionRole_from_str :: "string \<Rightarrow> session_role checked" where
  "SessionRole_from_str = parse_enum ''SessionRole'' SessionRole_as_str
     [SupervisorRole, WorkerRole, PlannerRole, InboxRole, ObserverRole, ReviewerRole]"

interpretation session_role_enum: string_enum SessionRole_as_str "[SupervisorRole, WorkerRole, PlannerRole, InboxRole, ObserverRole, ReviewerRole]"
  by unfold_locales (case_tac v, simp_all)

fun GoalStatus_as_str :: "goal_status \<Rightarrow> string" where
  "GoalStatus_as_str GoalDraft = ''draft''"
| "GoalStatus_as_str GoalOpen = ''open''"

definition GoalStatus_from_str :: "string \<Rightarrow> goal_status checked" where
  "GoalStatus_from_str = parse_enum ''GoalStatus'' GoalStatus_as_str
     [GoalDraft, GoalOpen]"

interpretation goal_status_enum: string_enum GoalStatus_as_str "[GoalDraft, GoalOpen]"
  by unfold_locales (case_tac v, simp_all)

fun GoalVerdict_as_str :: "goal_verdict \<Rightarrow> string" where
  "GoalVerdict_as_str Achieved = ''achieved''"
| "GoalVerdict_as_str Abandoned = ''abandoned''"

definition GoalVerdict_from_str :: "string \<Rightarrow> goal_verdict checked" where
  "GoalVerdict_from_str = parse_enum ''GoalVerdict'' GoalVerdict_as_str
     [Achieved, Abandoned]"

interpretation goal_verdict_enum: string_enum GoalVerdict_as_str "[Achieved, Abandoned]"
  by unfold_locales (case_tac v, simp_all)

fun AskReason_as_str :: "ask_reason \<Rightarrow> string" where
  "AskReason_as_str Authentication = ''authentication''"
| "AskReason_as_str Cost = ''cost''"
| "AskReason_as_str Scope = ''scope''"
| "AskReason_as_str Discard = ''discard''"
| "AskReason_as_str RecoveryFailed = ''recovery_failed''"

definition AskReason_from_str :: "string \<Rightarrow> ask_reason checked" where
  "AskReason_from_str = parse_enum ''AskReason'' AskReason_as_str
     [Authentication, Cost, Scope, Discard, RecoveryFailed]"

interpretation ask_reason_enum: string_enum AskReason_as_str "[Authentication, Cost, Scope, Discard, RecoveryFailed]"
  by unfold_locales (case_tac v, simp_all)

fun ProposalStatus_as_str :: "proposal_status \<Rightarrow> string" where
  "ProposalStatus_as_str ProposalSubmitted = ''submitted''"
| "ProposalStatus_as_str Revising = ''revising''"
| "ProposalStatus_as_str Accepted = ''accepted''"
| "ProposalStatus_as_str ProposalCanceled = ''canceled''"

definition ProposalStatus_from_str :: "string \<Rightarrow> proposal_status checked" where
  "ProposalStatus_from_str = parse_enum ''ProposalStatus'' ProposalStatus_as_str
     [ProposalSubmitted, Revising, Accepted, ProposalCanceled]"

interpretation proposal_status_enum: string_enum ProposalStatus_as_str "[ProposalSubmitted, Revising, Accepted, ProposalCanceled]"
  by unfold_locales (case_tac v, simp_all)

fun PlannerOrigin_as_str :: "planner_origin \<Rightarrow> string" where
  "PlannerOrigin_as_str PersonOrigin = ''person''"
| "PlannerOrigin_as_str RuntimeOrigin = ''runtime''"

definition PlannerOrigin_from_str :: "string \<Rightarrow> planner_origin checked" where
  "PlannerOrigin_from_str = parse_enum ''PlannerOrigin'' PlannerOrigin_as_str
     [PersonOrigin, RuntimeOrigin]"

interpretation planner_origin_enum: string_enum PlannerOrigin_as_str "[PersonOrigin, RuntimeOrigin]"
  by unfold_locales (case_tac v, simp_all)

fun PlannerState_as_str :: "planner_state \<Rightarrow> string" where
  "PlannerState_as_str PlannerOpening = ''opening''"
| "PlannerState_as_str PlannerWorking = ''working''"
| "PlannerState_as_str PlannerIdle = ''idle''"
| "PlannerState_as_str PlannerExited = ''exited''"
| "PlannerState_as_str PlannerLost = ''lost''"
| "PlannerState_as_str PlannerClosed = ''closed''"

definition PlannerState_from_str :: "string \<Rightarrow> planner_state checked" where
  "PlannerState_from_str = parse_enum ''PlannerState'' PlannerState_as_str
     [PlannerOpening, PlannerWorking, PlannerIdle, PlannerExited, PlannerLost, PlannerClosed]"

interpretation planner_state_enum: string_enum PlannerState_as_str "[PlannerOpening, PlannerWorking, PlannerIdle, PlannerExited, PlannerLost, PlannerClosed]"
  by unfold_locales (case_tac v, simp_all)

fun PushResult_as_str :: "push_result \<Rightarrow> string" where
  "PushResult_as_str PushPushed = ''pushed''"
| "PushResult_as_str PushSkipped = ''skipped''"
| "PushResult_as_str PushFailed = ''failed''"

definition PushResult_from_str :: "string \<Rightarrow> push_result checked" where
  "PushResult_from_str = parse_enum ''PushResult'' PushResult_as_str
     [PushPushed, PushSkipped, PushFailed]"

interpretation push_result_enum: string_enum PushResult_as_str "[PushPushed, PushSkipped, PushFailed]"
  by unfold_locales (case_tac v, simp_all)

fun Impact_as_str :: "impact \<Rightarrow> string" where
  "Impact_as_str ImpactHigh = ''high''"
| "Impact_as_str ImpactNormal = ''normal''"
| "Impact_as_str ImpactLow = ''low''"

definition Impact_from_str :: "string \<Rightarrow> impact checked" where
  "Impact_from_str = parse_enum ''Impact'' Impact_as_str
     [ImpactHigh, ImpactNormal, ImpactLow]"

interpretation impact_enum: string_enum Impact_as_str "[ImpactHigh, ImpactNormal, ImpactLow]"
  by unfold_locales (case_tac v, simp_all)

fun ReviewDecision_as_str :: "review_decision \<Rightarrow> string" where
  "ReviewDecision_as_str ReviewPass = ''pass''"
| "ReviewDecision_as_str ReviewRevise = ''revise''"
| "ReviewDecision_as_str ReviewConcern = ''concern''"

definition ReviewDecision_from_str :: "string \<Rightarrow> review_decision checked" where
  "ReviewDecision_from_str = parse_enum ''ReviewDecision'' ReviewDecision_as_str
     [ReviewPass, ReviewRevise, ReviewConcern]"

interpretation review_decision_enum: string_enum ReviewDecision_as_str "[ReviewPass, ReviewRevise, ReviewConcern]"
  by unfold_locales (case_tac v, simp_all)

fun ReceiptResult_as_str :: "receipt_result \<Rightarrow> string" where
  "ReceiptResult_as_str ReceiptSucceeded = ''succeeded''"
| "ReceiptResult_as_str ReceiptFailed = ''failed''"

definition ReceiptResult_from_str :: "string \<Rightarrow> receipt_result checked" where
  "ReceiptResult_from_str = parse_enum ''ReceiptResult'' ReceiptResult_as_str
     [ReceiptSucceeded, ReceiptFailed]"

interpretation receipt_result_enum: string_enum ReceiptResult_as_str "[ReceiptSucceeded, ReceiptFailed]"
  by unfold_locales (case_tac v, simp_all)

fun CheckStatus_as_str :: "check_status \<Rightarrow> string" where
  "CheckStatus_as_str CheckPassed = ''passed''"
| "CheckStatus_as_str CheckFailed = ''failed''"
| "CheckStatus_as_str CheckNotApplicable = ''not_applicable''"

definition CheckStatus_from_str :: "string \<Rightarrow> check_status checked" where
  "CheckStatus_from_str = parse_enum ''CheckStatus'' CheckStatus_as_str
     [CheckPassed, CheckFailed, CheckNotApplicable]"

interpretation check_status_enum: string_enum CheckStatus_as_str "[CheckPassed, CheckFailed, CheckNotApplicable]"
  by unfold_locales (case_tac v, simp_all)

fun EvidenceCheck_as_str :: "evidence_check \<Rightarrow> string" where
  "EvidenceCheck_as_str Tests = ''tests''"
| "EvidenceCheck_as_str E2e = ''e2e''"
| "EvidenceCheck_as_str SubagentReview = ''subagent_review''"

definition EvidenceCheck_from_str :: "string \<Rightarrow> evidence_check checked" where
  "EvidenceCheck_from_str = parse_enum ''EvidenceCheck'' EvidenceCheck_as_str
     [Tests, E2e, SubagentReview]"

interpretation evidence_check_enum: string_enum EvidenceCheck_as_str "[Tests, E2e, SubagentReview]"
  by unfold_locales (case_tac v, simp_all)

fun FindingStatus_as_str :: "finding_status \<Rightarrow> string" where
  "FindingStatus_as_str FindingOpen = ''open''"
| "FindingStatus_as_str FindingProposed = ''proposed''"
| "FindingStatus_as_str FindingResolved = ''resolved''"
| "FindingStatus_as_str FindingDismissed = ''dismissed''"

definition FindingStatus_from_str :: "string \<Rightarrow> finding_status checked" where
  "FindingStatus_from_str = parse_enum ''FindingStatus'' FindingStatus_as_str
     [FindingOpen, FindingProposed, FindingResolved, FindingDismissed]"

interpretation finding_status_enum: string_enum FindingStatus_as_str "[FindingOpen, FindingProposed, FindingResolved, FindingDismissed]"
  by unfold_locales (case_tac v, simp_all)

subsection \<open>The open-ended kind of an ask\<close>

fun AskKind_as_str :: "ask_kind \<Rightarrow> string" where
  "AskKind_as_str ApproveLanding = ''approve_landing''"
| "AskKind_as_str AnswerPrompt = ''answer_prompt''"
| "AskKind_as_str Decide = ''decide''"
| "AskKind_as_str WorkerQuestion = ''worker_question''"
| "AskKind_as_str Blocked = ''blocked''"
| "AskKind_as_str StuckExit = ''stuck_exit''"
| "AskKind_as_str FollowUp = ''follow_up''"
| "AskKind_as_str Stalled = ''stalled''"
| "AskKind_as_str ApprovePlan = ''approve_plan''"
| "AskKind_as_str PlannerQuestion = ''planner_question''"
| "AskKind_as_str QueueHold = ''queue_hold''"
| "AskKind_as_str UpdateFailed = ''update_failed''"
| "AskKind_as_str ApproveUpdate = ''approve_update''"
| "AskKind_as_str (Other value) = value"

definition known_ask_kinds :: "ask_kind list" where
  "known_ask_kinds =
     [ApproveLanding, AnswerPrompt, Decide, WorkerQuestion, Blocked, StuckExit, FollowUp, Stalled,
      ApprovePlan, PlannerQuestion, QueueHold, UpdateFailed, ApproveUpdate]"

definition AskKind_from_str :: "string \<Rightarrow> ask_kind checked" where
  "AskKind_from_str = parse_enum ''AskKind'' AskKind_as_str known_ask_kinds"

definition AskKind_read :: "string \<Rightarrow> ask_kind" where
  "AskKind_read value = (case AskKind_from_str value of Inr k \<Rightarrow> k | Inl _ \<Rightarrow> Other value)"

definition AskKind_is_known :: "ask_kind \<Rightarrow> bool" where
  "AskKind_is_known k = (case k of Other _ \<Rightarrow> False | _ \<Rightarrow> True)"

definition AskKind_is_update :: "ask_kind \<Rightarrow> bool" where
  "AskKind_is_update k = (k = UpdateFailed \<or> k = ApproveUpdate)"

definition holds_the_queue :: "ask_reason \<Rightarrow> bool" where
  "holds_the_queue r = (r = Authentication \<or> r = Cost)"

lemma AskKind_known_iff: "AskKind_is_known k \<longleftrightarrow> k \<in> set known_ask_kinds"
  by (cases k) (simp_all add: AskKind_is_known_def known_ask_kinds_def)

lemma AskKind_read_as_str: "AskKind_as_str (AskKind_read value) = value"
  by (auto simp: AskKind_read_def AskKind_from_str_def parse_enum_def find_Some_iff
           split: option.splits)

lemma AskKind_from_as_str: "AskKind_is_known k \<Longrightarrow> AskKind_from_str (AskKind_as_str k) = Inr k"
  by (cases k)
     (simp_all add: AskKind_is_known_def AskKind_from_str_def parse_enum_def known_ask_kinds_def)

lemma AskKind_as_read: "AskKind_is_known k \<Longrightarrow> AskKind_read (AskKind_as_str k) = k"
  by (simp add: AskKind_read_def AskKind_from_as_str)

lemma AskKind_from_str_known: "AskKind_from_str value = Inr k \<Longrightarrow> AskKind_is_known k"
  by (auto simp: AskKind_from_str_def parse_enum_def find_Some_iff AskKind_known_iff
           split: option.splits)

subsection \<open>Priority\<close>

definition Priority_ALL :: "priority list" where
  "Priority_ALL = [Low, Normal, High, Urgent, Interrupt]"

fun Priority_as_str :: "priority \<Rightarrow> string" where
  "Priority_as_str Low = ''low''"
| "Priority_as_str Normal = ''normal''"
| "Priority_as_str High = ''high''"
| "Priority_as_str Urgent = ''urgent''"
| "Priority_as_str Interrupt = ''interrupt''"

fun Priority_as_i64 :: "priority \<Rightarrow> int" where
  "Priority_as_i64 Low = 0"
| "Priority_as_i64 Normal = 1"
| "Priority_as_i64 High = 2"
| "Priority_as_i64 Urgent = 3"
| "Priority_as_i64 Interrupt = 4"

definition Priority_from_i64 :: "int \<Rightarrow> priority checked" where
  "Priority_from_i64 value =
     (if 0 \<le> value \<and> nat value < length Priority_ALL
      then Inr (Priority_ALL ! nat value)
      else Inl (UnknownValue ''Priority'' (show_int value)))"

definition Priority_from_str :: "string \<Rightarrow> priority checked" where
  "Priority_from_str = parse_enum ''Priority'' Priority_as_str Priority_ALL"

text \<open>The derived \<open>Ord\<close>: the order of the variants, lowest first.\<close>

instantiation priority :: linorder
begin

definition less_eq_priority :: "priority \<Rightarrow> priority \<Rightarrow> bool" where
  "less_eq_priority a b = (Priority_as_i64 a \<le> Priority_as_i64 b)"

definition less_priority :: "priority \<Rightarrow> priority \<Rightarrow> bool" where
  "less_priority a b = (Priority_as_i64 a < Priority_as_i64 b)"

instance
proof
  fix a b :: priority
  show "a \<le> b \<Longrightarrow> b \<le> a \<Longrightarrow> a = b"
    by (cases a; cases b) (simp_all add: less_eq_priority_def)
qed (auto simp: less_eq_priority_def less_priority_def)

end

interpretation priority_enum: string_enum Priority_as_str "Priority_ALL"
  by unfold_locales (case_tac v, simp_all add: Priority_ALL_def)

lemma Priority_from_as_i64: "Priority_from_i64 (Priority_as_i64 p) = Inr p"
  by (cases p) (simp_all add: Priority_from_i64_def Priority_ALL_def)

lemma Priority_from_i64_Inr: "Priority_from_i64 n = Inr p \<longleftrightarrow> n = Priority_as_i64 p"
proof
  assume *: "Priority_from_i64 n = Inr p"
  then have "0 \<le> n" "nat n < 5" "p = Priority_ALL ! nat n"
    by (auto simp: Priority_from_i64_def Priority_ALL_def split: if_splits)
  moreover from this have "nat n \<in> {0, 1, 2, 3, 4}" by auto
  ultimately show "n = Priority_as_i64 p" by (auto simp: Priority_ALL_def)
qed (simp add: Priority_from_as_i64)

subsection \<open>Checked identifiers\<close>

definition RunId_new :: "string \<Rightarrow> run_id checked" where
  "RunId_new run = (if blank run then Inl (Blank ''run ID'') else Inr run)"

definition CommitSha_parse :: "string \<Rightarrow> string \<Rightarrow> commit_sha checked" where
  "CommitSha_parse commit field =
     (if (length commit = 40 \<or> length commit = 64) \<and> list_all is_hexdigit commit
      then Inr commit else Inl (InvalidCommit field))"

end
