(* ===== verification/Path_Scope.thy ===== *)
theory Path_Scope
  imports Vocabulary
begin

text \<open>
  The paths a task may change (\<^verbatim>\<open>src/src/domain/scope.rs\<close>): the check of the globs a task
  declares, the backtracking glob matcher, and the changed paths no glob matches.
  The matcher works on bytes, as the code does; its contract (\<open>covers\<close>) cuts the path into one
  part per glob segment, and a segment into one part per glob character.
\<close>

subsection \<open>The globs a task declares\<close>

text \<open>The first reason to refuse a glob, in the order the code asks.\<close>

definition glob_reason :: "string \<Rightarrow> string option" where
  "glob_reason glob =
     (if blank glob then Some ''it is blank''
      else if starts_with ''/'' glob then Some ''it must be relative to the repository root''
      else if list_ex (\<lambda>s. s = ''.'' \<or> s = ''..'') (split_on CHR ''/'' glob)
      then Some ''it must not have a . or .. segment''
      else if list_ex (\<lambda>s. s = []) (split_on CHR ''/'' glob)
      then Some ''it must not have an empty segment''
      else None)"

fun validate_path_globs :: "string list \<Rightarrow> unit checked" where
  "validate_path_globs [] = Inr ()"
| "validate_path_globs (glob # globs) =
     (case glob_reason glob of
        Some reason \<Rightarrow> Inl (InvalidPathGlob glob reason)
      | None \<Rightarrow> validate_path_globs globs)"

definition dedup_globs :: "string list \<Rightarrow> string list" where
  "dedup_globs globs = push_new [] globs"

subsection \<open>The matcher\<close>

text \<open>\<open>u8::leading_ones\<close>.\<close>

definition leading_ones :: "char \<Rightarrow> nat" where
  "leading_ones c =
     (let b = (of_char c :: nat)
      in if b < 128 then 0 else if b < 192 then 1 else if b < 224 then 2 else if b < 240 then 3
         else if b < 248 then 4 else if b < 252 then 5 else if b < 254 then 6
         else if b < 255 then 7 else 8)"

definition char_width :: "string \<Rightarrow> nat" where
  "char_width text =
     (case text of
        [] \<Rightarrow> 0
      | b # _ \<Rightarrow> (if leading_ones b = 0 then 1 else leading_ones b))"

fun segment_matches :: "string \<Rightarrow> string \<Rightarrow> bool" where
  "segment_matches [] text = (text = [])"
| "segment_matches (c # rest) text =
     (if c = CHR ''*''
      then list_ex (\<lambda>skip. segment_matches rest (drop skip text)) [0..<length text + 1]
      else if c = CHR ''?''
      then char_width text > 0 \<and> char_width text \<le> length text
           \<and> segment_matches rest (drop (char_width text) text)
      else (case text of
              [] \<Rightarrow> False
            | b # tail \<Rightarrow> b = c \<and> segment_matches rest tail))"

fun segments_match :: "string list \<Rightarrow> string list \<Rightarrow> bool" where
  "segments_match [] path = (path = [])"
| "segments_match (first # rest) path =
     (if first = ''**''
      then list_ex (\<lambda>skip. segments_match rest (drop skip path)) [0..<length path + 1]
      else (case path of
              [] \<Rightarrow> False
            | segment # tail \<Rightarrow> segment_matches first segment \<and> segments_match rest tail))"

definition glob_matches :: "string \<Rightarrow> string \<Rightarrow> bool" where
  "glob_matches glob path =
     segments_match (split_on CHR ''/'' glob) (split_on CHR ''/'' path)"

subsection \<open>A run's diff\<close>

definition out_of_scope :: "string list \<Rightarrow> string list \<Rightarrow> string list" where
  "out_of_scope globs changed =
     (if globs = [] then []
      else filter (\<lambda>path. \<not> list_ex (\<lambda>glob. glob_matches glob path) globs) changed)"

definition scope_violation_reason :: "string list \<Rightarrow> string" where
  "scope_violation_reason paths =
     ''changed paths outside the task's --paths: '' @ join '', '' paths"

subsection \<open>The contract of the matcher\<close>

text \<open>\<open>xs\<close> falls into consecutive parts, one for each pattern and admitted by it.\<close>

definition covers :: "('p \<Rightarrow> 'a list \<Rightarrow> bool) \<Rightarrow> 'p list \<Rightarrow> 'a list \<Rightarrow> bool" where
  "covers admits ps xs \<longleftrightarrow> (\<exists>parts. concat parts = xs \<and> list_all2 admits ps parts)"

lemma covers_Nil: "covers admits [] xs \<longleftrightarrow> xs = []"
  by (auto simp: covers_def)

lemma covers_Cons:
  "covers admits (p # ps) xs \<longleftrightarrow> (\<exists>ys zs. xs = ys @ zs \<and> admits p ys \<and> covers admits ps zs)"
proof
  assume "covers admits (p # ps) xs"
  then show "\<exists>ys zs. xs = ys @ zs \<and> admits p ys \<and> covers admits ps zs"
    unfolding covers_def list_all2_Cons1 by (metis concat.simps(2))
next
  assume "\<exists>ys zs. xs = ys @ zs \<and> admits p ys \<and> covers admits ps zs"
  then obtain ys parts where "xs = ys @ concat parts" "admits p ys" "list_all2 admits ps parts"
    by (auto simp: covers_def)
  then show "covers admits (p # ps) xs"
    unfolding covers_def by (intro exI [of _ "ys # parts"]) simp
qed

text \<open>
  The part one byte of a segment glob admits: anything for \<open>*\<close>, one whole character for \<open>?\<close>,
  itself otherwise; and the part one segment glob admits: any segments for \<open>**\<close>, one segment it
  covers otherwise.
\<close>

definition byte_admits :: "char \<Rightarrow> string \<Rightarrow> bool" where
  "byte_admits c part \<longleftrightarrow>
     c = CHR ''*'' \<or> (if c = CHR ''?'' then part \<noteq> [] \<and> length part = char_width part else part = [c])"

definition segment_admits :: "string \<Rightarrow> string list \<Rightarrow> bool" where
  "segment_admits g part \<longleftrightarrow> g = ''**'' \<or> (\<exists>s. part = [s] \<and> covers byte_admits g s)"

lemma byte_admits_simps:
  "byte_admits CHR ''*'' part"
  "byte_admits CHR ''?'' part \<longleftrightarrow> part \<noteq> [] \<and> length part = char_width part"
  "c \<noteq> CHR ''*'' \<Longrightarrow> c \<noteq> CHR ''?'' \<Longrightarrow> byte_admits c part \<longleftrightarrow> part = [c]"
  by (simp_all add: byte_admits_def)

lemma segment_admits_simps:
  "segment_admits ''**'' part"
  "g \<noteq> ''**'' \<Longrightarrow> segment_admits g part \<longleftrightarrow> (\<exists>s. part = [s] \<and> covers byte_admits g s)"
  by (simp_all add: segment_admits_def)

lemma list_ex_drop:
  "list_ex (\<lambda>k. P (drop k xs)) [0..<Suc (length xs)] \<longleftrightarrow> (\<exists>ys zs. xs = ys @ zs \<and> P zs)"
proof
  assume "list_ex (\<lambda>k. P (drop k xs)) [0..<Suc (length xs)]"
  then obtain k where "P (drop k xs)" unfolding list_ex_iff by blast
  then show "\<exists>ys zs. xs = ys @ zs \<and> P zs"
    by (intro exI [of _ "take k xs"] exI [of _ "drop k xs"]) simp
next
  assume "\<exists>ys zs. xs = ys @ zs \<and> P zs"
  then obtain ys zs where "xs = ys @ zs" "P zs" by blast
  then have "length ys \<in> set [0..<Suc (length xs)] \<and> P (drop (length ys) xs)" by auto
  then show "list_ex (\<lambda>k. P (drop k xs)) [0..<Suc (length xs)]" unfolding list_ex_iff by blast
qed

lemma char_width_append: "ys \<noteq> [] \<Longrightarrow> char_width (ys @ zs) = char_width ys"
  by (cases ys) (auto simp: char_width_def)

lemma char_width_pos: "char_width text > 0 \<longleftrightarrow> text \<noteq> []"
  by (cases "text") (auto simp: char_width_def)

lemma question_mark:
  "char_width text > 0 \<and> char_width text \<le> length text \<and> P (drop (char_width text) text)
   \<longleftrightarrow> (\<exists>ys zs. text = ys @ zs \<and> ys \<noteq> [] \<and> length ys = char_width ys \<and> P zs)"
  (is "?l \<longleftrightarrow> ?r")
proof
  assume l: ?l
  let ?ys = "take (char_width text) text"
  from l have ne: "?ys \<noteq> []" by auto
  with char_width_append [OF ne, of "drop (char_width text) text"] l
  have "length ?ys = char_width ?ys" by simp
  with l ne show ?r
    by (intro exI [of _ ?ys] exI [of _ "drop (char_width text) text"]) simp
next
  assume ?r
  then obtain ys zs where "text = ys @ zs" "ys \<noteq> []" "length ys = char_width ys" "P zs" by blast
  then show ?l by (simp add: char_width_append char_width_pos)
qed

lemma segment_matches_covers: "segment_matches g text \<longleftrightarrow> covers byte_admits g text"
proof (induction g arbitrary: "text")
  case Nil
  show ?case by (simp add: covers_Nil)
next
  case (Cons c g)
  consider "c = CHR ''*''" | "c = CHR ''?''" | "c \<noteq> CHR ''*''" "c \<noteq> CHR ''?''" by blast
  then show ?case
  proof cases
    case 1
    then show ?thesis
      by (simp add: covers_Cons byte_admits_simps Cons.IH list_ex_drop del: upt_Suc)
  next
    case 2
    then show ?thesis
      by (simp add: covers_Cons byte_admits_simps Cons.IH question_mark)
  next
    case 3
    then show ?thesis
      by (cases "text") (auto simp: covers_Cons byte_admits_simps Cons.IH)
  qed
qed

lemma segments_match_covers: "segments_match gs path \<longleftrightarrow> covers segment_admits gs path"
proof (induction gs arbitrary: path)
  case Nil
  show ?case by (simp add: covers_Nil)
next
  case (Cons g gs)
  show ?case
  proof (cases "g = ''**''")
    case True
    then show ?thesis
      by (simp add: covers_Cons segment_admits_simps Cons.IH list_ex_drop del: upt_Suc)
  next
    case False
    then have "covers segment_admits (g # gs) path \<longleftrightarrow>
      (\<exists>s zs. path = s # zs \<and> covers byte_admits g s \<and> covers segment_admits gs zs)"
      by (auto simp: covers_Cons segment_admits_simps) (metis append_Cons append_Nil)
    with False show ?thesis
      by (cases path) (simp_all add: Cons.IH segment_matches_covers)
  qed
qed

subsection \<open>Consequences\<close>

lemma covers_singletons:
  assumes "\<And>p part. p \<in> set ps \<Longrightarrow> admits p part \<longleftrightarrow> part = [p]"
  shows "covers admits ps xs \<longleftrightarrow> xs = ps"
  using assms
proof (induction ps arbitrary: xs)
  case (Cons p ps)
  then have "covers admits ps zs \<longleftrightarrow> zs = ps" for zs by simp
  with Cons.prems [of p] show ?case by (simp add: covers_Cons)
qed (simp add: covers_Nil)

lemma covers_length:
  assumes "\<And>p part. p \<in> set ps \<Longrightarrow> admits p part \<Longrightarrow> length part = 1" and "covers admits ps xs"
  shows "length xs = length ps"
  using assms
proof (induction ps arbitrary: xs)
  case (Cons p ps)
  from Cons.prems(2) obtain ys zs where "xs = ys @ zs" "admits p ys" "covers admits ps zs"
    by (auto simp: covers_Cons)
  moreover from this(3) have "length zs = length ps"
    by (rule Cons.IH [rotated]) (use Cons.prems(1) in auto)
  moreover have "length ys = 1" by (rule Cons.prems(1) [of p]) (simp_all add: \<open>admits p ys\<close>)
  ultimately show ?case by simp
qed (simp add: covers_Nil)

definition literal :: "string \<Rightarrow> bool" where
  "literal g \<longleftrightarrow> CHR ''*'' \<notin> set g \<and> CHR ''?'' \<notin> set g"

lemma literal_segment:
  assumes "literal g" shows "covers byte_admits g s \<longleftrightarrow> s = g"
  using assms by (intro covers_singletons) (auto simp: literal_def byte_admits_def)

lemma split_on_subset: "p \<in> set (split_on c s) \<Longrightarrow> set p \<subseteq> set s"
proof (induction s arbitrary: p)
  case (Cons x xs)
  obtain q qs where q: "split_on c xs = q # qs" by (cases "split_on c xs") auto
  with Cons.IH [of q] Cons.IH Cons.prems show ?case by (fastforce split: if_splits)
qed simp

lemma literal_split: "literal g \<Longrightarrow> s \<in> set (split_on CHR ''/'' g) \<Longrightarrow> literal s"
  using split_on_subset [of s "CHR ''/''" g] by (auto simp: literal_def)

lemma split_on_inj: "split_on c s = split_on c t \<longleftrightarrow> s = t"
  by (metis join_split_on)

lemma literal_glob_matches:
  assumes "literal g" shows "glob_matches g path \<longleftrightarrow> path = g"
proof -
  have "covers segment_admits (split_on CHR ''/'' g) xs \<longleftrightarrow> xs = split_on CHR ''/'' g" for xs
  proof (rule covers_singletons)
    fix p part assume "p \<in> set (split_on CHR ''/'' g)"
    with assms have "literal p" by (rule literal_split)
    then have "p \<noteq> ''**''" by (auto simp: literal_def)
    then show "segment_admits p part \<longleftrightarrow> part = [p]"
      by (simp add: segment_admits_simps literal_segment [OF \<open>literal p\<close>])
  qed
  then show ?thesis by (simp add: glob_matches_def segments_match_covers split_on_inj)
qed

lemma validate_path_globs_Inr:
  "validate_path_globs globs = Inr u \<longleftrightarrow> (\<forall>g \<in> set globs. glob_reason g = None)"
  by (induction globs) (auto split: option.splits)

lemma dedup_globs_simps [simp]:
  "set (dedup_globs globs) = set globs" "distinct (dedup_globs globs)"
  by (simp_all add: dedup_globs_def distinct_push_new)

lemma out_of_scope_dedup: "out_of_scope (dedup_globs globs) changed = out_of_scope globs changed"
proof -
  have "dedup_globs globs = [] \<longleftrightarrow> globs = []" by (metis dedup_globs_simps(1) set_empty2)
  then show ?thesis by (simp add: out_of_scope_def list_ex_iff)
qed

subsection \<open>Properties\<close>




end
