(* ===== verification/Task_Aggregate.thy ===== *)
theory Task_Aggregate
  imports Path_Scope
begin

text \<open>
  The task aggregate (\<^verbatim>\<open>src/src/domain/task.rs\<close> with its inputs in \<^verbatim>\<open>input.rs\<close>): creation and
  restoration, the transition table, the claim, and the edits of a task that is not claimed yet.
  \<open>task_exec\<close> gathers the commands, so that the interfaces \<open>aggregate\<close> and \<open>lifecycle\<close> apply.
\<close>

subsection \<open>State and inputs\<close>

record task =
  task_id :: task_id
  task_title :: string
  task_description :: string
  task_acceptance :: string
  task_commands :: "string list"
  task_evidence :: "evidence_check list"
  task_paths :: "string list"
  task_priority :: priority
  task_kind_of :: "task_kind option"
  task_status :: task_status
  task_goal_id :: "goal_id option"
  task_context :: string
  task_created_at :: string
  task_updated_at :: string

text \<open>\<open>TaskRecord\<close> has the fields of \<open>Task\<close>; only the privacy of the fields differs.\<close>

type_synonym task_record = task

record new_task =
  nt_title :: string
  nt_description :: string
  nt_acceptance :: string
  nt_commands :: "string list"
  nt_dependencies :: "task_id list"
  nt_goal_dependencies :: "goal_id list"
  nt_goal_id :: "goal_id option"
  nt_context :: string
  nt_evidence :: "evidence_check list"
  nt_paths :: "string list"
  nt_priority :: priority
  nt_kind :: "task_kind option"

record task_edit =
  te_title :: "string option"
  te_description :: "string option"
  te_acceptance :: "string option"
  te_commands :: "string list option"
  te_evidence :: "evidence_check list option"
  te_paths :: "string list option"
  te_context :: "string option"
  te_kind :: "task_kind option"

definition NewTask_required_evidence :: "new_task \<Rightarrow> evidence_check list" where
  "NewTask_required_evidence new = push_new [] (nt_evidence new)"

definition NewTask_validate :: "new_task \<Rightarrow> unit checked" where
  "NewTask_validate new =
     and_then (require (\<not> blank (nt_title new)) (Blank ''task title'')) (\<lambda>_.
     and_then (require (list_all (\<lambda>s. \<not> blank s) (nt_commands new)) (Blank ''verification commands'')) (\<lambda>_.
     and_then (require (list_all (\<lambda>i. i > 0) (nt_dependencies new)) (NonPositiveId ''dependency IDs'')) (\<lambda>_.
     and_then (require (is_none_or (\<lambda>i. i > 0) (nt_goal_id new)) (NonPositiveId ''goal ID'')) (\<lambda>_.
     and_then (require (list_all (\<lambda>i. i > 0) (nt_goal_dependencies new)) (NonPositiveId ''goal dependency IDs'')) (\<lambda>_.
     (case nt_goal_id new of
        Some g \<Rightarrow> (if g \<in> set (nt_goal_dependencies new) then Inl (OwnGoalDependency g)
                   else validate_path_globs (nt_paths new))
      | None \<Rightarrow> validate_path_globs (nt_paths new)))))))"

definition TaskEdit_is_empty :: "task_edit \<Rightarrow> bool" where
  "TaskEdit_is_empty e =
     (te_title e = None \<and> te_description e = None \<and> te_acceptance e = None
      \<and> te_commands e = None \<and> te_evidence e = None \<and> te_paths e = None
      \<and> te_context e = None \<and> te_kind e = None)"

definition TaskEdit_validate :: "task_edit \<Rightarrow> unit checked" where
  "TaskEdit_validate e =
     and_then (case te_title e of
                 Some title \<Rightarrow> require (\<not> blank title) (Blank ''task title'')
               | None \<Rightarrow> Inr ()) (\<lambda>_.
     and_then (case te_commands e of
                 Some commands \<Rightarrow>
                   require (list_all (\<lambda>s. \<not> blank s) commands) (Blank ''verification commands'')
               | None \<Rightarrow> Inr ()) (\<lambda>_.
     (case te_paths e of Some paths \<Rightarrow> validate_path_globs paths | None \<Rightarrow> Inr ())))"

subsection \<open>Statuses\<close>

fun TaskStatus_transition :: "task_status \<Rightarrow> task_action \<Rightarrow> bool \<Rightarrow> task_status checked" where
  "TaskStatus_transition Draft ActSubmit _ = Inr Submitted"
| "TaskStatus_transition Ready ActReopen _ = Inr Submitted"
| "TaskStatus_transition Submitted ActApprove _ = Inr Ready"
| "TaskStatus_transition Draft ActBypassReview _ = Inr Ready"
| "TaskStatus_transition Submitted ActBypassReview _ = Inr Ready"
| "TaskStatus_transition Draft ActReady _ = Inl (ReadyNeedsPlanReview Draft)"
| "TaskStatus_transition Submitted ActReady _ = Inl (ReadyNeedsPlanReview Submitted)"
| "TaskStatus_transition Ready ActDraft _ = Inr Draft"
| "TaskStatus_transition Submitted ActDraft _ = Inr Draft"
| "TaskStatus_transition Draft ActCancel _ = Inr Canceled"
| "TaskStatus_transition Submitted ActCancel _ = Inr Canceled"
| "TaskStatus_transition Ready ActCancel _ = Inr Canceled"
| "TaskStatus_transition InProgress action unfinished_run =
     (if unfinished_run then Inl (TaskHasUnfinishedRun action)
      else (case action of
              ActReady \<Rightarrow> Inr Ready
            | ActDraft \<Rightarrow> Inr Draft
            | ActCancel \<Rightarrow> Inr Canceled
            | _ \<Rightarrow> Inl (TransitionNotAllowed InProgress action)))"
| "TaskStatus_transition status action _ = Inl (TransitionNotAllowed status action)"

definition TaskStatus_dependencies_editable :: "task_status \<Rightarrow> bool" where
  "TaskStatus_dependencies_editable s = (s \<in> {Draft, Submitted, Ready})"

definition TaskStatus_content_editable :: "task_status \<Rightarrow> bool" where
  "TaskStatus_content_editable s = (s \<in> {Draft, Submitted})"

definition TaskStatus_is_terminal :: "task_status \<Rightarrow> bool" where
  "TaskStatus_is_terminal s = (s \<in> {Completed, Canceled})"

lemmas status_preds =
  TaskStatus_dependencies_editable_def TaskStatus_content_editable_def TaskStatus_is_terminal_def

subsection \<open>Creation\<close>

definition require_positive_task :: "task_id \<Rightarrow> unit checked" where
  "require_positive_task i = require (i > 0) (NonPositiveId ''task ID'')"

definition Task_new :: "task_id \<Rightarrow> new_task \<Rightarrow> string \<Rightarrow> task checked" where
  "Task_new i new created_at =
     and_then (NewTask_validate new) (\<lambda>_.
     and_then (require_positive_task i) (\<lambda>_.
     Inr \<lparr>task_id = i, task_title = nt_title new, task_description = nt_description new,
          task_acceptance = nt_acceptance new, task_commands = nt_commands new,
          task_evidence = NewTask_required_evidence new, task_paths = dedup_globs (nt_paths new),
          task_priority = nt_priority new, task_kind_of = nt_kind new, task_status = Draft,
          task_goal_id = nt_goal_id new, task_context = nt_context new,
          task_created_at = created_at, task_updated_at = created_at\<rparr>))"

definition Task_restore :: "task_record \<Rightarrow> task checked" where
  "Task_restore rcd =
     and_then (require_positive_task (task_id rcd)) (\<lambda>_.
     and_then (require (\<not> blank (task_title rcd)) (Blank ''task title'')) (\<lambda>_.
     and_then (require (is_none_or (\<lambda>i. i > 0) (task_goal_id rcd)) (NonPositiveId ''goal ID'')) (\<lambda>_.
     Inr rcd)))"

subsection \<open>Commands\<close>

definition dependencies_editable :: "task \<Rightarrow> bool" where
  "dependencies_editable t = TaskStatus_dependencies_editable (task_status t)"

definition require_editable :: "task \<Rightarrow> string \<Rightarrow> unit checked" where
  "require_editable t what = require (dependencies_editable t) (TaskNotEditable what)"

definition task_transition :: "task \<Rightarrow> task_action \<Rightarrow> bool \<Rightarrow> task checked" where
  "task_transition t action unfinished_run =
     and_then (TaskStatus_transition (task_status t) action unfinished_run) (\<lambda>s.
     Inr (t\<lparr>task_status := s\<rparr>))"

definition task_claim :: "task \<Rightarrow> task checked" where
  "task_claim t =
     and_then (require (task_status t = Ready) (TaskNotClaimable (task_id t) (task_status t))) (\<lambda>_.
     Inr (t\<lparr>task_status := InProgress\<rparr>))"

definition set_goal :: "task \<Rightarrow> goal_id option \<Rightarrow> task checked" where
  "set_goal t g = and_then (require_editable t ''the goal'') (\<lambda>_. Inr (t\<lparr>task_goal_id := g\<rparr>))"

definition set_paths :: "task \<Rightarrow> string list \<Rightarrow> task checked" where
  "set_paths t paths =
     and_then (validate_path_globs paths) (\<lambda>_.
     and_then (require_editable t ''the paths'') (\<lambda>_.
     Inr (t\<lparr>task_paths := dedup_globs paths\<rparr>)))"

definition set_priority :: "task \<Rightarrow> priority \<Rightarrow> task checked" where
  "set_priority t p = and_then (require_editable t ''the priority'') (\<lambda>_. Inr (t\<lparr>task_priority := p\<rparr>))"

definition edit_task :: "task \<Rightarrow> task_edit \<Rightarrow> task checked" where
  "edit_task t e =
     and_then (TaskEdit_validate e) (\<lambda>_.
     and_then (require (TaskStatus_content_editable (task_status t))
                 (TaskContentNotEditable (task_id t) (task_status t))) (\<lambda>_.
     Inr (t\<lparr>task_title := (case te_title e of Some x \<Rightarrow> x | None \<Rightarrow> task_title t),
            task_description := (case te_description e of Some x \<Rightarrow> x | None \<Rightarrow> task_description t),
            task_acceptance := (case te_acceptance e of Some x \<Rightarrow> x | None \<Rightarrow> task_acceptance t),
            task_commands := (case te_commands e of Some x \<Rightarrow> x | None \<Rightarrow> task_commands t),
            task_evidence := (case te_evidence e of Some x \<Rightarrow> push_new [] x | None \<Rightarrow> task_evidence t),
            task_paths := (case te_paths e of Some x \<Rightarrow> dedup_globs x | None \<Rightarrow> task_paths t),
            task_context := (case te_context e of Some x \<Rightarrow> x | None \<Rightarrow> task_context t),
            task_kind_of := (case te_kind e of Some x \<Rightarrow> Some x | None \<Rightarrow> task_kind_of t)\<rparr>)))"

subsection \<open>Checks of the dependency graph\<close>

definition check_not_self :: "task_id \<Rightarrow> task_id \<Rightarrow> unit checked" where
  "check_not_self i predecessor = require (i \<noteq> predecessor) SelfDependency"

definition check_dependencies_editable :: "task \<Rightarrow> unit checked" where
  "check_dependencies_editable t = require_editable t ''dependencies''"

definition check_acyclic :: "task_id \<Rightarrow> task_id \<Rightarrow> bool \<Rightarrow> unit checked" where
  "check_acyclic i predecessor creates_cycle = require (\<not> creates_cycle) (DependencyCycle i predecessor)"

definition check_not_own_goal :: "task \<Rightarrow> goal_id \<Rightarrow> unit checked" where
  "check_not_own_goal t g = require (task_goal_id t \<noteq> Some g) (OwnGoalDependency g)"

definition check_goal_acyclic :: "task_id \<Rightarrow> goal_id \<Rightarrow> bool \<Rightarrow> unit checked" where
  "check_goal_acyclic i g creates_cycle = require (\<not> creates_cycle) (GoalDependencyCycle i g)"

definition check_membership_acyclic :: "task \<Rightarrow> goal_id \<Rightarrow> bool \<Rightarrow> bool \<Rightarrow> unit checked" where
  "check_membership_acyclic t g depends_on_goal creates_cycle =
     and_then (require (\<not> depends_on_goal) (OwnGoalDependency g)) (\<lambda>_.
     require (\<not> creates_cycle) (GoalMembershipCycle (task_id t) g))"

lemmas task_checks =
  check_not_self_def check_dependencies_editable_def check_acyclic_def check_not_own_goal_def
  check_goal_acyclic_def check_membership_acyclic_def

subsection \<open>The commands together\<close>

datatype task_cmd =
    CTransition task_action bool
  | CClaim
  | CSetGoal "goal_id option"
  | CSetPaths "string list"
  | CSetPriority priority
  | CEdit task_edit

fun task_exec :: "task_cmd \<Rightarrow> task \<Rightarrow> task checked" where
  "task_exec (CTransition action unfinished) t = task_transition t action unfinished"
| "task_exec CClaim t = task_claim t"
| "task_exec (CSetGoal g) t = set_goal t g"
| "task_exec (CSetPaths paths) t = set_paths t paths"
| "task_exec (CSetPriority p) t = set_priority t p"
| "task_exec (CEdit e) t = edit_task t e"

lemmas task_commands_def =
  task_transition_def task_claim_def set_goal_def set_paths_def set_priority_def edit_task_def
  require_editable_def dependencies_editable_def

text \<open>
  The creation rules as a state invariant: what \<open>NewTask_validate\<close> and the deduplication establish
  and every command keeps.
\<close>

definition task_ok :: "task \<Rightarrow> bool" where
  "task_ok t \<longleftrightarrow>
     task_id t > 0 \<and> \<not> blank (task_title t)
     \<and> (\<forall>c \<in> set (task_commands t). \<not> blank c)
     \<and> distinct (task_evidence t) \<and> distinct (task_paths t)
     \<and> (\<forall>g \<in> set (task_paths t). glob_reason g = None)"

text \<open>The status moves the domain model documents for a task.\<close>

fun task_edge :: "task_status \<Rightarrow> task_status \<Rightarrow> bool" where
  "task_edge Draft s = (s \<in> {Submitted, Ready, Canceled})"
| "task_edge Submitted s = (s \<in> {Draft, Ready, Canceled})"
| "task_edge Ready s = (s \<in> {Draft, Submitted, InProgress, Canceled})"
| "task_edge InProgress s = (s \<in> {Draft, Ready, Canceled})"
| "task_edge Completed s = False"
| "task_edge Canceled s = False"

lemma TaskStatus_transition_edge: "TaskStatus_transition s a u = Inr s' \<Longrightarrow> task_edge s s'"
  by (cases "(s, a, u)" rule: TaskStatus_transition.cases)
     (auto split: if_splits task_action.splits)

lemma task_exec_id: "task_exec c t = Inr t' \<Longrightarrow> task_id t' = task_id t"
  by (cases c) (auto simp: task_commands_def)

lemma task_exec_edge:
  "task_exec c t = Inr t' \<Longrightarrow> task_status t' = task_status t \<or> task_edge (task_status t) (task_status t')"
  by (cases c) (auto simp: task_commands_def dest: TaskStatus_transition_edge)

lemma NewTask_validate_Inr:
  "NewTask_validate new = Inr u \<longleftrightarrow>
     \<not> blank (nt_title new) \<and> (\<forall>c \<in> set (nt_commands new). \<not> blank c)
     \<and> (\<forall>i \<in> set (nt_dependencies new). i > 0) \<and> is_none_or (\<lambda>i. i > 0) (nt_goal_id new)
     \<and> (\<forall>i \<in> set (nt_goal_dependencies new). i > 0)
     \<and> is_none_or (\<lambda>g. g \<notin> set (nt_goal_dependencies new)) (nt_goal_id new)
     \<and> (\<forall>g \<in> set (nt_paths new). glob_reason g = None)"
  by (cases "nt_goal_id new")
     (auto simp: NewTask_validate_def list_all_iff validate_path_globs_Inr)

lemma TaskEdit_validate_Inr:
  "TaskEdit_validate e = Inr u \<longleftrightarrow>
     is_none_or (\<lambda>x. \<not> blank x) (te_title e)
     \<and> is_none_or (\<lambda>cs. \<forall>c \<in> set cs. \<not> blank c) (te_commands e)
     \<and> is_none_or (\<lambda>gs. \<forall>g \<in> set gs. glob_reason g = None) (te_paths e)"
  by (cases "te_title e"; cases "te_commands e"; cases "te_paths e")
     (auto simp: TaskEdit_validate_def list_all_iff validate_path_globs_Inr)

lemma edit_task_Inr:
  assumes "edit_task t e = Inr t'"
  shows "TaskEdit_validate e = Inr ()" "TaskStatus_content_editable (task_status t)"
    "task_id t' = task_id t" "task_status t' = task_status t" "task_goal_id t' = task_goal_id t"
    "task_priority t' = task_priority t" "task_created_at t' = task_created_at t"
    "task_title t' = (case te_title e of Some x \<Rightarrow> x | None \<Rightarrow> task_title t)"
    "task_commands t' = (case te_commands e of Some x \<Rightarrow> x | None \<Rightarrow> task_commands t)"
    "task_evidence t' = (case te_evidence e of Some x \<Rightarrow> push_new [] x | None \<Rightarrow> task_evidence t)"
    "task_paths t' = (case te_paths e of Some x \<Rightarrow> dedup_globs x | None \<Rightarrow> task_paths t)"
  using assms unfolding edit_task_def by auto

lemma edit_task_ok: "task_ok t \<Longrightarrow> edit_task t e = Inr t' \<Longrightarrow> task_ok t'"
  using edit_task_Inr [of t e t']
  by (cases "te_title e"; cases "te_commands e"; cases "te_evidence e"; cases "te_paths e")
     (simp_all add: task_ok_def TaskEdit_validate_Inr distinct_push_new)

lemma task_exec_ok: "task_ok t \<Longrightarrow> task_exec c t = Inr t' \<Longrightarrow> task_ok t'"
proof (cases c)
  case (CEdit e)
  assume "task_ok t" "task_exec c t = Inr t'"
  with CEdit edit_task_ok show ?thesis by simp
qed (auto simp: task_ok_def task_commands_def validate_path_globs_Inr)

interpretation task_life: lifecycle task_exec task_id task_ok task_status task_edge
proof unfold_locales
qed (fact task_exec_id task_exec_ok task_exec_edge)+

subsection \<open>Properties\<close>

text \<open>
  C20: a task is registered exactly under the creation rules (a title, no blank verification command,
  positive ids, not dependent on its own goal, well-formed globs, a positive id of its own); it
  starts as a draft and satisfies the task invariant.
\<close>

theorem Task_new_iff:
  "(is_ok (Task_new i new at) \<longleftrightarrow>
      i > 0 \<and> \<not> blank (nt_title new) \<and> (\<forall>c \<in> set (nt_commands new). \<not> blank c)
      \<and> (\<forall>d \<in> set (nt_dependencies new). d > 0) \<and> is_none_or (\<lambda>g. g > 0) (nt_goal_id new)
      \<and> (\<forall>g \<in> set (nt_goal_dependencies new). g > 0)
      \<and> is_none_or (\<lambda>g. g \<notin> set (nt_goal_dependencies new)) (nt_goal_id new)
      \<and> (\<forall>g \<in> set (nt_paths new). glob_reason g = None))
   \<and> (\<forall>t. Task_new i new at = Inr t \<longrightarrow> task_status t = Draft \<and> task_ok t \<and> Task_restore t = Inr t)"
  by (auto simp: Task_new_def NewTask_validate_Inr require_positive_task_def task_ok_def
        NewTask_required_evidence_def distinct_push_new Task_restore_def)

theorem Task_new_witness:
  "is_ok (Task_new 7
     \<lparr>nt_title = ''t'', nt_description = '''', nt_acceptance = '''', nt_commands = [''make''],
      nt_dependencies = [3], nt_goal_dependencies = [2], nt_goal_id = Some 1, nt_context = '''',
      nt_evidence = [E2e, E2e], nt_paths = [''docs/**''], nt_priority = Normal, nt_kind = None\<rparr> ''now'')"
proof -
  have "glob_reason ''docs/**'' = None" by (simp add: glob_reason_def starts_with_def)
  then show ?thesis by (simp add: Task_new_iff)
qed

text \<open>
  C9: the plan review gate: a task that waits as a draft or in plan review can only come to be run
  (or become ready) if some command of the sequence was plan review's approval or a person's
  explicit bypass; no other command, and no order of them, gets it past the gate.
\<close>

theorem review_gate:
  assumes "task_status t \<in> {Draft, Submitted}"
    and "exec_all task_exec cs t = Inr t'"
    and "task_status t' \<in> {Ready, InProgress}"
  shows "\<exists>u. CTransition ActApprove u \<in> set cs \<or> CTransition ActBypassReview u \<in> set cs"
proof (rule ccontr)
  assume no: "\<not> ?thesis"
  have step: "task_status s' \<in> {Draft, Submitted, Canceled}"
    if "task_status s \<in> {Draft, Submitted, Canceled}" "task_exec c s = Inr s'" "c \<in> set cs" for c s s'
    using that no
    by (cases c; cases "task_status s"; cases "case c of CTransition a _ \<Rightarrow> a | _ \<Rightarrow> ActReady")
       (auto simp: task_commands_def)
  have "task_status t' \<in> {Draft, Submitted, Canceled}"
    if "set ds \<subseteq> set cs" "exec_all task_exec ds s = Inr t'" "task_status s \<in> {Draft, Submitted, Canceled}"
    for ds s
    using that
  proof (induction ds arbitrary: s)
    case (Cons d ds)
    from Cons.prems(2) obtain s1 where s1: "task_exec d s = Inr s1" "exec_all task_exec ds s1 = Inr t'"
      by auto
    show ?case
      by (rule Cons.IH [OF _ s1(2)], use Cons.prems(1) in simp, rule step [OF Cons.prems(3) s1(1)])
        (use Cons.prems(1) in simp)
  qed simp
  from this [of cs t] assms show False by auto
qed

definition sample_task :: task where
  "sample_task =
     \<lparr>task_id = 1, task_title = ''t'', task_description = '''', task_acceptance = '''',
      task_commands = [], task_evidence = [], task_paths = [], task_priority = Normal,
      task_kind_of = None, task_status = Draft, task_goal_id = None, task_context = '''',
      task_created_at = ''a'', task_updated_at = ''a''\<rparr>"

theorem review_gate_witness:
  "\<exists>u. CTransition ActApprove u \<in> set [CTransition ActSubmit False, CTransition ActApprove False, CClaim]
     \<or> CTransition ActBypassReview u \<in> set [CTransition ActSubmit False, CTransition ActApprove False, CClaim]"
  by (rule review_gate [of sample_task _ "sample_task\<lparr>task_status := InProgress\<rparr>"])
     (simp_all add: sample_task_def task_transition_def task_claim_def)

text \<open>
  C11: what a command may change, by status: it keeps the id and the creation time, the status moves
  along the diagram only, the content moves only in draft or submitted, the goal, the globs and the
  priority only before the claim, and the task invariant is kept. So nothing about a claimed
  task but its status changes, and a completed or canceled task takes no command at all.
\<close>

theorem task_exec_frame:
  assumes "task_exec c t = Inr t'"
  shows "task_id t' = task_id t \<and> task_created_at t' = task_created_at t
     \<and> (task_status t' = task_status t \<or> task_edge (task_status t) (task_status t'))
     \<and> (task_ok t \<longrightarrow> task_ok t')
     \<and> \<not> TaskStatus_is_terminal (task_status t)
     \<and> (\<not> TaskStatus_dependencies_editable (task_status t) \<longrightarrow> t' = t\<lparr>task_status := task_status t'\<rparr>)
     \<and> (\<not> TaskStatus_content_editable (task_status t) \<longrightarrow>
          t' = t\<lparr>task_status := task_status t', task_goal_id := task_goal_id t',
                 task_paths := task_paths t', task_priority := task_priority t'\<rparr>)"
proof -
  have "task_created_at t' = task_created_at t \<and> \<not> TaskStatus_is_terminal (task_status t)"
    using assms by (cases c; cases "task_status t") (auto simp: task_commands_def status_preds)
  moreover have "t' = t\<lparr>task_status := task_status t'\<rparr>"
    if "\<not> TaskStatus_dependencies_editable (task_status t)"
    using assms that by (cases c) (auto simp: task_commands_def status_preds)
  moreover have "t' = t\<lparr>task_status := task_status t', task_goal_id := task_goal_id t',
                        task_paths := task_paths t', task_priority := task_priority t'\<rparr>"
    if "\<not> TaskStatus_content_editable (task_status t)"
    using assms that by (cases c) (auto simp: task_commands_def status_preds)
  ultimately show ?thesis
    using task_life.exec_key [OF assms] task_life.exec_edge [OF assms] task_life.exec_inv [OF _ assms]
    by blast
qed

theorem task_exec_frame_witness:
  "task_id (sample_task\<lparr>task_status := Submitted\<rparr>) = task_id sample_task"
  using task_exec_frame [of "CTransition ActSubmit False" sample_task "sample_task\<lparr>task_status := Submitted\<rparr>"]
  by (simp add: sample_task_def task_transition_def)

end
