(* ===== verification/Json.thy ===== *)
theory Json
  imports Vocabulary Complex_Main
begin

text \<open>
  \<open>serde_json::Value\<close> as the sources read it, and the event record (\<^verbatim>\<open>src/src/domain/views.rs\<close>)
  whose payload it is. An object is the list of its entries; \<open>payload[key]\<close> of anything that has no
  such entry is \<open>Null\<close>, as the crate documents. An integer number is \<open>JInt\<close>, any other \<open>JFloat\<close>.
\<close>

datatype json =
    JNull
  | JBool bool
  | JInt int
  | JFloat rat
  | JStr string
  | JArr "json list"
  | JObj "(string \<times> json) list"

fun json_get :: "string \<Rightarrow> json \<Rightarrow> json option" where
  "json_get key (JObj entries) = map_of entries key"
| "json_get key _ = None"

definition json_index :: "json \<Rightarrow> string \<Rightarrow> json" where
  "json_index v key = (case json_get key v of Some x \<Rightarrow> x | None \<Rightarrow> JNull)"

fun as_str :: "json \<Rightarrow> string option" where
  "as_str (JStr s) = Some s"
| "as_str _ = None"

fun as_bool :: "json \<Rightarrow> bool option" where
  "as_bool (JBool b) = Some b"
| "as_bool _ = None"

fun as_i64 :: "json \<Rightarrow> int option" where
  "as_i64 (JInt i) = (if - (2 ^ 63) \<le> i \<and> i < 2 ^ 63 then Some i else None)"
| "as_i64 _ = None"

fun as_u64 :: "json \<Rightarrow> nat option" where
  "as_u64 (JInt i) = (if 0 \<le> i \<and> i < 2 ^ 64 then Some (nat i) else None)"
| "as_u64 _ = None"

fun as_array :: "json \<Rightarrow> json list option" where
  "as_array (JArr vs) = Some vs"
| "as_array _ = None"

definition is_array :: "json \<Rightarrow> bool" where
  "is_array v = (as_array v \<noteq> None)"

subsection \<open>Events\<close>

record run_event =
  ev_id :: event_id
  ev_task_id :: "task_id option"
  ev_goal_id :: "goal_id option"
  ev_run_id :: "run_id option"
  ev_kind :: string
  ev_payload :: json
  ev_created_at :: string

lemma as_str_Some: "as_str v = Some s \<longleftrightarrow> v = JStr s"
  by (cases v) auto

end
