(* ===== verification/Run_Aggregate.thy ===== *)
theory Run_Aggregate
  imports Task_Aggregate Json
begin

text \<open>
  The run aggregate (\<^verbatim>\<open>src/src/domain/run.rs\<close>, with \<open>RunRecord\<close> and \<open>RunPlan\<close> of \<^verbatim>\<open>input.rs\<close> and
  \<open>RunPaths\<close> of \<^verbatim>\<open>views.rs\<close>): one attempt at a task from its claim to its landing. Every command is
  one definition; \<open>run_exec\<close> gathers them, and \<open>run_edge\<close> is the documented state diagram.
\<close>

subsection \<open>State and inputs\<close>

record task_run =
  run_id :: run_id
  run_task_id :: task_id
  run_status :: run_status
  run_requested_provider :: provider
  run_actual_provider :: provider
  run_base_commit :: commit_sha
  run_branch :: "string option"
  run_worktree_path :: "string option"
  run_workspace_id :: "string option"
  run_receipt_path :: "string option"
  run_log_path :: "string option"
  run_result_commit :: "commit_sha option"
  run_repo_path :: "string option"
  run_dir :: "string option"
  run_last_error :: "string option"
  run_workspace_closed_at :: "int option"
  run_created_at :: string

type_synonym run_record = task_run

record run_plan =
  plan_repo_path :: string
  plan_run_dir :: string
  plan_branch :: string
  plan_worktree_path :: string
  plan_receipt_path :: string
  plan_log_path :: string

text \<open>\<open>Path::join\<close> of a relative component; an absolute one replaces the base.\<close>

definition path_join :: "string \<Rightarrow> string \<Rightarrow> string" where
  "path_join base p =
     (if starts_with ''/'' p then p
      else if base = [] \<or> last base = CHR ''/'' then base @ p
      else base @ ''/'' @ p)"

record run_paths =
  rp_run_dir :: string
  rp_worktree :: string
  rp_receipt :: string
  rp_log :: string

definition RunPaths_new :: "string \<Rightarrow> run_id \<Rightarrow> run_paths" where
  "RunPaths_new runs_dir i =
     (let d = path_join runs_dir i
      in \<lparr>rp_run_dir = d, rp_worktree = path_join d ''worktree'',
          rp_receipt = path_join d ''receipt.json'', rp_log = path_join d ''claude.debug.log''\<rparr>)"

subsection \<open>Creation and reading\<close>

definition TaskRun_new :: "run_id \<Rightarrow> task \<Rightarrow> commit_sha \<Rightarrow> provider \<Rightarrow> string \<Rightarrow> task_run checked" where
  "TaskRun_new i t base_commit p claimed_at =
     and_then (require (task_status t = InProgress) (RunOfUnclaimedTask (task_id t) (task_status t))) (\<lambda>_.
     and_then (CommitSha_parse (to_ascii_lowercase base_commit) ''base commit'') (\<lambda>base.
     Inr \<lparr>run_id = i, run_task_id = task_id t, run_status = Claimed,
          run_requested_provider = p, run_actual_provider = p, run_base_commit = base,
          run_branch = None, run_worktree_path = None, run_workspace_id = None,
          run_receipt_path = None, run_log_path = None, run_result_commit = None,
          run_repo_path = None, run_dir = None, run_last_error = None,
          run_workspace_closed_at = None, run_created_at = claimed_at\<rparr>))"

definition TaskRun_restore :: "run_record \<Rightarrow> task_run checked" where
  "TaskRun_restore rcd =
     and_then (require (run_status rcd \<noteq> Integrated \<or> run_result_commit rcd \<noteq> None)
                 (RunInconsistent (run_id rcd) ''is integrated without a result commit'')) (\<lambda>_.
     Inr rcd)"

definition relocated :: "task_run \<Rightarrow> string \<Rightarrow> task_run" where
  "relocated r runs_dir =
     (let paths = RunPaths_new runs_dir (run_id r);
          resolve = (\<lambda>stored path. map_option (\<lambda>_. path) stored)
      in r\<lparr>run_dir := resolve (run_dir r) (rp_run_dir paths),
           run_worktree_path := resolve (run_worktree_path r) (rp_worktree paths),
           run_receipt_path := resolve (run_receipt_path r) (rp_receipt paths),
           run_log_path := resolve (run_log_path r) (rp_log paths)\<rparr>)"

definition idle_marker_path :: "task_run \<Rightarrow> string checked" where
  "idle_marker_path r =
     (case run_dir r of None \<Rightarrow> Inl MissingRunDirectory | Some d \<Rightarrow> Inr (path_join d ''idle.json''))"

subsection \<open>Commands\<close>

definition require_status :: "task_run \<Rightarrow> run_status list \<Rightarrow> string \<Rightarrow> unit checked" where
  "require_status r allowed operation =
     require (run_status r \<in> set allowed) (RunTransitionNotAllowed (run_status r) operation)"

definition UNFINISHED :: "run_status list" where
  "UNFINISHED = [Claimed, Starting, Running, Validating, Integrating]"

definition start_provisioning :: "task_run \<Rightarrow> run_plan \<Rightarrow> task_run checked" where
  "start_provisioning r plan =
     and_then (require_status r [Claimed] ''provision'') (\<lambda>_.
     Inr (r\<lparr>run_status := Starting, run_repo_path := Some (plan_repo_path plan),
            run_dir := Some (plan_run_dir plan), run_branch := Some (plan_branch plan),
            run_worktree_path := Some (plan_worktree_path plan),
            run_receipt_path := Some (plan_receipt_path plan),
            run_log_path := Some (plan_log_path plan)\<rparr>))"

definition attach_workspace :: "task_run \<Rightarrow> string \<Rightarrow> task_run checked" where
  "attach_workspace r workspace =
     and_then (require_status r [Starting] ''attach a workspace to'') (\<lambda>_.
     and_then (require (run_workspace_id r = None)
                 (RunTransitionNotAllowed (run_status r) ''attach a second workspace to'')) (\<lambda>_.
     Inr (r\<lparr>run_workspace_id := Some workspace\<rparr>)))"

definition check_ready_for_wrapper :: "task_run \<Rightarrow> unit checked" where
  "check_ready_for_wrapper r =
     and_then (require_status r [Starting] ''start the wrapper of'') (\<lambda>_.
     require (run_workspace_id r \<noteq> None)
       (RunTransitionNotAllowed (run_status r) ''start the wrapper without a workspace of''))"

definition mark_running :: "task_run \<Rightarrow> task_run checked" where
  "mark_running r =
     and_then (require_status r [Starting] ''mark running'') (\<lambda>_. Inr (r\<lparr>run_status := Running\<rparr>))"

definition finish_session :: "task_run \<Rightarrow> int option \<Rightarrow> task_run checked" where
  "finish_session r exit_code =
     and_then (require_status r [Starting, Running] ''finish the session of'') (\<lambda>_.
     Inr (case exit_code of
            Some code \<Rightarrow>
              (if code \<noteq> 0
               then r\<lparr>run_status := Failed,
                      run_last_error := Some (''session exited with code '' @ show_int code)\<rparr>
               else r\<lparr>run_status := Validating\<rparr>)
          | None \<Rightarrow> r\<lparr>run_status := Validating\<rparr>))"

definition accept :: "task_run \<Rightarrow> commit_sha \<Rightarrow> task_run checked" where
  "accept r result_commit =
     and_then (require_status r [Validating] ''accept'') (\<lambda>_.
     Inr (r\<lparr>run_status := AwaitingIntegration, run_result_commit := Some result_commit\<rparr>))"

definition reject :: "task_run \<Rightarrow> commit_sha option \<Rightarrow> string option \<Rightarrow> bool \<Rightarrow> task_run checked" where
  "reject r result_commit reason resumable =
     and_then (require_status r [Validating] ''reject'') (\<lambda>_.
     Inr (r\<lparr>run_status := (if resumable then NeedsSession else Failed),
            run_result_commit := result_commit,
            run_last_error := (if reason \<noteq> None then reason else run_last_error r)\<rparr>))"

definition restart_validation :: "task_run \<Rightarrow> task_run checked" where
  "restart_validation r =
     and_then (require_status r [AwaitingIntegration] ''validate again'') (\<lambda>_.
     Inr (r\<lparr>run_status := Validating\<rparr>))"

definition decide_landing :: "task_run \<Rightarrow> run_status \<Rightarrow> string \<Rightarrow> task_run checked" where
  "decide_landing r to reason =
     and_then (require_status r [AwaitingIntegration] ''decide the landing of'') (\<lambda>_.
     and_then (require (to = NeedsSession \<or> to = Failed)
                 (RunTransitionNotAllowed (run_status r)
                    ''decide a landing other than a send-back or a cancel for'')) (\<lambda>_.
     Inr (r\<lparr>run_status := to, run_last_error := Some reason\<rparr>)))"

definition park_after_recheck :: "task_run \<Rightarrow> string \<Rightarrow> task_run checked" where
  "park_after_recheck r reason =
     and_then (require_status r [AwaitingIntegration] ''park after a landing recheck'') (\<lambda>_.
     Inr (r\<lparr>run_status := NeedsSession, run_last_error := Some reason\<rparr>))"

definition abandon :: "task_run \<Rightarrow> string \<Rightarrow> task_run checked" where
  "abandon r message = Inr (r\<lparr>run_last_error := Some message\<rparr>)"

definition interrupt :: "task_run \<Rightarrow> task_run checked" where
  "interrupt r =
     (if run_status r = AwaitingIntegration then Inr r
      else and_then (require_status r UNFINISHED ''recover'') (\<lambda>_.
           Inr (r\<lparr>run_status := (if run_status r = Integrating then AwaitingIntegration
                                 else Interrupted)\<rparr>)))"

definition begin_integration :: "task_run \<Rightarrow> task_run checked" where
  "begin_integration r =
     and_then (require_status r [AwaitingIntegration, NeedsSession] ''integrate'') (\<lambda>_.
     Inr (r\<lparr>run_status := Integrating\<rparr>))"

definition leave_integration :: "task_run \<Rightarrow> run_status \<Rightarrow> string \<Rightarrow> string \<Rightarrow> task_run checked" where
  "leave_integration r to reason operation =
     and_then (require_status r [Integrating] operation) (\<lambda>_.
     Inr (r\<lparr>run_status := to, run_last_error := Some reason\<rparr>))"

definition defer_integration :: "task_run \<Rightarrow> string \<Rightarrow> task_run checked" where
  "defer_integration r reason = leave_integration r NeedsSession reason ''defer the integration of''"

definition fail_integration :: "task_run \<Rightarrow> string \<Rightarrow> task_run checked" where
  "fail_integration r reason = leave_integration r Failed reason ''fail the integration of''"

definition abort_integration :: "task_run \<Rightarrow> run_status \<Rightarrow> string \<Rightarrow> task_run checked" where
  "abort_integration r revert_to message =
     and_then (require (revert_to = AwaitingIntegration \<or> revert_to = NeedsSession)
                 (RunTransitionNotAllowed (run_status r)
                    ''return to a status it could not have integrated from'')) (\<lambda>_.
     leave_integration r revert_to message ''abort the integration of'')"

definition finish_integration :: "task_run \<Rightarrow> commit_sha \<Rightarrow> task_run checked" where
  "finish_integration r commit =
     and_then (require_status r [Integrating] ''finish the integration of'') (\<lambda>_.
     Inr (r\<lparr>run_status := Integrated, run_result_commit := Some commit, run_last_error := None\<rparr>))"

definition check_resumable :: "task_run \<Rightarrow> unit checked" where
  "check_resumable r = require_status r [NeedsSession] ''resume''"

definition skip_resume :: "task_run \<Rightarrow> bool \<Rightarrow> task_run checked" where
  "skip_resume r approved =
     and_then (check_resumable r) (\<lambda>_.
     Inr (if \<not> approved then r\<lparr>run_status := Validating\<rparr> else r))"

definition finish_resume :: "task_run \<Rightarrow> run_status \<Rightarrow> string option \<Rightarrow> task_run checked" where
  "finish_resume r to reason =
     and_then (require_status r [NeedsSession] ''finish the resume of'') (\<lambda>_.
     and_then (require (to \<in> {Validating, AwaitingIntegration, Failed})
                 (RunTransitionNotAllowed (run_status r)
                    ''end a resume in a status a session cannot reach for'')) (\<lambda>_.
     Inr (r\<lparr>run_status := to,
            run_last_error := (if reason \<noteq> None then reason else run_last_error r)\<rparr>)))"

definition exhaust_resumes :: "task_run \<Rightarrow> string \<Rightarrow> task_run checked" where
  "exhaust_resumes r reason =
     and_then (check_resumable r) (\<lambda>_.
     Inr (r\<lparr>run_status := Failed, run_last_error := Some reason\<rparr>))"

definition check_triageable :: "task_run \<Rightarrow> unit checked" where
  "check_triageable r = require_status r [Failed, Interrupted] ''triage''"

definition resume_after_triage :: "task_run \<Rightarrow> string \<Rightarrow> task_run checked" where
  "resume_after_triage r instruction =
     and_then (check_triageable r) (\<lambda>_.
     Inr (r\<lparr>run_status := NeedsSession, run_last_error := Some instruction\<rparr>))"

definition require_open_workspace_at_rest :: "task_run \<Rightarrow> string \<Rightarrow> unit checked" where
  "require_open_workspace_at_rest r operation =
     and_then (require_status r [AwaitingIntegration, NeedsSession] operation) (\<lambda>_.
     require (run_workspace_closed_at r = None) (RunTransitionNotAllowed (run_status r) operation))"

definition workspace_closed :: "task_run \<Rightarrow> int \<Rightarrow> task_run checked" where
  "workspace_closed r closed_at =
     and_then (require_open_workspace_at_rest r ''close the workspace of'') (\<lambda>_.
     and_then (require (run_workspace_id r \<noteq> None)
                 (RunTransitionNotAllowed (run_status r) ''close the workspace it never had of'')) (\<lambda>_.
     Inr (r\<lparr>run_workspace_closed_at := Some closed_at\<rparr>)))"

definition record_closed_workspace :: "task_run \<Rightarrow> string \<Rightarrow> int \<Rightarrow> task_run checked" where
  "record_closed_workspace r workspace closed_at =
     Inr (if run_workspace_id r = Some workspace \<and> run_workspace_closed_at r = None
          then r\<lparr>run_workspace_closed_at := Some closed_at\<rparr> else r)"

definition record_close_failure :: "task_run \<Rightarrow> string \<Rightarrow> task_run checked" where
  "record_close_failure r message =
     and_then (require_open_workspace_at_rest r ''record a failed close of the workspace of'') (\<lambda>_.
     Inr (r\<lparr>run_last_error := Some message\<rparr>))"

definition record_cleanup_failure :: "task_run \<Rightarrow> string \<Rightarrow> task_run checked" where
  "record_cleanup_failure r message = Inr (r\<lparr>run_last_error := Some message\<rparr>)"

lemmas run_command_defs =
  start_provisioning_def attach_workspace_def mark_running_def finish_session_def accept_def
  reject_def restart_validation_def decide_landing_def park_after_recheck_def abandon_def
  interrupt_def begin_integration_def leave_integration_def defer_integration_def
  fail_integration_def abort_integration_def finish_integration_def check_resumable_def
  skip_resume_def finish_resume_def exhaust_resumes_def check_triageable_def
  resume_after_triage_def require_open_workspace_at_rest_def workspace_closed_def
  record_closed_workspace_def record_close_failure_def record_cleanup_failure_def
  require_status_def UNFINISHED_def

subsection \<open>The workspaces a run opened\<close>

record run_workspace =
  rw_workspace_id :: string
  rw_resume_attempt :: "nat option"
  rw_closed :: bool

definition position :: "('a \<Rightarrow> bool) \<Rightarrow> 'a list \<Rightarrow> nat option" where
  "position p xs = map_option fst (find (\<lambda>(i, x). p x) (enumerate 0 xs))"

definition workspace_step :: "run_event \<Rightarrow> run_workspace list \<Rightarrow> run_workspace list" where
  "workspace_step event ws =
     (case Option.bind (json_get ''workspace_id'' (ev_payload event)) as_str of
        None \<Rightarrow> ws
      | Some workspace \<Rightarrow>
          (let known = position (\<lambda>w. rw_workspace_id w = workspace) ws
           in if ev_kind event = ''workspace_created'' \<or> ev_kind event = ''resume_finished''
              then (let closed = (ev_kind event = ''resume_finished''
                                  \<and> json_index (ev_payload event) ''workspace_closed'' = JBool True)
                    in case known of
                         Some index \<Rightarrow> ws[index := (ws ! index)\<lparr>rw_closed := rw_closed (ws ! index) \<or> closed\<rparr>]
                       | None \<Rightarrow>
                           ws @ [\<lparr>rw_workspace_id = workspace,
                                  rw_resume_attempt =
                                    Option.bind
                                      (case json_get ''resume_attempt'' (ev_payload event) of
                                         Some a \<Rightarrow> Some a
                                       | None \<Rightarrow> json_get ''attempt'' (ev_payload event)) as_u64,
                                  rw_closed = closed\<rparr>])
              else if ev_kind event = ''workspace_closed''
              then (case known of
                      Some index \<Rightarrow> ws[index := (ws ! index)\<lparr>rw_closed := True\<rparr>]
                    | None \<Rightarrow> ws)
              else ws))"

definition run_workspaces :: "task_run \<Rightarrow> run_event list \<Rightarrow> run_workspace list" where
  "run_workspaces r events =
     fold workspace_step events
       (case run_workspace_id r of
          None \<Rightarrow> []
        | Some workspace \<Rightarrow>
            [\<lparr>rw_workspace_id = workspace, rw_resume_attempt = None,
              rw_closed = (run_workspace_closed_at r \<noteq> None)\<rparr>])"

subsection \<open>The commands together\<close>

datatype run_cmd =
    RStartProvisioning run_plan | RAttachWorkspace string | RMarkRunning | RFinishSession "int option"
  | RAccept commit_sha | RReject "commit_sha option" "string option" bool | RRestartValidation
  | RDecideLanding run_status string | RParkAfterRecheck string | RAbandon string | RInterrupt
  | RBeginIntegration | RDeferIntegration string | RFailIntegration string
  | RAbortIntegration run_status string | RFinishIntegration commit_sha
  | RSkipResume bool | RFinishResume run_status "string option" | RExhaustResumes string
  | RResumeAfterTriage string | RWorkspaceClosed int | RRecordClosedWorkspace string int
  | RRecordCloseFailure string | RRecordCleanupFailure string

fun run_exec :: "run_cmd \<Rightarrow> task_run \<Rightarrow> task_run checked" where
  "run_exec (RStartProvisioning plan) r = start_provisioning r plan"
| "run_exec (RAttachWorkspace w) r = attach_workspace r w"
| "run_exec RMarkRunning r = mark_running r"
| "run_exec (RFinishSession code) r = finish_session r code"
| "run_exec (RAccept commit) r = accept r commit"
| "run_exec (RReject commit reason resumable) r = reject r commit reason resumable"
| "run_exec RRestartValidation r = restart_validation r"
| "run_exec (RDecideLanding to reason) r = decide_landing r to reason"
| "run_exec (RParkAfterRecheck reason) r = park_after_recheck r reason"
| "run_exec (RAbandon message) r = abandon r message"
| "run_exec RInterrupt r = interrupt r"
| "run_exec RBeginIntegration r = begin_integration r"
| "run_exec (RDeferIntegration reason) r = defer_integration r reason"
| "run_exec (RFailIntegration reason) r = fail_integration r reason"
| "run_exec (RAbortIntegration to message) r = abort_integration r to message"
| "run_exec (RFinishIntegration commit) r = finish_integration r commit"
| "run_exec (RSkipResume approved) r = skip_resume r approved"
| "run_exec (RFinishResume to reason) r = finish_resume r to reason"
| "run_exec (RExhaustResumes reason) r = exhaust_resumes r reason"
| "run_exec (RResumeAfterTriage instruction) r = resume_after_triage r instruction"
| "run_exec (RWorkspaceClosed closed_at) r = workspace_closed r closed_at"
| "run_exec (RRecordClosedWorkspace w closed_at) r = record_closed_workspace r w closed_at"
| "run_exec (RRecordCloseFailure message) r = record_close_failure r message"
| "run_exec (RRecordCleanupFailure message) r = record_cleanup_failure r message"

text \<open>
  The table of the domain model: the statuses a command is allowed in and, for the rest of its
  guard, the condition on its arguments and the workspace; and the status it leads to.
\<close>

fun run_allowed :: "run_cmd \<Rightarrow> task_run \<Rightarrow> bool" where
  "run_allowed (RStartProvisioning _) r = (run_status r = Claimed)"
| "run_allowed (RAttachWorkspace _) r = (run_status r = Starting \<and> run_workspace_id r = None)"
| "run_allowed RMarkRunning r = (run_status r = Starting)"
| "run_allowed (RFinishSession _) r = (run_status r \<in> {Starting, Running})"
| "run_allowed (RAccept _) r = (run_status r = Validating)"
| "run_allowed (RReject _ _ _) r = (run_status r = Validating)"
| "run_allowed RRestartValidation r = (run_status r = AwaitingIntegration)"
| "run_allowed (RDecideLanding to _) r =
     (run_status r = AwaitingIntegration \<and> to \<in> {NeedsSession, Failed})"
| "run_allowed (RParkAfterRecheck _) r = (run_status r = AwaitingIntegration)"
| "run_allowed RInterrupt r =
     (run_status r \<in> {Claimed, Starting, Running, Validating, Integrating, AwaitingIntegration})"
| "run_allowed RBeginIntegration r = (run_status r \<in> {AwaitingIntegration, NeedsSession})"
| "run_allowed (RDeferIntegration _) r = (run_status r = Integrating)"
| "run_allowed (RFailIntegration _) r = (run_status r = Integrating)"
| "run_allowed (RAbortIntegration to _) r =
     (run_status r = Integrating \<and> to \<in> {AwaitingIntegration, NeedsSession})"
| "run_allowed (RFinishIntegration _) r = (run_status r = Integrating)"
| "run_allowed (RSkipResume _) r = (run_status r = NeedsSession)"
| "run_allowed (RFinishResume to _) r =
     (run_status r = NeedsSession \<and> to \<in> {Validating, AwaitingIntegration, Failed})"
| "run_allowed (RExhaustResumes _) r = (run_status r = NeedsSession)"
| "run_allowed (RResumeAfterTriage _) r = (run_status r \<in> {Failed, Interrupted})"
| "run_allowed (RWorkspaceClosed _) r =
     (run_status r \<in> {AwaitingIntegration, NeedsSession} \<and> run_workspace_closed_at r = None
      \<and> run_workspace_id r \<noteq> None)"
| "run_allowed (RRecordCloseFailure _) r =
     (run_status r \<in> {AwaitingIntegration, NeedsSession} \<and> run_workspace_closed_at r = None)"
| "run_allowed _ r = True"

fun run_target :: "run_cmd \<Rightarrow> run_status \<Rightarrow> run_status" where
  "run_target (RStartProvisioning _) s = Starting"
| "run_target RMarkRunning s = Running"
| "run_target (RFinishSession code) s = (if code = None \<or> code = Some 0 then Validating else Failed)"
| "run_target (RAccept _) s = AwaitingIntegration"
| "run_target (RReject _ _ resumable) s = (if resumable then NeedsSession else Failed)"
| "run_target RRestartValidation s = Validating"
| "run_target (RDecideLanding to _) s = to"
| "run_target (RParkAfterRecheck _) s = NeedsSession"
| "run_target RInterrupt s =
     (if s \<in> {AwaitingIntegration, Integrating} then AwaitingIntegration else Interrupted)"
| "run_target RBeginIntegration s = Integrating"
| "run_target (RDeferIntegration _) s = NeedsSession"
| "run_target (RFailIntegration _) s = Failed"
| "run_target (RAbortIntegration to _) s = to"
| "run_target (RFinishIntegration _) s = Integrated"
| "run_target (RSkipResume approved) s = (if approved then NeedsSession else Validating)"
| "run_target (RFinishResume to _) s = to"
| "run_target (RExhaustResumes _) s = Failed"
| "run_target (RResumeAfterTriage _) s = NeedsSession"
| "run_target _ s = s"

text \<open>The arrows of the documented state diagram.\<close>

fun run_edge :: "run_status \<Rightarrow> run_status \<Rightarrow> bool" where
  "run_edge Claimed s = (s \<in> {Starting, Interrupted})"
| "run_edge Starting s = (s \<in> {Running, Validating, Failed, Interrupted})"
| "run_edge Running s = (s \<in> {Validating, Failed, Interrupted})"
| "run_edge Validating s = (s \<in> {AwaitingIntegration, Failed, NeedsSession, Interrupted})"
| "run_edge AwaitingIntegration s = (s \<in> {Validating, NeedsSession, Failed, Integrating})"
| "run_edge Integrating s = (s \<in> {Integrated, NeedsSession, Failed, AwaitingIntegration})"
| "run_edge NeedsSession s = (s \<in> {Integrating, Validating, AwaitingIntegration, Failed})"
| "run_edge Failed s = (s = NeedsSession)"
| "run_edge Interrupted s = (s = NeedsSession)"
| "run_edge Integrated s = False"
| "run_edge Succeeded s = False"

lemma run_exec_allowed: "is_ok (run_exec c r) \<longleftrightarrow> run_allowed c r"
  by (cases c) (auto simp: run_command_defs)

lemma run_exec_target: "run_exec c r = Inr r' \<Longrightarrow> run_status r' = run_target c (run_status r)"
  by (cases c) (auto simp: run_command_defs split: if_splits option.splits)

lemma run_exec_refusal:
  "run_exec c r = Inl e \<Longrightarrow> \<exists>operation. e = RunTransitionNotAllowed (run_status r) operation"
  by (cases c) (auto simp: run_command_defs and_then_Inl split: if_splits)

lemma run_target_edge: "run_allowed c r \<Longrightarrow> run_target c (run_status r) = run_status r
   \<or> run_edge (run_status r) (run_target c (run_status r))"
  by (cases c; cases "run_status r") auto

definition run_key :: "task_run \<Rightarrow> run_id \<times> task_id \<times> provider \<times> provider \<times> commit_sha \<times> string" where
  "run_key r = (run_id r, run_task_id r, run_requested_provider r, run_actual_provider r,
                run_base_commit r, run_created_at r)"

text \<open>
  What a new run satisfies and every command keeps: an integrated run names its landed commit, a
  claimed run has nothing yet, the provisioned paths come together, and only a workspace that was
  attached has a close time.
\<close>

definition planned_together :: "task_run \<Rightarrow> bool" where
  "planned_together r \<longleftrightarrow>
     (\<forall>x \<in> {run_worktree_path r, run_branch r, run_receipt_path r, run_log_path r, run_repo_path r}.
        x = None \<longleftrightarrow> run_dir r = None)"

lemma planned_together_simps [simp]:
  "planned_together (r\<lparr>run_status := s\<rparr>) = planned_together r"
  "planned_together (r\<lparr>run_last_error := e\<rparr>) = planned_together r"
  "planned_together (r\<lparr>run_workspace_id := w\<rparr>) = planned_together r"
  "planned_together (r\<lparr>run_result_commit := commit\<rparr>) = planned_together r"
  "planned_together (r\<lparr>run_workspace_closed_at := c\<rparr>) = planned_together r"
  "planned_together (r\<lparr>run_status := s, run_repo_path := Some p1, run_dir := Some p2,
     run_branch := Some p3, run_worktree_path := Some p4, run_receipt_path := Some p5,
     run_log_path := Some p6\<rparr>)"
  by (simp_all add: planned_together_def)

definition run_ok :: "task_run \<Rightarrow> bool" where
  "run_ok r \<longleftrightarrow>
     (run_status r = Integrated \<longrightarrow> run_result_commit r \<noteq> None)
     \<and> (run_status r = Claimed \<longrightarrow> run_dir r = None \<and> run_workspace_id r = None \<and> run_result_commit r = None)
     \<and> (run_workspace_closed_at r \<noteq> None \<longrightarrow> run_workspace_id r \<noteq> None)
     \<and> planned_together r"

lemma run_exec_key: "run_exec c r = Inr r' \<Longrightarrow> run_key r' = run_key r"
  by (cases c) (auto simp: run_command_defs run_key_def split: if_splits option.splits)

lemma run_exec_ok: "run_ok r \<Longrightarrow> run_exec c r = Inr r' \<Longrightarrow> run_ok r'"
  by (cases c; clarsimp simp: run_command_defs split: if_splits option.splits)
     (auto simp: run_ok_def)

lemma run_exec_edge:
  "run_exec c r = Inr r' \<Longrightarrow> run_status r' = run_status r \<or> run_edge (run_status r) (run_status r')"
  using run_target_edge [of c r] run_exec_allowed [of c r] run_exec_target [of c r r'] by simp

interpretation run_life: lifecycle run_exec run_key run_ok run_status run_edge
proof unfold_locales
qed (fact run_exec_key run_exec_ok run_exec_edge)+

text \<open>What is written once: the provisioned paths, the workspace and its close time.\<close>

definition keeps :: "'a option \<Rightarrow> 'a option \<Rightarrow> bool" where
  "keeps x y \<longleftrightarrow> x = None \<or> y = x"

lemma run_exec_once:
  assumes "run_exec c r = Inr r'"
  shows "keeps (run_workspace_id r) (run_workspace_id r')"
    and "keeps (run_workspace_closed_at r) (run_workspace_closed_at r')"
    and "run_status r = Claimed \<or> run_dir r' = run_dir r \<and> run_worktree_path r' = run_worktree_path r
         \<and> run_receipt_path r' = run_receipt_path r \<and> run_branch r' = run_branch r"
  using assms
  by (cases c; auto simp: run_command_defs keeps_def split: if_splits option.splits)+

lemma run_exec_integrated:
  assumes "run_exec c r = Inr r'" and "run_status r = Integrated"
  shows "run_status r' = Integrated" "run_result_commit r' = run_result_commit r"
  using assms by (cases c; auto simp: run_command_defs split: if_splits option.splits)+

lemma run_all_integrated:
  "exec_all run_exec cs r = Inr r' \<Longrightarrow> run_status r = Integrated \<Longrightarrow>
   run_status r' = Integrated \<and> run_result_commit r' = run_result_commit r"
proof (induction cs arbitrary: r)
  case (Cons c cs)
  from Cons.prems obtain s where s: "run_exec c r = Inr s" "exec_all run_exec cs s = Inr r'" by auto
  from Cons.IH [OF s(2)] run_exec_integrated [OF s(1)] Cons.prems(2) show ?case by simp
qed simp

lemma run_all_once:
  assumes "exec_all run_exec cs r = Inr r'"
  shows "keeps (run_workspace_id r) (run_workspace_id r')
    \<and> keeps (run_workspace_closed_at r) (run_workspace_closed_at r')"
  using assms
proof (induction cs arbitrary: r)
  case (Cons c cs)
  from Cons.prems obtain s where s: "run_exec c r = Inr s" "exec_all run_exec cs s = Inr r'" by auto
  from Cons.IH [OF s(2)] run_exec_once [OF s(1)] show ?case by (auto simp: keeps_def)
qed (simp add: keeps_def)

text \<open>Integration is entered through the slot only.\<close>

lemma run_integrated_by:
  "exec_all run_exec cs r = Inr r' \<Longrightarrow> run_status r' = Integrated \<Longrightarrow> run_status r \<noteq> Integrated \<Longrightarrow>
   \<exists>commit. RFinishIntegration commit \<in> set cs \<and> run_result_commit r' = Some commit"
proof (induction cs arbitrary: r)
  case (Cons c cs)
  from Cons.prems obtain s where s: "run_exec c r = Inr s" "exec_all run_exec cs s = Inr r'" by auto
  show ?case
  proof (cases "run_status s = Integrated")
    case True
    with s(1) Cons.prems(3) obtain commit where "c = RFinishIntegration commit"
      "run_result_commit s = Some commit"
      by (cases c) (auto simp: run_command_defs split: if_splits option.splits)
    with run_all_integrated [OF s(2) True] show ?thesis by auto
  next
    case False
    from Cons.IH [OF s(2) Cons.prems(2) this] show ?thesis by auto
  qed
qed simp

lemma run_integrating_by:
  "exec_all run_exec cs r = Inr r' \<Longrightarrow> run_status r' \<in> {Integrating, Integrated} \<Longrightarrow>
   run_status r \<notin> {Integrating, Integrated} \<Longrightarrow> RBeginIntegration \<in> set cs"
proof (induction cs arbitrary: r)
  case (Cons c cs)
  from Cons.prems obtain s where s: "run_exec c r = Inr s" "exec_all run_exec cs s = Inr r'" by auto
  show ?case
  proof (cases "run_status s \<in> {Integrating, Integrated}")
    case True
    with s(1) Cons.prems(3) have "c = RBeginIntegration"
      by (cases c) (auto simp: run_command_defs split: if_splits option.splits)
    then show ?thesis by simp
  next
    case False
    from Cons.IH [OF s(2) Cons.prems(2) this] show ?thesis by auto
  qed
qed simp

subsection \<open>The workspaces of a run\<close>

definition names :: "run_workspace list \<Rightarrow> string list" where
  "names ws = map rw_workspace_id ws"

definition event_workspace :: "run_event \<Rightarrow> string option" where
  "event_workspace event = Option.bind (json_get ''workspace_id'' (ev_payload event)) as_str"

definition opens_workspace :: "run_event \<Rightarrow> bool" where
  "opens_workspace event \<longleftrightarrow> ev_kind event = ''workspace_created'' \<or> ev_kind event = ''resume_finished''"

definition closes_workspace :: "run_event \<Rightarrow> bool" where
  "closes_workspace event \<longleftrightarrow>
     ev_kind event = ''workspace_closed''
     \<or> ev_kind event = ''resume_finished'' \<and> json_index (ev_payload event) ''workspace_closed'' = JBool True"

lemma position_None: "position p xs = None \<longleftrightarrow> (\<forall>x \<in> set xs. \<not> p x)"
proof -
  have "find (\<lambda>(i, x). p x) (enumerate n xs) = None \<longleftrightarrow> (\<forall>x \<in> set xs. \<not> p x)" for n
    by (induction xs arbitrary: n) auto
  then show ?thesis by (simp add: position_def)
qed

lemma position_Some: "position p xs = Some i \<Longrightarrow> i < length xs \<and> p (xs ! i)"
proof -
  have "find (\<lambda>(i, x). p x) (enumerate n xs) = Some (i, x) \<Longrightarrow>
    n \<le> i \<and> i - n < length xs \<and> xs ! (i - n) = x \<and> p x" for n x
  proof (induction xs arbitrary: n)
    case (Cons a xs)
    show ?case
    proof (cases "p a")
      case False
      with Cons.prems have "find (\<lambda>(i, x). p x) (enumerate (Suc n) xs) = Some (i, x)" by simp
      from Cons.IH [OF this] show ?thesis by (auto simp: nth_Cons' diff_Suc split: nat.splits)
    qed (use Cons.prems in auto)
  qed simp
  from this [of 0] show "position p xs = Some i \<Longrightarrow> ?thesis" by (auto simp: position_def)
qed

text \<open>What one event does to the names and to the close mark of a workspace.\<close>

lemma names_step:
  "names (workspace_step event ws) =
     (case event_workspace event of
        Some w \<Rightarrow> if opens_workspace event \<and> w \<notin> set (names ws) then names ws @ [w] else names ws
      | None \<Rightarrow> names ws)"
proof (cases "event_workspace event")
  case None
  then show ?thesis by (simp add: workspace_step_def event_workspace_def)
next
  case (Some w)
  have known: "names (ws[i := (ws ! i)\<lparr>rw_closed := b\<rparr>]) = names ws" for i b
    by (cases "i < length ws") (auto simp: names_def map_update intro: nth_equalityI simp: nth_list_update)
  show ?thesis
  proof (cases "position (\<lambda>x. rw_workspace_id x = w) ws")
    case None
    then have "w \<notin> set (names ws)" by (auto simp: position_None names_def)
    with None Some show ?thesis
      by (simp add: workspace_step_def event_workspace_def opens_workspace_def names_def Let_def)
  next
    case (Some i)
    then have "i < length ws" "rw_workspace_id (ws ! i) = w" using position_Some by fastforce+
    then have "w \<in> set (names ws)" by (auto simp: names_def)
    with Some \<open>event_workspace event = Some w\<close> show ?thesis
      by (simp add: workspace_step_def event_workspace_def opens_workspace_def Let_def known)
  qed
qed

lemma closed_step:
  assumes "x \<in> set ws" and "rw_closed x"
  shows "\<exists>y \<in> set (workspace_step event ws). rw_workspace_id y = rw_workspace_id x \<and> rw_closed y"
proof -
  from assms(1) obtain k where k: "k < length ws" "ws ! k = x" by (auto simp: in_set_conv_nth)
  have upd: "\<exists>y \<in> set (ws[i := (ws ! i)\<lparr>rw_closed := b i\<rparr>]). rw_workspace_id y = rw_workspace_id x \<and> rw_closed y"
    if "b k" for i b
  proof (rule bexI [of _ "ws[i := (ws ! i)\<lparr>rw_closed := b i\<rparr>] ! k"])
    show "rw_workspace_id (ws[i := (ws ! i)\<lparr>rw_closed := b i\<rparr>] ! k) = rw_workspace_id x
      \<and> rw_closed (ws[i := (ws ! i)\<lparr>rw_closed := b i\<rparr>] ! k)"
      using k assms(2) that by (cases "i = k") auto
  qed (simp add: k)
  show ?thesis
    using assms k upd [of "\<lambda>_. True"] upd [of "\<lambda>i. rw_closed (ws ! i) \<or> d" for d]
    by (auto simp: workspace_step_def Let_def split: option.splits)
qed

lemma distinct_names_step: "distinct (names ws) \<Longrightarrow> distinct (names (workspace_step event ws))"
  by (simp add: names_step split: option.splits)

lemma set_names_step:
  "set (names (workspace_step event ws)) = set (names ws)
     \<union> (if opens_workspace event then set_option (event_workspace event) else {})"
  by (auto simp: names_step split: option.splits)

lemma names_fold:
  "distinct (names ws) \<Longrightarrow> distinct (names (fold workspace_step events ws))
   \<and> set (names (fold workspace_step events ws)) = set (names ws)
       \<union> {w. \<exists>e \<in> set events. opens_workspace e \<and> event_workspace e = Some w}"
proof (induction events arbitrary: ws)
  case (Cons e events)
  from Cons.IH [OF distinct_names_step [OF Cons.prems, of e]] show ?case
    by (auto simp: set_names_step)
qed simp

lemma closed_fold:
  "x \<in> set ws \<Longrightarrow> rw_closed x \<Longrightarrow>
   \<exists>y \<in> set (fold workspace_step events ws). rw_workspace_id y = rw_workspace_id x \<and> rw_closed y"
proof (induction events arbitrary: ws x)
  case (Cons e events)
  from closed_step [OF Cons.prems, of e] obtain y where
    "y \<in> set (workspace_step e ws)" "rw_workspace_id y = rw_workspace_id x" "rw_closed y" by blast
  from Cons.IH [OF this(1,3)] this(2) show ?case by simp
qed auto

lemma run_workspaces_append:
  "run_workspaces r (events @ later) = fold workspace_step later (run_workspaces r events)"
  by (simp add: run_workspaces_def)

subsection \<open>Properties\<close>


definition sample_run :: task_run where
  "sample_run =
     \<lparr>run_id = ''r'', run_task_id = 1, run_status = Claimed, run_requested_provider = Claude,
      run_actual_provider = Claude, run_base_commit = ''c'', run_branch = None,
      run_worktree_path = None, run_workspace_id = None, run_receipt_path = None,
      run_log_path = None, run_result_commit = None, run_repo_path = None, run_dir = None,
      run_last_error = None, run_workspace_closed_at = None, run_created_at = ''now''\<rparr>"


text \<open>
  C6: a new run is claimed for a task in progress only, and it lands only through the integration
  slot: every sequence of commands that takes it to integrated began an integration and finished
  one with the commit it names; from then on no command changes its status or that commit, and no
  run ever gets the retired status succeeded.
\<close>

theorem run_lands_once:
  assumes "TaskRun_new i t base p claimed_at = Inr r" and "exec_all run_exec cs r = Inr r'"
  shows "task_status t = InProgress \<and> run_ok r' \<and> run_status r' \<noteq> Succeeded
    \<and> (run_status r' = Integrated \<longrightarrow>
         RBeginIntegration \<in> set cs
         \<and> (\<exists>commit. RFinishIntegration commit \<in> set cs \<and> run_result_commit r' = Some commit)
         \<and> (\<forall>ds r''. exec_all run_exec ds r' = Inr r'' \<longrightarrow>
              run_status r'' = Integrated \<and> run_result_commit r'' = run_result_commit r'))"
proof -
  from assms(1) have t: "task_status t = InProgress" and c: "run_status r = Claimed" and ok: "run_ok r"
    by (auto simp: TaskRun_new_def run_ok_def planned_together_def)
  have "run_status r' \<in> - {Succeeded}"
    by (rule run_life.exec_all_closed [OF _ _ assms(2)]) (use c in \<open>auto elim: run_edge.elims\<close>)
  moreover have "RBeginIntegration \<in> set cs
      \<and> (\<exists>commit. RFinishIntegration commit \<in> set cs \<and> run_result_commit r' = Some commit)"
    if "run_status r' = Integrated"
    using run_integrating_by [OF assms(2)] run_integrated_by [OF assms(2)] that c by simp
  ultimately show ?thesis
    using t run_life.exec_all_inv [OF ok assms(2)] run_all_integrated by blast
qed

definition sample_landing :: "run_cmd list" where
  "sample_landing =
     [RStartProvisioning \<lparr>plan_repo_path = ''/repo'', plan_run_dir = ''/runs/r'', plan_branch = ''dagq/r'',
        plan_worktree_path = ''/runs/r/worktree'', plan_receipt_path = ''/runs/r/receipt.json'',
        plan_log_path = ''/runs/r/claude.debug.log''\<rparr>,
      RMarkRunning, RFinishSession None, RAccept ''b'', RBeginIntegration, RFinishIntegration ''b'']"

theorem run_lands_once_witness:
  "\<exists>r r'. TaskRun_new ''r'' (sample_task\<lparr>task_status := InProgress\<rparr>) (replicate 40 CHR ''A'') Claude ''now'' = Inr r
     \<and> exec_all run_exec sample_landing r = Inr r'
     \<and> run_status r' = Integrated \<and> RBeginIntegration \<in> set sample_landing"
proof -
  let ?r = "sample_run\<lparr>run_base_commit := replicate 40 CHR ''a''\<rparr>"
  have "char_of (97 :: nat) = CHR ''a''" by code_simp
  then have new: "TaskRun_new ''r'' (sample_task\<lparr>task_status := InProgress\<rparr>) (replicate 40 CHR ''A'') Claude ''now'' = Inr ?r"
    by (simp add: TaskRun_new_def sample_task_def sample_run_def CommitSha_parse_def
        to_ascii_lowercase_def lower_char_def is_upper_def is_hexdigit_def is_digit_def list_all_iff)
  obtain r' where run: "exec_all run_exec sample_landing ?r = Inr r'" and "run_status r' = Integrated"
    by (simp add: sample_landing_def sample_run_def start_provisioning_def mark_running_def
        finish_session_def accept_def begin_integration_def finish_integration_def require_status_def)
  with run_lands_once [OF new run] new show ?thesis by blast
qed



text \<open>
  C21: the workspaces of a run are its own and those its events opened, each once; a workspace
  recorded as closed stays closed whatever events follow.
\<close>

theorem run_workspaces_spec:
  "distinct (names (run_workspaces r events))
   \<and> set (names (run_workspaces r events)) =
       set_option (run_workspace_id r)
       \<union> {w. \<exists>e \<in> set events. opens_workspace e \<and> event_workspace e = Some w}
   \<and> (\<forall>x later. x \<in> set (run_workspaces r events) \<and> rw_closed x \<longrightarrow>
        (\<exists>y \<in> set (run_workspaces r (events @ later)).
           rw_workspace_id y = rw_workspace_id x \<and> rw_closed y))"
  using names_fold [of "[]" events]
    names_fold [of "[\<lparr>rw_workspace_id = the (run_workspace_id r), rw_resume_attempt = None,
                      rw_closed = (run_workspace_closed_at r \<noteq> None)\<rparr>]" events]
    closed_fold
  by (cases "run_workspace_id r") (auto simp: run_workspaces_def names_def)

theorem run_workspaces_witness:
  "distinct (names (run_workspaces (sample_run\<lparr>run_workspace_id := Some ''ws''\<rparr>) []))"
  using run_workspaces_spec [of "sample_run\<lparr>run_workspace_id := Some ''ws''\<rparr>" "[]"] by blast

end
