(* ===== verification/Proposal_Aggregate.thy ===== *)
theory Proposal_Aggregate
  imports Task_Aggregate "HOL-Library.Product_Lexorder"
begin

text \<open>
  The proposal aggregate (\<^verbatim>\<open>src/src/domain/proposal.rs\<close>) and the pure part of plan review
  (\<^verbatim>\<open>src/src/domain/plan_review.rs\<close>, and the extraction of a JSON object from a job's output in
  \<^verbatim>\<open>mod.rs\<close>): the life of a proposal, who may join it, the order proposals are reviewed in and the
  answers a person gives.
\<close>

subsection \<open>State and inputs\<close>

record planner_owner =
  po_origin :: planner_origin
  po_workspace_id :: "string option"

record submission =
  sub_tasks :: "task_id list"
  sub_goals :: "goal_id list"
  sub_proposal :: "proposal_id option"
  sub_owner :: planner_owner

definition Submission_validate :: "submission \<Rightarrow> unit checked" where
  "Submission_validate s =
     and_then (require (list_all (\<lambda>i. i > 0) (sub_tasks s)) (NonPositiveId ''task ID'')) (\<lambda>_.
     and_then (require (list_all (\<lambda>i. i > 0) (sub_goals s)) (NonPositiveId ''goal ID'')) (\<lambda>_.
     and_then (require (is_none_or (\<lambda>i. i > 0) (sub_proposal s)) (NonPositiveId ''proposal ID'')) (\<lambda>_.
     require (is_none_or (\<lambda>w. \<not> blank w) (po_workspace_id (sub_owner s)))
       (Blank ''planner workspace ID''))))"

record proposal =
  prop_id :: proposal_id
  prop_status :: proposal_status
  prop_owner :: planner_owner
  prop_submitted_at :: string
  prop_revise_count :: nat
  prop_task_ids :: "task_id list"
  prop_goal_ids :: "goal_id list"
  prop_created_at :: string
  prop_updated_at :: string

type_synonym proposal_record = proposal

definition ProposalStatus_is_active :: "proposal_status \<Rightarrow> bool" where
  "ProposalStatus_is_active s = (s \<in> {ProposalSubmitted, Revising})"

definition sorted_ids :: "int list \<Rightarrow> int list" where
  "sorted_ids ids = sort_dedup ids"

definition require_tasks :: "task_id list \<Rightarrow> unit checked" where
  "require_tasks ids = require (ids \<noteq> []) EmptyProposal"

definition require_proposal_status :: "proposal \<Rightarrow> proposal_status \<Rightarrow> unit checked" where
  "require_proposal_status p expected =
     require (prop_status p = expected) (ProposalNotInStatus (prop_id p) (prop_status p) expected)"

subsection \<open>Creation\<close>

definition Proposal_submit ::
  "proposal_id \<Rightarrow> planner_owner \<Rightarrow> task_id list \<Rightarrow> goal_id list \<Rightarrow> string \<Rightarrow> proposal checked" where
  "Proposal_submit i owner tasks goals now =
     and_then (require (i > 0) (NonPositiveId ''proposal ID'')) (\<lambda>_.
     and_then (require_tasks tasks) (\<lambda>_.
     Inr \<lparr>prop_id = i, prop_status = ProposalSubmitted, prop_owner = owner, prop_submitted_at = now,
          prop_revise_count = 0, prop_task_ids = sorted_ids tasks, prop_goal_ids = sorted_ids goals,
          prop_created_at = now, prop_updated_at = now\<rparr>))"

definition Proposal_restore :: "proposal_record \<Rightarrow> proposal checked" where
  "Proposal_restore rcd =
     and_then (require (prop_id rcd > 0) (NonPositiveId ''proposal ID'')) (\<lambda>_.
     Inr (rcd\<lparr>prop_task_ids := sorted_ids (prop_task_ids rcd),
              prop_goal_ids := sorted_ids (prop_goal_ids rcd)\<rparr>))"

subsection \<open>Commands\<close>

definition resubmit ::
  "proposal \<Rightarrow> planner_owner \<Rightarrow> task_id list \<Rightarrow> goal_id list \<Rightarrow> string \<Rightarrow> proposal checked" where
  "resubmit p owner tasks goals now =
     and_then (require_proposal_status p Revising) (\<lambda>_.
     and_then (require_tasks tasks) (\<lambda>_.
     Inr (p\<lparr>prop_status := ProposalSubmitted, prop_owner := owner, prop_task_ids := sorted_ids tasks,
            prop_goal_ids := sorted_ids goals, prop_submitted_at := now, prop_updated_at := now\<rparr>)))"

definition accept_proposal :: "proposal \<Rightarrow> string \<Rightarrow> proposal checked" where
  "accept_proposal p now =
     and_then (require_proposal_status p ProposalSubmitted) (\<lambda>_.
     Inr (p\<lparr>prop_status := Accepted, prop_updated_at := now\<rparr>))"

definition retry_proposal :: "proposal \<Rightarrow> string \<Rightarrow> proposal checked" where
  "retry_proposal p now =
     and_then (require_proposal_status p ProposalSubmitted) (\<lambda>_.
     Inr (p\<lparr>prop_submitted_at := now, prop_updated_at := now\<rparr>))"

definition cancel_proposal :: "proposal \<Rightarrow> string \<Rightarrow> proposal checked" where
  "cancel_proposal p now =
     and_then (require_proposal_status p ProposalSubmitted) (\<lambda>_.
     Inr (p\<lparr>prop_status := ProposalCanceled, prop_updated_at := now\<rparr>))"

definition withdraw_proposal :: "proposal \<Rightarrow> string \<Rightarrow> proposal checked" where
  "withdraw_proposal p now =
     and_then (require (ProposalStatus_is_active (prop_status p))
                 (ProposalNotActive (prop_id p) (prop_status p))) (\<lambda>_.
     Inr (p\<lparr>prop_status := ProposalCanceled, prop_updated_at := now\<rparr>))"

definition reopen_proposal :: "proposal_id \<Rightarrow> task_id list \<Rightarrow> string \<Rightarrow> proposal checked" where
  "reopen_proposal i tasks now =
     and_then (Proposal_submit i \<lparr>po_origin = RuntimeOrigin, po_workspace_id = None\<rparr> tasks [] now) (\<lambda>p.
     Inr (p\<lparr>prop_status := Revising\<rparr>))"

definition send_back_proposal :: "proposal \<Rightarrow> string \<Rightarrow> proposal checked" where
  "send_back_proposal p now =
     and_then (require_proposal_status p ProposalSubmitted) (\<lambda>_.
     Inr (p\<lparr>prop_status := Revising, prop_revise_count := prop_revise_count p + 1,
            prop_updated_at := now\<rparr>))"

definition check_task_joins ::
  "task_id \<Rightarrow> (proposal_id \<times> proposal_status) option \<Rightarrow> proposal_id option \<Rightarrow> unit checked" where
  "check_task_joins i current target =
     (case current of
        Some (p, status) \<Rightarrow>
          (if ProposalStatus_is_active status \<and> Some p \<noteq> target then Inl (TaskInOtherProposal i p)
           else Inr ())
      | None \<Rightarrow> Inr ())"

definition check_goal_joins ::
  "goal_id \<Rightarrow> (proposal_id \<times> proposal_status) option \<Rightarrow> proposal_id option \<Rightarrow> unit checked" where
  "check_goal_joins i current target =
     (case current of
        Some (p, status) \<Rightarrow>
          (if ProposalStatus_is_active status \<and> Some p \<noteq> target then Inl (GoalInOtherProposal i p)
           else Inr ())
      | None \<Rightarrow> Inr ())"

lemmas proposal_command_defs =
  resubmit_def accept_proposal_def retry_proposal_def cancel_proposal_def withdraw_proposal_def
  send_back_proposal_def require_proposal_status_def require_tasks_def ProposalStatus_is_active_def

subsection \<open>Plan review\<close>

datatype plan_review_decision = PlanPass | PlanRevise | PlanConcern

fun PlanReviewDecision_as_str :: "plan_review_decision \<Rightarrow> string" where
  "PlanReviewDecision_as_str PlanPass = ''pass''"
| "PlanReviewDecision_as_str PlanRevise = ''revise''"
| "PlanReviewDecision_as_str PlanConcern = ''concern''"

definition PlanReviewDecision_from_str :: "string \<Rightarrow> plan_review_decision checked" where
  "PlanReviewDecision_from_str =
     parse_enum ''PlanReviewDecision'' PlanReviewDecision_as_str [PlanPass, PlanRevise, PlanConcern]"

interpretation plan_review_decision_enum:
  string_enum PlanReviewDecision_as_str "[PlanPass, PlanRevise, PlanConcern]"
  by unfold_locales (case_tac v, simp_all)

datatype plan_review_action =
    AddDependency task_id task_id
  | LowerPriority task_id priority
  | CancelDuplicate task_id task_id

fun PlanReviewAction_task_id :: "plan_review_action \<Rightarrow> task_id" where
  "PlanReviewAction_task_id (AddDependency i _) = i"
| "PlanReviewAction_task_id (LowerPriority i _) = i"
| "PlanReviewAction_task_id (CancelDuplicate i _) = i"

definition MAX_REVISE_ATTEMPTS :: nat where "MAX_REVISE_ATTEMPTS = 2"

definition MAX_PLAN_REVISES :: nat where "MAX_PLAN_REVISES = MAX_REVISE_ATTEMPTS"

definition PLAN_OPTIONS :: "string list" where
  "PLAN_OPTIONS = [''ready'', ''send_back'', ''cancel'']"

text \<open>
  \<open>parse_json_object\<close>: the deserializer of the wanted type is the \<open>serde_json\<close> crate's, a parameter.
\<close>

definition find_char :: "char \<Rightarrow> string \<Rightarrow> nat option" where
  "find_char c s = map_option fst (find (\<lambda>(i, x). x = c) (enumerate 0 s))"

definition rfind_char :: "char \<Rightarrow> string \<Rightarrow> nat option" where
  "rfind_char c s = map_option fst (find (\<lambda>(i, x). x = c) (rev (enumerate 0 s)))"

definition parse_json_object :: "(string \<Rightarrow> ('e, 'a) result) \<Rightarrow> string \<Rightarrow> ('e, 'a) result" where
  "parse_json_object from_str stdout =
     (let txt = trim stdout
      in case from_str txt of
           Inr v \<Rightarrow> Inr v
         | Inl e \<Rightarrow>
             (case (find_char CHR ''{'' txt, rfind_char CHR ''}'' txt) of
                (Some start, Some stop) \<Rightarrow>
                  (if start < stop then from_str (take (stop + 1 - start) (drop start txt)) else Inl e)
              | _ \<Rightarrow> Inl e))"

datatype plan_answer = AnswerReady | AnswerSendBack "string option" | AnswerCancel

definition PlanAnswer_parse :: "string \<Rightarrow> plan_answer option" where
  "PlanAnswer_parse ans =
     (let a = trim ans
      in if a = ''ready'' then Some AnswerReady
         else if a = ''cancel'' then Some AnswerCancel
         else if a = ''send_back'' then Some (AnswerSendBack None)
         else Option.bind (map_option trim_start (strip_prefix ''send_back'' a)) (\<lambda>reason.
              Option.bind (map_option trim (strip_prefix '':'' reason)) (\<lambda>reason.
              Some (AnswerSendBack (if reason \<noteq> [] then Some reason else None)))))"

record plan_review_candidate =
  prc_proposal_id :: proposal_id
  prc_submitted_at :: string
  prc_interrupt :: bool

definition review_key :: "plan_review_candidate \<Rightarrow> bool \<times> string \<times> proposal_id" where
  "review_key c = (\<not> prc_interrupt c, prc_submitted_at c, prc_proposal_id c)"

definition next_to_review :: "plan_review_candidate list \<Rightarrow> proposal_id option" where
  "next_to_review candidates = map_option prc_proposal_id (min_by_key review_key candidates)"

subsection \<open>The commands together\<close>

datatype proposal_cmd =
    PResubmit planner_owner "task_id list" "goal_id list" string
  | PAccept string | PRetry string | PCancel string | PWithdraw string | PSendBack string

fun proposal_exec :: "proposal_cmd \<Rightarrow> proposal \<Rightarrow> proposal checked" where
  "proposal_exec (PResubmit owner tasks goals now) p = resubmit p owner tasks goals now"
| "proposal_exec (PAccept now) p = accept_proposal p now"
| "proposal_exec (PRetry now) p = retry_proposal p now"
| "proposal_exec (PCancel now) p = cancel_proposal p now"
| "proposal_exec (PWithdraw now) p = withdraw_proposal p now"
| "proposal_exec (PSendBack now) p = send_back_proposal p now"

definition proposal_ok :: "proposal \<Rightarrow> bool" where
  "proposal_ok p \<longleftrightarrow> prop_id p > 0 \<and> prop_task_ids p \<noteq> []
     \<and> sorted (prop_task_ids p) \<and> distinct (prop_task_ids p)
     \<and> sorted (prop_goal_ids p) \<and> distinct (prop_goal_ids p)"

fun proposal_edge :: "proposal_status \<Rightarrow> proposal_status \<Rightarrow> bool" where
  "proposal_edge ProposalSubmitted s = (s \<in> {Accepted, ProposalCanceled, Revising})"
| "proposal_edge Revising s = (s \<in> {ProposalSubmitted, ProposalCanceled})"
| "proposal_edge Accepted s = False"
| "proposal_edge ProposalCanceled s = False"

lemma sorted_ids_simps [simp]:
  "set (sorted_ids ids) = set ids" "sorted (sorted_ids ids)" "distinct (sorted_ids ids)"
  "sorted_ids ids = [] \<longleftrightarrow> ids = []"
  by (simp_all add: sorted_ids_def)

lemma sorted_ids_fixed: "sorted ids \<Longrightarrow> distinct ids \<Longrightarrow> sorted_ids ids = ids"
  by (simp add: sorted_ids_def sort_dedup_fixed)

lemma proposal_exec_key:
  "proposal_exec c p = Inr p' \<Longrightarrow> (prop_id p', prop_created_at p') = (prop_id p, prop_created_at p)"
  by (cases c) (auto simp: proposal_command_defs)

lemma proposal_exec_ok: "proposal_ok p \<Longrightarrow> proposal_exec c p = Inr p' \<Longrightarrow> proposal_ok p'"
  by (cases c) (auto simp: proposal_command_defs proposal_ok_def)

lemma proposal_exec_edge:
  "proposal_exec c p = Inr p' \<Longrightarrow>
   prop_status p' = prop_status p \<or> proposal_edge (prop_status p) (prop_status p')"
  by (cases c) (auto simp: proposal_command_defs)

interpretation proposal_life:
  lifecycle proposal_exec "\<lambda>p. (prop_id p, prop_created_at p)" proposal_ok prop_status proposal_edge
proof unfold_locales
qed (fact proposal_exec_key proposal_exec_ok proposal_exec_edge)+

fun sends_back :: "proposal_cmd \<Rightarrow> bool" where
  "sends_back (PSendBack _) = True"
| "sends_back _ = False"

lemma proposal_exec_count:
  "proposal_exec c p = Inr p' \<Longrightarrow> prop_revise_count p' = prop_revise_count p + of_bool (sends_back c)"
  by (cases c) (auto simp: proposal_command_defs)

lemma proposal_exec_final: "proposal_exec c p = Inr p' \<Longrightarrow> ProposalStatus_is_active (prop_status p)"
  by (cases c) (auto simp: proposal_command_defs)

lemma review_key_le:
  assumes "review_key c \<le> review_key d"
  shows "(prc_interrupt d \<longrightarrow> prc_interrupt c)
     \<and> (prc_interrupt d = prc_interrupt c \<longrightarrow> prc_submitted_at c \<le> prc_submitted_at d)
     \<and> (prc_interrupt d = prc_interrupt c \<and> prc_submitted_at d = prc_submitted_at c \<longrightarrow>
          prc_proposal_id c \<le> prc_proposal_id d)"
proof -
  have pair: "(a, b) \<le> (a', b') \<longleftrightarrow> a < a' \<or> a = a' \<and> b \<le> b'"
    for a a' :: "'x::linorder" and b b' :: "'y::linorder"
    by (auto simp: less_eq_prod_def order_le_less)
  from assms show ?thesis
    unfolding review_key_def pair by (cases "prc_interrupt c"; cases "prc_interrupt d") auto
qed

subsection \<open>Properties\<close>



text \<open>
  C25: plan review takes next, of the waiting proposals, one with an interrupt task if there is any,
  of those the oldest submission, of those the lowest id; it takes none only when none waits.
\<close>

theorem next_to_review_least:
  "(next_to_review candidates = None \<longleftrightarrow> candidates = [])
   \<and> (\<forall>i. next_to_review candidates = Some i \<longrightarrow>
        (\<exists>c \<in> set candidates. prc_proposal_id c = i
           \<and> (\<forall>d \<in> set candidates.
                (prc_interrupt d \<longrightarrow> prc_interrupt c)
                \<and> (prc_interrupt d = prc_interrupt c \<longrightarrow> prc_submitted_at c \<le> prc_submitted_at d)
                \<and> (prc_interrupt d = prc_interrupt c \<and> prc_submitted_at d = prc_submitted_at c \<longrightarrow>
                     i \<le> prc_proposal_id d))))"
proof (intro conjI allI impI)
  show "next_to_review candidates = None \<longleftrightarrow> candidates = []" by (simp add: next_to_review_def)
  fix i assume "next_to_review candidates = Some i"
  then obtain c where c: "min_by_key review_key candidates = Some c" "prc_proposal_id c = i"
    by (auto simp: next_to_review_def)
  have least: "(prc_interrupt d \<longrightarrow> prc_interrupt c)
      \<and> (prc_interrupt d = prc_interrupt c \<longrightarrow> prc_submitted_at c \<le> prc_submitted_at d)
      \<and> (prc_interrupt d = prc_interrupt c \<and> prc_submitted_at d = prc_submitted_at c \<longrightarrow> i \<le> prc_proposal_id d)"
    if "d \<in> set candidates" for d
    using review_key_le [OF min_by_key_least [OF c(1) that]] unfolding c(2) .
  show "\<exists>c \<in> set candidates. prc_proposal_id c = i
           \<and> (\<forall>d \<in> set candidates.
                (prc_interrupt d \<longrightarrow> prc_interrupt c)
                \<and> (prc_interrupt d = prc_interrupt c \<longrightarrow> prc_submitted_at c \<le> prc_submitted_at d)
                \<and> (prc_interrupt d = prc_interrupt c \<and> prc_submitted_at d = prc_submitted_at c \<longrightarrow>
                     i \<le> prc_proposal_id d))"
    by (intro bexI [OF _ min_by_key_in [OF c(1)]] conjI [OF c(2)] ballI) (rule least)
qed

theorem next_to_review_witness:
  "next_to_review
     [\<lparr>prc_proposal_id = 1, prc_submitted_at = ''a'', prc_interrupt = False\<rparr>,
      \<lparr>prc_proposal_id = 2, prc_submitted_at = ''b'', prc_interrupt = True\<rparr>] \<noteq> None"
  using next_to_review_least
    [of "[\<lparr>prc_proposal_id = 1, prc_submitted_at = ''a'', prc_interrupt = False\<rparr>,
          \<lparr>prc_proposal_id = 2, prc_submitted_at = ''b'', prc_interrupt = True\<rparr>]"]
  by simp

end
