(* ===== verification/Goal_Aggregate.thy ===== *)
theory Goal_Aggregate
  imports Task_Aggregate
begin

text \<open>
  The goal aggregate (\<^verbatim>\<open>src/src/domain/goal.rs\<close>, the inputs in \<^verbatim>\<open>input.rs\<close> and the counts of
  \<^verbatim>\<open>views.rs\<close>): a goal is registered open or as a draft, edited, opened once and closed once, and a
  verdict is recorded only when the statuses of its tasks allow it.
\<close>

subsection \<open>State and inputs\<close>

record goal =
  goal_id :: goal_id
  goal_title :: string
  goal_description :: string
  goal_acceptance :: string
  goal_constraints :: string
  goal_doc :: "string option"
  goal_status :: goal_status
  goal_closed_at :: "string option"
  goal_verdict :: "goal_verdict option"
  goal_created_at :: string
  goal_updated_at :: string

type_synonym goal_record = goal

record new_goal =
  ng_title :: string
  ng_description :: string
  ng_acceptance :: string
  ng_constraints :: string
  ng_doc :: "string option"
  ng_draft :: bool

record goal_edit =
  ge_title :: "string option"
  ge_description :: "string option"
  ge_acceptance :: "string option"
  ge_constraints :: "string option"
  ge_doc :: "string option"

definition NewGoal_validate :: "new_goal \<Rightarrow> unit checked" where
  "NewGoal_validate new = require (\<not> blank (ng_title new)) (Blank ''goal title'')"

definition GoalEdit_is_empty :: "goal_edit \<Rightarrow> bool" where
  "GoalEdit_is_empty e =
     (ge_title e = None \<and> ge_description e = None \<and> ge_acceptance e = None
      \<and> ge_constraints e = None \<and> ge_doc e = None)"

subsection \<open>The number of tasks in each status\<close>

record task_status_counts =
  cnt_total :: nat
  cnt_draft :: nat
  cnt_submitted :: nat
  cnt_ready :: nat
  cnt_in_progress :: nat
  cnt_completed :: nat
  cnt_canceled :: nat

definition no_counts :: task_status_counts where
  "no_counts = \<lparr>cnt_total = 0, cnt_draft = 0, cnt_submitted = 0, cnt_ready = 0,
                cnt_in_progress = 0, cnt_completed = 0, cnt_canceled = 0\<rparr>"

definition TaskStatusCounts_count :: "task_status_counts \<Rightarrow> task_status \<Rightarrow> nat \<Rightarrow> task_status_counts" where
  "TaskStatusCounts_count c s n =
     (let c = c\<lparr>cnt_total := cnt_total c + n\<rparr>
      in case s of
           Draft \<Rightarrow> c\<lparr>cnt_draft := cnt_draft c + n\<rparr>
         | Submitted \<Rightarrow> c\<lparr>cnt_submitted := cnt_submitted c + n\<rparr>
         | Ready \<Rightarrow> c\<lparr>cnt_ready := cnt_ready c + n\<rparr>
         | InProgress \<Rightarrow> c\<lparr>cnt_in_progress := cnt_in_progress c + n\<rparr>
         | Completed \<Rightarrow> c\<lparr>cnt_completed := cnt_completed c + n\<rparr>
         | Canceled \<Rightarrow> c\<lparr>cnt_canceled := cnt_canceled c + n\<rparr>)"

subsection \<open>Creation\<close>

definition GoalVerdict_allows :: "goal_verdict \<Rightarrow> task_status \<Rightarrow> bool" where
  "GoalVerdict_allows v s =
     (case v of Achieved \<Rightarrow> TaskStatus_is_terminal s | Abandoned \<Rightarrow> s \<noteq> InProgress)"

definition require_positive_goal :: "goal_id \<Rightarrow> unit checked" where
  "require_positive_goal i = require (i > 0) (NonPositiveId ''goal ID'')"

definition Goal_new :: "goal_id \<Rightarrow> new_goal \<Rightarrow> string \<Rightarrow> goal checked" where
  "Goal_new i new created_at =
     and_then (NewGoal_validate new) (\<lambda>_.
     and_then (require_positive_goal i) (\<lambda>_.
     Inr \<lparr>goal_id = i, goal_title = ng_title new, goal_description = ng_description new,
          goal_acceptance = ng_acceptance new, goal_constraints = ng_constraints new,
          goal_doc = option_filter (\<lambda>d. \<not> blank d) (ng_doc new),
          goal_status = (if ng_draft new then GoalDraft else GoalOpen),
          goal_closed_at = None, goal_verdict = None,
          goal_created_at = created_at, goal_updated_at = created_at\<rparr>))"

definition Goal_restore :: "goal_record \<Rightarrow> goal checked" where
  "Goal_restore rcd =
     and_then (require_positive_goal (goal_id rcd)) (\<lambda>_.
     and_then (require (\<not> blank (goal_title rcd)) (Blank ''goal title'')) (\<lambda>_.
     and_then (require ((goal_closed_at rcd \<noteq> None) = (goal_verdict rcd \<noteq> None))
                 (GoalCloseInconsistent (goal_id rcd))) (\<lambda>_.
     Inr rcd)))"

definition Goal_is_closed :: "goal \<Rightarrow> bool" where
  "Goal_is_closed g = (goal_closed_at g \<noteq> None)"

definition Goal_is_draft :: "goal \<Rightarrow> bool" where
  "Goal_is_draft g = (goal_status g = GoalDraft \<and> \<not> Goal_is_closed g)"

subsection \<open>Commands\<close>

definition require_open :: "goal \<Rightarrow> unit checked" where
  "require_open g = require (\<not> Goal_is_closed g) (GoalAlreadyClosed (goal_id g) (goal_verdict g))"

definition check_accepts_tasks :: "goal \<Rightarrow> unit checked" where
  "check_accepts_tasks g = require (\<not> Goal_is_closed g) (GoalClosed (goal_id g) (goal_verdict g))"

definition edit_goal :: "goal \<Rightarrow> goal_edit \<Rightarrow> goal checked" where
  "edit_goal g e =
     and_then (case ge_title e of
                 Some title \<Rightarrow>
                   and_then (require (\<not> blank title) (Blank ''goal title'')) (\<lambda>_. Inr (g\<lparr>goal_title := title\<rparr>))
               | None \<Rightarrow> Inr g) (\<lambda>g.
     Inr (g\<lparr>goal_description := (case ge_description e of Some x \<Rightarrow> x | None \<Rightarrow> goal_description g),
            goal_acceptance := (case ge_acceptance e of Some x \<Rightarrow> x | None \<Rightarrow> goal_acceptance g),
            goal_constraints := (case ge_constraints e of Some x \<Rightarrow> x | None \<Rightarrow> goal_constraints g),
            goal_doc := (case ge_doc e of
                           Some x \<Rightarrow> option_filter (\<lambda>d. \<not> blank d) (Some x)
                         | None \<Rightarrow> goal_doc g)\<rparr>))"

definition ready_goal :: "goal \<Rightarrow> goal checked" where
  "ready_goal g =
     and_then (require_open g) (\<lambda>_.
     and_then (require (goal_status g = GoalDraft) (GoalNotDraft (goal_id g))) (\<lambda>_.
     Inr (g\<lparr>goal_status := GoalOpen\<rparr>)))"

definition close_blocking :: "goal_verdict \<Rightarrow> task_status_counts \<Rightarrow> (task_status \<times> nat) list" where
  "close_blocking v c =
     filter (\<lambda>(s, n). n > 0 \<and> \<not> GoalVerdict_allows v s)
       [(Draft, cnt_draft c), (Submitted, cnt_submitted c), (Ready, cnt_ready c),
        (InProgress, cnt_in_progress c)]"

definition close_goal :: "goal \<Rightarrow> goal_verdict \<Rightarrow> task_status_counts \<Rightarrow> string \<Rightarrow> goal checked" where
  "close_goal g v c closed_at =
     and_then (require_open g) (\<lambda>_.
     and_then (require (close_blocking v c = []) (GoalCloseBlocked (goal_id g) v (close_blocking v c))) (\<lambda>_.
     Inr (g\<lparr>goal_verdict := Some v, goal_updated_at := closed_at, goal_closed_at := Some closed_at\<rparr>)))"

subsection \<open>The commands together\<close>

datatype goal_cmd =
    GEdit goal_edit
  | GReady
  | GClose goal_verdict task_status_counts string

fun goal_exec :: "goal_cmd \<Rightarrow> goal \<Rightarrow> goal checked" where
  "goal_exec (GEdit e) g = edit_goal g e"
| "goal_exec GReady g = ready_goal g"
| "goal_exec (GClose v c closed_at) g = close_goal g v c closed_at"

definition goal_ok :: "goal \<Rightarrow> bool" where
  "goal_ok g \<longleftrightarrow> goal_id g > 0 \<and> \<not> blank (goal_title g)
     \<and> (goal_closed_at g = None \<longleftrightarrow> goal_verdict g = None)"

text \<open>The goal's stage: its status and, once closed, the recorded close.\<close>

definition goal_stage :: "goal \<Rightarrow> goal_status \<times> (string \<times> goal_verdict option) option" where
  "goal_stage g = (goal_status g, map_option (\<lambda>at. (at, goal_verdict g)) (goal_closed_at g))"

fun goal_edge ::
  "goal_status \<times> (string \<times> goal_verdict option) option
   \<Rightarrow> goal_status \<times> (string \<times> goal_verdict option) option \<Rightarrow> bool" where
  "goal_edge (s, None) (s', c') = ((s = GoalDraft \<and> s' = GoalOpen \<and> c' = None) \<or> (s' = s \<and> c' \<noteq> None))"
| "goal_edge (s, Some c) _ = False"

lemma Goal_restore_iff: "Goal_restore g = Inr g' \<longleftrightarrow> g' = g \<and> goal_ok g"
  by (auto simp: Goal_restore_def require_positive_goal_def goal_ok_def)

lemma edit_goal_Inr:
  assumes "edit_goal g e = Inr g'"
  shows "goal_id g' = goal_id g" "goal_status g' = goal_status g" "goal_closed_at g' = goal_closed_at g"
    "goal_verdict g' = goal_verdict g" "\<not> blank (goal_title g) \<Longrightarrow> \<not> blank (goal_title g')"
  using assms by (auto simp: edit_goal_def split: option.splits)

lemma ready_goal_Inr:
  "ready_goal g = Inr g' \<longleftrightarrow> Goal_is_draft g \<and> g' = g\<lparr>goal_status := GoalOpen\<rparr>"
  by (auto simp: ready_goal_def require_open_def Goal_is_draft_def)

lemma close_goal_Inr:
  "close_goal g v c closed_at = Inr g' \<longleftrightarrow>
     \<not> Goal_is_closed g \<and> close_blocking v c = []
     \<and> g' = g\<lparr>goal_verdict := Some v, goal_updated_at := closed_at, goal_closed_at := Some closed_at\<rparr>"
  by (auto simp: close_goal_def require_open_def)

lemma goal_exec_id: "goal_exec c g = Inr g' \<Longrightarrow> goal_id g' = goal_id g"
  by (cases c) (auto simp: edit_goal_Inr ready_goal_Inr close_goal_Inr)

lemma goal_exec_ok: "goal_ok g \<Longrightarrow> goal_exec c g = Inr g' \<Longrightarrow> goal_ok g'"
  by (cases c) (auto simp: goal_ok_def edit_goal_Inr ready_goal_Inr close_goal_Inr)

lemma goal_exec_edge:
  "goal_exec c g = Inr g' \<Longrightarrow> goal_stage g' = goal_stage g \<or> goal_edge (goal_stage g) (goal_stage g')"
  by (cases c)
     (auto simp: goal_stage_def edit_goal_Inr ready_goal_Inr close_goal_Inr Goal_is_draft_def
        Goal_is_closed_def)

interpretation goal_life: lifecycle goal_exec goal_id goal_ok goal_stage goal_edge
proof unfold_locales
qed (fact goal_exec_id goal_exec_ok goal_exec_edge)+

lemma close_blocking_Nil:
  "close_blocking v c = [] \<longleftrightarrow>
     cnt_in_progress c = 0 \<and> (v = Achieved \<longrightarrow> cnt_draft c = 0 \<and> cnt_submitted c = 0 \<and> cnt_ready c = 0)"
  by (cases v) (auto simp: close_blocking_def GoalVerdict_allows_def TaskStatus_is_terminal_def)

text \<open>The counts as the store builds them: one \<open>count\<close> per status of the goal's tasks.\<close>

definition counts_of :: "task_status list \<Rightarrow> task_status_counts" where
  "counts_of ss = fold (\<lambda>s c. TaskStatusCounts_count c s 1) ss no_counts"

lemma counts_fold:
  "cnt_total (fold (\<lambda>s c. TaskStatusCounts_count c s 1) ss c) = cnt_total c + length ss"
  "cnt_draft (fold (\<lambda>s c. TaskStatusCounts_count c s 1) ss c) = cnt_draft c + count_list ss Draft"
  "cnt_submitted (fold (\<lambda>s c. TaskStatusCounts_count c s 1) ss c) = cnt_submitted c + count_list ss Submitted"
  "cnt_ready (fold (\<lambda>s c. TaskStatusCounts_count c s 1) ss c) = cnt_ready c + count_list ss Ready"
  "cnt_in_progress (fold (\<lambda>s c. TaskStatusCounts_count c s 1) ss c) = cnt_in_progress c + count_list ss InProgress"
  by (induction ss arbitrary: c) (auto simp: TaskStatusCounts_count_def Let_def split: task_status.splits)

lemma count_list_0: "count_list xs x = 0 \<longleftrightarrow> x \<notin> set xs"
  by (induction xs) auto

lemma close_blocking_counts:
  "close_blocking v (counts_of ss) = [] \<longleftrightarrow> (\<forall>s \<in> set ss. GoalVerdict_allows v s)"
proof -
  have "(\<forall>s \<in> set ss. GoalVerdict_allows v s) \<longleftrightarrow>
    InProgress \<notin> set ss \<and> (v = Achieved \<longrightarrow> Draft \<notin> set ss \<and> Submitted \<notin> set ss \<and> Ready \<notin> set ss)"
    by (cases v) (auto simp: GoalVerdict_allows_def TaskStatus_is_terminal_def
        intro: task_status.exhaust, (metis task_status.exhaust)+)
  then show ?thesis
    unfolding close_blocking_Nil counts_of_def counts_fold no_counts_def
    by (simp add: count_list_0)
qed

subsection \<open>Properties\<close>

text \<open>
  C12: closing a goal succeeds exactly when it is not closed and the status of each of its tasks allows the
  verdict (all finished for achieved, none in progress for abandoned); it records the verdict together
  with the close time, and whatever commands follow, the recorded close stays and the goal never
  opens again.
\<close>

theorem close_goal_once:
  "(is_ok (close_goal g v (counts_of statuses) at) \<longleftrightarrow>
      goal_closed_at g = None \<and> (\<forall>s \<in> set statuses. GoalVerdict_allows v s))
   \<and> (\<forall>g' cs g''. close_goal g v (counts_of statuses) at = Inr g' \<longrightarrow> exec_all goal_exec cs g' = Inr g''
        \<longrightarrow> goal_closed_at g'' = Some at \<and> goal_verdict g'' = Some v \<and> goal_status g'' = goal_status g)"
proof (intro conjI allI impI)
  show "is_ok (close_goal g v (counts_of statuses) at) \<longleftrightarrow>
      goal_closed_at g = None \<and> (\<forall>s \<in> set statuses. GoalVerdict_allows v s)"
    by (simp add: is_ok_iff close_goal_Inr close_blocking_counts Goal_is_closed_def)
  fix g' cs g''
  assume "close_goal g v (counts_of statuses) at = Inr g'" and run: "exec_all goal_exec cs g' = Inr g''"
  then have st: "goal_stage g' \<in> {(goal_status g, Some (at, Some v))}"
    by (auto simp: close_goal_Inr goal_stage_def)
  have "goal_stage g'' \<in> {(goal_status g, Some (at, Some v))}"
    by (rule goal_life.exec_all_closed [OF _ st run]) auto
  then show "goal_closed_at g'' = Some at" "goal_verdict g'' = Some v" "goal_status g'' = goal_status g"
    by (auto simp: goal_stage_def)
qed

definition sample_goal :: goal where
  "sample_goal =
     \<lparr>goal_id = 1, goal_title = ''g'', goal_description = '''', goal_acceptance = '''',
      goal_constraints = '''', goal_doc = None, goal_status = GoalOpen, goal_closed_at = None,
      goal_verdict = None, goal_created_at = ''a'', goal_updated_at = ''a''\<rparr>"

theorem close_goal_once_witness:
  "is_ok (close_goal sample_goal Achieved (counts_of [Completed, Canceled]) ''now'')"
  by (simp add: close_goal_once sample_goal_def GoalVerdict_allows_def TaskStatus_is_terminal_def)

end
