(* ===== verification/Worklist.thy ===== *)
theory Worklist
  imports Prelude
begin

text \<open>
  Graph search with a list of pending nodes, as the sources write it in several places (the reach of
  a task in the dependency graph, the recursive query over the wait graph), and the interface
  \<open>worklist\<close> that gives its result: the nodes reachable from the pending ones.
\<close>

definition succs :: "('n \<times> 'n) list \<Rightarrow> 'n \<Rightarrow> 'n list" where
  "succs edges n = map snd (filter (\<lambda>e. fst e = n) edges)"

lemma set_succs [simp]: "set (succs edges n) = {m. (n, m) \<in> set edges}"
  by (force simp: succs_def)

text \<open>
  The loop \<^verbatim>\<open>while let Some(next) = pending.pop() { if reached.insert(next) { pending.extend(..) } }\<close>,
  the top of the stack first.
\<close>

function explore :: "('n \<times> 'n) list \<Rightarrow> 'n list \<Rightarrow> 'n list \<Rightarrow> 'n list" where
  "explore edges [] reached = reached"
| "explore edges (n # pending) reached =
     (if n \<in> set reached then explore edges pending reached
      else explore edges (rev (succs edges n) @ pending) (n # reached))"
  by pat_completeness auto
termination
proof (relation "measures [\<lambda>(edges, pending, reached). card (snd ` set edges \<union> set pending - set reached),
                           \<lambda>(edges, pending, reached). length pending]", goal_cases)
  case (2 edges n pending reached)
  then have "snd ` set edges \<union> set (n # pending) - set reached = snd ` set edges \<union> set pending - set reached"
    by auto
  then show ?case by simp
next
  case (3 edges n pending reached)
  have "snd ` set edges \<union> set (rev (succs edges n) @ pending) - set (n # reached)
      \<subset> snd ` set edges \<union> set (n # pending) - set reached"
    using 3 by (auto intro: rev_image_eqI)
  then have "card (snd ` set edges \<union> set (rev (succs edges n) @ pending) - set (n # reached))
      < card (snd ` set edges \<union> set (n # pending) - set reached)"
    by (rule psubset_card_mono [rotated]) simp
  then show ?case by simp
qed simp

declare explore.simps [simp del]

text \<open>
  The interface of such a search: where its successors live, and how one turn of the loop changes
  the pending and the reached nodes. The order in which nodes are taken is left open.
\<close>

locale worklist =
  fixes succ :: "'n \<Rightarrow> 'n list"
    and search :: "'n list \<Rightarrow> 'n list \<Rightarrow> 'n list"
    and universe :: "'n set"
  assumes finite_universe: "finite universe"
    and succ_universe: "set (succ n) \<subseteq> universe"
    and search_Nil: "search [] reached = reached"
    and search_seen: "n \<in> set reached \<Longrightarrow> search (n # pending) reached = search pending reached"
    and search_new: "n \<notin> set reached \<Longrightarrow>
      \<exists>order. set order = set (succ n) \<union> set pending
              \<and> search (n # pending) reached = search order (n # reached)"
begin

definition step :: "('n \<times> 'n) set" where
  "step = {(n, m). m \<in> set (succ n)}"

lemma step_closed: "\<forall>n \<in> A. set (succ n) \<subseteq> A \<Longrightarrow> step\<^sup>* `` A = A"
  by (auto simp: step_def elim!: rtrancl_induct)

lemma step_unfold: "step\<^sup>* `` (insert n A) = step\<^sup>* `` (insert n (set (succ n) \<union> A))"
  by (auto simp: step_def intro: converse_rtrancl_into_rtrancl)

definition todo :: "'n list \<times> 'n list \<Rightarrow> nat \<times> nat" where
  "todo s = (card (universe \<union> set (fst s) - set (snd s)), length (fst s))"

lemma todo_seen:
  "n \<in> set reached \<Longrightarrow> (todo (pending, reached), todo (n # pending, reached)) \<in> less_than <*lex*> less_than"
proof -
  assume "n \<in> set reached"
  then have "universe \<union> set (n # pending) - set reached = universe \<union> set pending - set reached" by auto
  then show ?thesis by (simp add: todo_def)
qed

lemma todo_new:
  assumes "n \<notin> set reached" and "set order = set (succ n) \<union> set pending"
  shows "(todo (order, n # reached), todo (n # pending, reached)) \<in> less_than <*lex*> less_than"
proof -
  have "universe \<union> set order - set (n # reached) \<subset> universe \<union> set (n # pending) - set reached"
    using assms succ_universe [of n] by auto
  then have "card (universe \<union> set order - set (n # reached)) < card (universe \<union> set (n # pending) - set reached)"
    by (rule psubset_card_mono [rotated]) (simp add: finite_universe)
  then show ?thesis by (simp add: todo_def)
qed

lemma search_reach:
  assumes "\<forall>n \<in> set reached. set (succ n) \<subseteq> set reached \<union> set pending"
  shows "set (search pending reached) = step\<^sup>* `` (set pending \<union> set reached)
    \<and> (distinct reached \<longrightarrow> distinct (search pending reached))"
  using assms
proof (induction "(pending, reached)" arbitrary: pending reached
    rule: wf_induct_rule [OF wf_inv_image [OF wf_lex_prod [OF wf_less_than wf_less_than], of todo]])
  case (1 pending reached)
  show ?case
  proof (cases pending)
    case Nil
    with "1.prems" step_closed [of "set reached"] show ?thesis by (simp add: search_Nil)
  next
    case (Cons n rest)
    show ?thesis
    proof (cases "n \<in> set reached")
      case True
      have "((rest, reached), (pending, reached)) \<in> inv_image (less_than <*lex*> less_than) todo"
        using todo_seen [OF True] Cons by (simp add: inv_image_def)
      moreover have "\<forall>m \<in> set reached. set (succ m) \<subseteq> set reached \<union> set rest"
        using "1.prems" Cons True by auto
      moreover have "set pending \<union> set reached = set rest \<union> set reached" using Cons True by auto
      ultimately show ?thesis
        using "1.hyps" [of rest reached] Cons search_seen [OF True] by simp
    next
      case False
      from search_new [OF this] obtain order where
        order: "set order = set (succ n) \<union> set rest"
          "search (n # rest) reached = search order (n # reached)" by blast
      have "((order, n # reached), (pending, reached)) \<in> inv_image (less_than <*lex*> less_than) todo"
        using todo_new [OF False order(1)] Cons by (simp add: inv_image_def)
      moreover have "\<forall>m \<in> set (n # reached). set (succ m) \<subseteq> set (n # reached) \<union> set order"
        using "1.prems" Cons order(1) by auto
      moreover have "step\<^sup>* `` (set pending \<union> set reached) = step\<^sup>* `` (set order \<union> set (n # reached))"
        using step_unfold [of n "set rest \<union> set reached"] Cons order(1) by (simp add: Un_ac)
      ultimately show ?thesis
        using "1.hyps" [of order "n # reached"] Cons order(2) False by simp
    qed
  qed
qed

lemma search_from: "set (search pending []) = step\<^sup>* `` set pending"
  and search_distinct: "distinct (search pending [])"
  using search_reach [of "[]" pending] by simp_all

end

interpretation explore_edges: worklist "succs edges" "explore edges" "snd ` set edges"
  for edges :: "('n \<times> 'n) list"
proof unfold_locales
  fix n :: 'n and pending reached
  show "set (succs edges n) \<subseteq> snd ` set edges" by (force simp: image_iff)
  show "explore edges [] reached = reached" by (simp add: explore.simps)
  show "n \<in> set reached \<Longrightarrow> explore edges (n # pending) reached = explore edges pending reached"
    by (simp add: explore.simps)
  assume "n \<notin> set reached"
  then show "\<exists>order. set order = set (succs edges n) \<union> set pending
      \<and> explore edges (n # pending) reached = explore edges order (n # reached)"
    by (intro exI [of _ "rev (succs edges n) @ pending"]) (simp add: explore.simps)
qed simp

lemma explore_reach: "set (explore edges pending []) = (set edges)\<^sup>* `` set pending"
proof -
  have "explore_edges.step edges = set edges" by (auto simp: explore_edges.step_def)
  with explore_edges.search_from [of edges pending] show ?thesis by simp
qed

lemma explore_distinct: "distinct (explore edges pending [])"
  by (rule explore_edges.search_distinct)

end
