(* ===== verification/Claim_Graph.thy ===== *)
theory Claim_Graph
  imports Goal_Aggregate Worklist "HOL-Library.Product_Lexorder" "HOL-Library.Multiset"
begin

text \<open>
  The dependency view of the unfinished tasks and the claim order (\<^verbatim>\<open>src/src/application/mod.rs\<close>).
  The map \<open>blocks\<close> from a task to the tasks it blocks is the sorted list of its entries. The chain of
  the critical path is a loop that ends only when the graph has no cycle, so it is an option.
\<close>

subsection \<open>Inputs and views\<close>

record graph_goal_dependency =
  ggd_goal_id :: goal_id
  ggd_verdict :: "goal_verdict option"

definition is_met :: "graph_goal_dependency \<Rightarrow> bool" where
  "is_met d = (ggd_verdict d = Some Achieved)"

record graph_task =
  gt_id :: task_id
  gt_status :: task_status
  gt_priority :: priority
  gt_title :: string
  gt_goal_id :: "goal_id option"
  gt_goal_status :: "goal_status option"
  gt_depends_on :: "task_id list"
  gt_goal_dependencies :: "graph_goal_dependency list"

datatype wait_for = WaitTask task_id | WaitGoal goal_id

record graph_input =
  gi_tasks :: "graph_task list"
  gi_candidates :: "task_id list"

record graph_node =
  gn_id :: task_id
  gn_status :: task_status
  gn_priority :: priority
  gn_effective_priority :: priority
  gn_title :: string
  gn_goal_id :: "goal_id option"
  gn_goal_status :: "goal_status option"
  gn_depends_on :: "task_id list"
  gn_goal_dependencies :: "goal_id list"
  gn_blocks :: "task_id list"
  gn_unblocks :: nat
  gn_ready_after :: "wait_for list"

record dependency_graph =
  dg_tasks :: "graph_node list"
  dg_candidates :: "task_id list"
  dg_critical :: "task_id list"

text \<open>\<open>ClaimRank\<close>: the derived order of (highest priority, most unblocks, lowest id).\<close>

definition ClaimRank_new :: "priority \<Rightarrow> nat \<Rightarrow> task_id \<Rightarrow> int \<times> int \<times> int" where
  "ClaimRank_new p unblocks i = (- Priority_as_i64 p, - int unblocks, i)"

definition effective_priority :: "priority \<Rightarrow> graph_task list \<Rightarrow> priority" where
  "effective_priority own waiters =
     fold (\<lambda>p m. max m p)
       (map gt_priority
          (filter (\<lambda>w. gt_status w = Ready \<and> gt_goal_status w \<noteq> Some GoalDraft) waiters)) own"

subsection \<open>The graph\<close>

definition open_ids :: "graph_input \<Rightarrow> task_id set" where
  "open_ids input = set (map gt_id (gi_tasks input))"

definition members :: "graph_input \<Rightarrow> goal_id \<Rightarrow> task_id list" where
  "members input g = map gt_id (filter (\<lambda>t. gt_goal_id t = Some g) (gi_tasks input))"

definition task_blocks :: "graph_input \<Rightarrow> graph_task \<Rightarrow> (task_id \<times> task_id) list" where
  "task_blocks input t =
     map (\<lambda>p. (p, gt_id t)) (filter (\<lambda>p. p \<in> open_ids input) (gt_depends_on t))
     @ concat (map (\<lambda>d. map (\<lambda>m. (m, gt_id t)) (members input (ggd_goal_id d)))
                 (filter (\<lambda>d. ggd_verdict d = None) (gt_goal_dependencies t)))"

definition blocks :: "graph_input \<Rightarrow> (task_id \<times> task_id) list" where
  "blocks input = sort_dedup (concat (map (task_blocks input) (gi_tasks input)))"

definition reached_from :: "graph_input \<Rightarrow> task_id \<Rightarrow> task_id list" where
  "reached_from input i = explore (blocks input) (rev (succs (blocks input) i)) []"

definition by_id :: "graph_input \<Rightarrow> task_id \<Rightarrow> graph_task option" where
  "by_id input i = find (\<lambda>t. gt_id t = i) (rev (gi_tasks input))"

definition reach :: "graph_input \<Rightarrow> task_id \<Rightarrow> (nat \<times> priority) option" where
  "reach input i =
     map_option (\<lambda>t. (length (reached_from input i),
                      effective_priority (gt_priority t)
                        (List.map_filter (by_id input) (reached_from input i))))
       (by_id input i)"

definition unblocks_count :: "graph_input \<Rightarrow> task_id \<Rightarrow> nat" where
  "unblocks_count input i = (case reach input i of None \<Rightarrow> 0 | Some (n, _) \<Rightarrow> n)"

definition effective :: "graph_input \<Rightarrow> task_id \<Rightarrow> priority" where
  "effective input i = (case reach input i of None \<Rightarrow> Normal | Some (_, p) \<Rightarrow> p)"

definition critical_rank :: "graph_input \<Rightarrow> task_id \<Rightarrow> int \<times> int" where
  "critical_rank input i = (- int (unblocks_count input i), i)"

definition claim_rank :: "graph_input \<Rightarrow> task_id \<Rightarrow> int \<times> int \<times> int" where
  "claim_rank input i = ClaimRank_new (effective input i) (unblocks_count input i) i"

partial_function (option) critical_loop ::
  "graph_input \<Rightarrow> task_id option \<Rightarrow> task_id list \<Rightarrow> task_id list option" where
  "critical_loop input current critical =
     (case current of
        None \<Rightarrow> Some critical
      | Some i \<Rightarrow>
          critical_loop input (min_by_key (critical_rank input) (succs (blocks input) i))
            (critical @ [i]))"

declare critical_loop.simps [code]

definition in_goal :: "goal_id option \<Rightarrow> graph_task \<Rightarrow> bool" where
  "in_goal g t = (g = None \<or> gt_goal_id t = g)"

definition goal_ids :: "graph_input \<Rightarrow> goal_id option \<Rightarrow> task_id list" where
  "goal_ids input g = sort_dedup (map gt_id (filter (in_goal g) (gi_tasks input)))"

definition graph_candidates :: "graph_input \<Rightarrow> goal_id option \<Rightarrow> task_id list" where
  "graph_candidates input g =
     sort_key (claim_rank input)
       (filter (\<lambda>i. g = None \<or> i \<in> set (goal_ids input g)) (gi_candidates input))"

definition critical_start :: "graph_input \<Rightarrow> goal_id option \<Rightarrow> task_id option" where
  "critical_start input g =
     option_filter (\<lambda>i. unblocks_count input i \<noteq> 0)
       (min_by_key (critical_rank input) (goal_ids input g))"

definition graph_node_of :: "graph_input \<Rightarrow> graph_task \<Rightarrow> graph_node" where
  "graph_node_of input t =
     \<lparr>gn_id = gt_id t, gn_status = gt_status t, gn_priority = gt_priority t,
      gn_effective_priority = effective input (gt_id t), gn_title = gt_title t,
      gn_goal_id = gt_goal_id t, gn_goal_status = gt_goal_status t,
      gn_depends_on = gt_depends_on t,
      gn_goal_dependencies = map ggd_goal_id (gt_goal_dependencies t),
      gn_blocks = succs (blocks input) (gt_id t),
      gn_unblocks = unblocks_count input (gt_id t),
      gn_ready_after =
        map WaitTask (filter (\<lambda>p. p \<in> open_ids input) (gt_depends_on t))
        @ map (\<lambda>d. WaitGoal (ggd_goal_id d)) (filter (\<lambda>d. \<not> is_met d) (gt_goal_dependencies t))\<rparr>"

definition dependency_graph :: "graph_input \<Rightarrow> goal_id option \<Rightarrow> dependency_graph option" where
  "dependency_graph input g =
     map_option (\<lambda>critical.
       \<lparr>dg_tasks = map (graph_node_of input)
          (filter (\<lambda>t. gt_id t \<in> set (goal_ids input g)) (gi_tasks input)),
        dg_candidates = graph_candidates input g,
        dg_critical = critical\<rparr>)
     (critical_loop input (critical_start input g) [])"

record candidate =
  cand_task :: task
  cand_effective_priority :: priority

definition claim_candidates :: "task list \<Rightarrow> dependency_graph \<Rightarrow> candidate list" where
  "claim_candidates tasks graph =
     map (\<lambda>t. \<lparr>cand_task = t,
               cand_effective_priority =
                 (case find (\<lambda>n. gn_id n = task_id t) (dg_tasks graph) of
                    Some n \<Rightarrow> gn_effective_priority n | None \<Rightarrow> task_priority t)\<rparr>) tasks"

subsection \<open>What blocks what\<close>

lemma set_blocks:
  "(p, t) \<in> set (blocks input) \<longleftrightarrow>
     (\<exists>task \<in> set (gi_tasks input). gt_id task = t
        \<and> (p \<in> set (gt_depends_on task) \<and> p \<in> open_ids input
           \<or> (\<exists>d \<in> set (gt_goal_dependencies task). ggd_verdict d = None
                \<and> p \<in> set (members input (ggd_goal_id d)))))"
  by (auto simp: blocks_def task_blocks_def)

lemma set_reached_from: "set (reached_from input i) = {t. (i, t) \<in> (set (blocks input))\<^sup>+}"
  by (auto simp: reached_from_def explore_reach Image_iff trancl_unfold_left relcomp_unfold)

lemma distinct_reached_from: "distinct (reached_from input i)"
  by (simp add: reached_from_def explore_distinct)

lemma unblocks_card:
  assumes "by_id input i \<noteq> None"
  shows "unblocks_count input i = card {t. (i, t) \<in> (set (blocks input))\<^sup>+}"
  using assms distinct_card [OF distinct_reached_from [of input i]]
  by (auto simp: unblocks_count_def reach_def set_reached_from)

lemma succs_fewer:
  assumes "acyclic (set (blocks input))" and "(i, j) \<in> set (blocks input)"
  shows "{t. (j, t) \<in> (set (blocks input))\<^sup>+} \<subset> {t. (i, t) \<in> (set (blocks input))\<^sup>+}"
proof -
  have "j \<in> {t. (i, t) \<in> (set (blocks input))\<^sup>+}" using assms(2) by auto
  moreover have "j \<notin> {t. (j, t) \<in> (set (blocks input))\<^sup>+}" using assms(1) by (simp add: acyclic_def)
  moreover have "{t. (j, t) \<in> (set (blocks input))\<^sup>+} \<subseteq> {t. (i, t) \<in> (set (blocks input))\<^sup>+}"
    using assms(2) by (auto intro: trancl_into_trancl2)
  ultimately show ?thesis by blast
qed

lemma finite_reach: "finite {t. (i, t) \<in> (set (blocks input))\<^sup>+}"
  by (rule finite_subset [of _ "snd ` (set (blocks input))\<^sup>+"]) (force, simp)

text \<open>Without a cycle the chain of the critical path ends.\<close>

lemma critical_loop_ends:
  assumes "acyclic (set (blocks input))"
  shows "\<exists>c. critical_loop input current acc = Some c"
proof (induction "case current of None \<Rightarrow> 0 | Some i \<Rightarrow> Suc (card {t. (i, t) \<in> (set (blocks input))\<^sup>+})"
    arbitrary: current acc rule: less_induct)
  case less
  show ?case
  proof (cases current)
    case None
    then show ?thesis by (simp add: critical_loop.simps)
  next
    case (Some i)
    let ?j = "min_by_key (critical_rank input) (succs (blocks input) i)"
    have "(case ?j of None \<Rightarrow> 0 | Some j \<Rightarrow> Suc (card {t. (j, t) \<in> (set (blocks input))\<^sup>+}))
        < Suc (card {t. (i, t) \<in> (set (blocks input))\<^sup>+})"
    proof (cases ?j)
      case (Some j)
      then have "(i, j) \<in> set (blocks input)" using min_by_key_in by fastforce
      from psubset_card_mono [OF finite_reach succs_fewer [OF assms this]] Some show ?thesis by simp
    qed simp
    with less [of ?j "acc @ [i]"] Some show ?thesis by (simp add: critical_loop.simps [of input "Some i"])
  qed
qed

subsection \<open>The effective priority\<close>

lemma fold_max_le: "p \<le> fold (\<lambda>p m. max m p) ps (m :: priority) \<longleftrightarrow> p \<le> m \<or> (\<exists>q \<in> set ps. p \<le> q)"
  by (induction ps arbitrary: m) (auto simp: le_max_iff_disj)

lemma fold_max_in: "fold (\<lambda>p m. max m p) ps (m :: priority) \<in> insert m (set ps)"
proof (induction ps arbitrary: m)
  case (Cons p ps)
  from Cons.IH [of "max m p"] show ?case by (auto simp: max_def split: if_splits)
qed simp

definition raises :: "graph_task \<Rightarrow> bool" where
  "raises t \<longleftrightarrow> gt_status t = Ready \<and> gt_goal_status t \<noteq> Some GoalDraft"

lemma effective_priority_ge:
  "p \<le> effective_priority own ws \<longleftrightarrow> p \<le> own \<or> (\<exists>w \<in> set ws. raises w \<and> p \<le> gt_priority w)"
  unfolding effective_priority_def fold_max_le by (auto simp: raises_def)

lemma find_in: "find p xs = Some x \<Longrightarrow> x \<in> set xs \<and> p x"
  by (induction xs) (auto split: if_splits)

lemma by_id_in: "by_id input i = Some t \<Longrightarrow> t \<in> set (gi_tasks input) \<and> gt_id t = i"
  using find_in [of "\<lambda>t. gt_id t = i" "rev (gi_tasks input)" t] by (simp add: by_id_def)

lemma by_id_ex: "t \<in> set (gi_tasks input) \<Longrightarrow> \<exists>t'. by_id input (gt_id t) = Some t'"
  by (cases "by_id input (gt_id t)") (auto simp: by_id_def find_None_iff)

lemma effective_ge:
  assumes "by_id input i = Some t"
  shows "p \<le> effective input i \<longleftrightarrow>
    p \<le> gt_priority t
    \<or> (\<exists>w. (i, gt_id w) \<in> (set (blocks input))\<^sup>+ \<and> by_id input (gt_id w) = Some w \<and> raises w
          \<and> p \<le> gt_priority w)"
proof -
  have waiter: "w \<in> set (List.map_filter (by_id input) (reached_from input i)) \<longleftrightarrow>
      (i, gt_id w) \<in> (set (blocks input))\<^sup>+ \<and> by_id input (gt_id w) = Some w" for w
  proof
    assume "w \<in> set (List.map_filter (by_id input) (reached_from input i))"
    then obtain j where j: "j \<in> set (reached_from input i)" "by_id input j = Some w"
      by (auto simp: List.map_filter_def)
    from by_id_in [OF j(2)] j show "(i, gt_id w) \<in> (set (blocks input))\<^sup>+ \<and> by_id input (gt_id w) = Some w"
      by (auto simp: set_reached_from)
  next
    assume "(i, gt_id w) \<in> (set (blocks input))\<^sup>+ \<and> by_id input (gt_id w) = Some w"
    then show "w \<in> set (List.map_filter (by_id input) (reached_from input i))"
      by (auto simp: List.map_filter_def set_reached_from image_iff intro!: exI [of _ "gt_id w"])
  qed
  have eff: "effective input i = effective_priority (gt_priority t) (List.map_filter (by_id input) (reached_from input i))"
    using assms by (simp add: effective_def reach_def)
  show ?thesis unfolding eff effective_priority_ge Bex_def waiter by blast
qed

text \<open>Waiting is passed on: whoever a ready task waits for is at least as urgent as it.\<close>

lemma effective_mono:
  assumes "by_id input i = Some t" and "by_id input j = Some w" and "(i, j) \<in> (set (blocks input))\<^sup>+"
    and "raises w"
  shows "effective input j \<le> effective input i"
proof -
  have j: "gt_id w = j" using by_id_in [OF assms(2)] by simp
  have "effective input j \<le> gt_priority w
      \<or> (\<exists>v. (j, gt_id v) \<in> (set (blocks input))\<^sup>+ \<and> by_id input (gt_id v) = Some v \<and> raises v
           \<and> effective input j \<le> gt_priority v)"
    using effective_ge [OF assms(2), of "effective input j"] by simp
  then show ?thesis
    unfolding effective_ge [OF assms(1)] using assms(2-4) j by (blast intro: trancl_trans)
qed

lemma graph_candidates_set:
  "set (graph_candidates input g) =
     {i \<in> set (gi_candidates input). g = None \<or> i \<in> set (goal_ids input g)}"
  by (simp add: graph_candidates_def)

lemma claim_rank_le:
  "claim_rank input i \<le> claim_rank input j \<longleftrightarrow>
     effective input j < effective input i
     \<or> effective input i = effective input j
       \<and> (unblocks_count input j < unblocks_count input i
          \<or> unblocks_count input i = unblocks_count input j \<and> i \<le> j)"
proof -
  have "Priority_as_i64 p = Priority_as_i64 q \<longleftrightarrow> p = q" for p q
    by (cases p; cases q) simp_all
  then show ?thesis
    by (auto simp: claim_rank_def ClaimRank_new_def less_eq_prod_def less_priority_def)
qed

subsection \<open>Properties\<close>

text \<open>
  C8: the claim order is the claimable tasks, each as often as the queue names it, by effective
  priority (highest first), then by the number of unfinished tasks that wait for them (most first),
  then by id; and a task a ready task waits for, directly or not, is never less urgent than it.
\<close>

theorem claim_order_sorted:
  "mset (graph_candidates input None) = mset (gi_candidates input)
   \<and> sorted_wrt (\<lambda>i j. effective input j < effective input i
        \<or> effective input i = effective input j
          \<and> (unblocks_count input j < unblocks_count input i
             \<or> unblocks_count input i = unblocks_count input j \<and> i \<le> j))
      (graph_candidates input g)
   \<and> (\<forall>i j t w. by_id input i = Some t \<and> by_id input j = Some w \<and> raises w
        \<and> (i, j) \<in> (set (blocks input))\<^sup>+ \<longrightarrow> effective input j \<le> effective input i)"
proof -
  have "sorted (map (claim_rank input) (graph_candidates input g))"
    by (simp add: graph_candidates_def)
  then have "sorted_wrt (\<lambda>i j. claim_rank input i \<le> claim_rank input j) (graph_candidates input g)"
    by (simp add: sorted_map)
  then show ?thesis
    unfolding claim_rank_le using effective_mono by (auto simp: graph_candidates_def)
qed

definition sample_graph :: graph_input where
  "sample_graph =
     \<lparr>gi_tasks =
        [\<lparr>gt_id = 1, gt_status = Ready, gt_priority = Normal, gt_title = ''a'', gt_goal_id = Some 5,
          gt_goal_status = Some GoalOpen, gt_depends_on = [], gt_goal_dependencies = []\<rparr>,
         \<lparr>gt_id = 2, gt_status = Ready, gt_priority = High, gt_title = ''b'', gt_goal_id = None,
          gt_goal_status = None, gt_depends_on = [],
          gt_goal_dependencies = [\<lparr>ggd_goal_id = 5, ggd_verdict = None\<rparr>]\<rparr>],
      gi_candidates = [1]\<rparr>"

lemma sample_graph_blocks: "(1, 2) \<in> set (blocks sample_graph)"
  by (simp add: set_blocks sample_graph_def members_def)

theorem claim_order_witness: "effective sample_graph 2 \<le> effective sample_graph 1"
proof -
  have "\<exists>t. by_id sample_graph 1 = Some t" "\<exists>w. by_id sample_graph 2 = Some w \<and> raises w"
    by (simp_all add: by_id_def sample_graph_def raises_def)
  moreover have "(1, 2) \<in> (set (blocks sample_graph))\<^sup>+" using sample_graph_blocks by (rule r_into_trancl)
  ultimately show ?thesis using claim_order_sorted [of sample_graph] by blast
qed

text \<open>
  C17: when the dependencies have no cycle, computing the view ends, and each node shows what it
  claims: \<open>unblocks\<close> is the number of unfinished tasks that depend on it directly or not, \<open>blocks\<close>
  those that do so directly, in ascending order.
\<close>

theorem dependency_graph_ends:
  assumes "acyclic (set (blocks input))"
  shows "\<exists>graph. dependency_graph input g = Some graph
    \<and> (\<forall>n \<in> set (dg_tasks graph).
         gn_unblocks n = card {t. (gn_id n, t) \<in> (set (blocks input))\<^sup>+}
         \<and> set (gn_blocks n) = {t. (gn_id n, t) \<in> set (blocks input)})"
proof -
  obtain c where c: "critical_loop input (critical_start input g) [] = Some c"
    using critical_loop_ends [OF assms] by blast
  have "gn_unblocks n = card {t. (gn_id n, t) \<in> (set (blocks input))\<^sup>+}
      \<and> set (gn_blocks n) = {t. (gn_id n, t) \<in> set (blocks input)}"
    if "n \<in> graph_node_of input ` {t \<in> set (gi_tasks input). gt_id t \<in> set (goal_ids input g)}" for n
    using that by_id_ex unblocks_card by (fastforce simp: graph_node_of_def)
  then show ?thesis by (simp add: dependency_graph_def c)
qed

theorem dependency_graph_ends_witness: "\<exists>graph. dependency_graph sample_graph None = Some graph"
proof -
  have "set (blocks sample_graph) = {(1, 2)}"
    by (auto simp: set_blocks sample_graph_def members_def)
  then have "acyclic (set (blocks sample_graph))" by (intro acyclicI_order [of _ uminus]) auto
  from dependency_graph_ends [OF this, of None] show ?thesis by blast
qed

end
