(* ===== verification/Queue_Store.thy ===== *)
theory Queue_Store
  imports Run_Aggregate Proposal_Aggregate Claim_Graph "HOL-Library.AList"
begin

text \<open>
  The queue's tables (\<^verbatim>\<open>src/src/infrastructure/sqlite.rs\<close>, \<^verbatim>\<open>src/migrations\<close>) as one record, the
  rows read from them and the statements the operations share. A table is the list of its rows in
  the order of insertion; a column that is not a field of its aggregate (\<open>proposal_id\<close>,
  \<open>follow_up_depth\<close>) is an association list. A transaction is a function from the queue to an error
  (the transaction rolls back) or its result with the queue it commits. The time SQLite gives a row
  by default is a field, and the times and ids the code takes from its generators are arguments.
  The session spans \<open>event\<close> also follows (another table) are not part of this state.
\<close>

subsection \<open>State\<close>

datatype store_error =
    Domain domain_error
  | RowRejected domain_error
  | Message string

type_synonym 'a stored = "(store_error, 'a) result"

record proposal_row =
  pr_id :: proposal_id
  pr_status :: proposal_status
  pr_owner :: planner_owner
  pr_submitted_at :: string
  pr_revise_count :: nat
  pr_created_at :: string
  pr_updated_at :: string

record queue =
  q_tasks :: "task list"
  q_task_proposal :: "(task_id \<times> proposal_id) list"
  q_follow_up_depth :: "(task_id \<times> int) list"
  q_goals :: "goal list"
  q_goal_proposal :: "(goal_id \<times> proposal_id) list"
  q_deps :: "(task_id \<times> task_id) list"
  q_goal_deps :: "(task_id \<times> goal_id) list"
  q_runs :: "task_run list"
  q_proposals :: "proposal_row list"
  q_events :: "run_event list"
  q_task_seq :: int
  q_goal_seq :: int
  q_event_seq :: int
  q_clock :: string

definition empty_queue :: queue where
  "empty_queue =
     \<lparr>q_tasks = [], q_task_proposal = [], q_follow_up_depth = [], q_goals = [], q_goal_proposal = [],
      q_deps = [], q_goal_deps = [], q_runs = [], q_proposals = [], q_events = [],
      q_task_seq = 0, q_goal_seq = 0, q_event_seq = 0, q_clock = ''''\<rparr>"

fun lift :: "'a checked \<Rightarrow> 'a stored" where
  "lift (Inl e) = Inl (Domain e)"
| "lift (Inr x) = Inr x"

definition ensure :: "bool \<Rightarrow> string \<Rightarrow> unit stored" where
  "ensure c message = require c (Message message)"

lemma lift_Inr [simp]: "lift r = Inr x \<longleftrightarrow> r = Inr x"
  by (cases r) auto

lemma ensure_Inr [simp]: "ensure c message = Inr u \<longleftrightarrow> c"
  by (simp add: ensure_def)

subsection \<open>Reading rows\<close>

definition task_row :: "task \<Rightarrow> task stored" where
  "task_row row = (case Task_restore row of Inl e \<Rightarrow> Inl (RowRejected e) | Inr t \<Rightarrow> Inr t)"

definition goal_row :: "goal \<Rightarrow> goal stored" where
  "goal_row row = (case Goal_restore row of Inl e \<Rightarrow> Inl (RowRejected e) | Inr g \<Rightarrow> Inr g)"

definition run_row :: "string \<Rightarrow> task_run \<Rightarrow> task_run stored" where
  "run_row runs_dir row =
     (case TaskRun_restore row of Inl e \<Rightarrow> Inl (RowRejected e) | Inr r \<Rightarrow> Inr (relocated r runs_dir))"

text \<open>\<open>collect\<close> of the rows: the first that fails fails the query.\<close>

fun collect :: "('a \<Rightarrow> 'b stored) \<Rightarrow> 'a list \<Rightarrow> 'b list stored" where
  "collect f [] = Inr []"
| "collect f (x # xs) = and_then (f x) (\<lambda>y. and_then (collect f xs) (\<lambda>ys. Inr (y # ys)))"

definition read_task :: "queue \<Rightarrow> task_id \<Rightarrow> task stored" where
  "read_task q i =
     (case find (\<lambda>t. task_id t = i) (q_tasks q) of
        None \<Rightarrow> Inl (Message (''task '' @ show_int i @ '' does not exist''))
      | Some t \<Rightarrow> task_row t)"

definition read_goal :: "queue \<Rightarrow> goal_id \<Rightarrow> goal stored" where
  "read_goal q i =
     (case find (\<lambda>g. goal_id g = i) (q_goals q) of
        None \<Rightarrow> Inl (Message (''goal '' @ show_int i @ '' does not exist''))
      | Some g \<Rightarrow> goal_row g)"

definition next_id :: "int \<Rightarrow> int list \<Rightarrow> int" where
  "next_id seq ids = max seq (fold max ids 0) + 1"

definition unfinished :: "run_status \<Rightarrow> bool" where
  "unfinished s =
     (s \<in> {Claimed, Starting, Running, Validating, AwaitingIntegration, Integrating, NeedsSession})"

definition has_unfinished_run :: "queue \<Rightarrow> task_id \<Rightarrow> bool" where
  "has_unfinished_run q i = list_ex (\<lambda>r. run_task_id r = i \<and> unfinished (run_status r)) (q_runs q)"

definition task_counts :: "queue \<Rightarrow> goal_id \<Rightarrow> task_status_counts" where
  "task_counts q g =
     (let statuses = map task_status (filter (\<lambda>t. task_goal_id t = Some g) (q_tasks q))
      in fold (\<lambda>s c. TaskStatusCounts_count c s (count_list statuses s))
           (remdups statuses) no_counts)"

subsection \<open>Writing\<close>

definition insert_event ::
  "task_id option \<Rightarrow> goal_id option \<Rightarrow> run_id option \<Rightarrow> string \<Rightarrow> json \<Rightarrow> queue \<Rightarrow> queue" where
  "insert_event t g r kind payload q =
     (let i = next_id (q_event_seq q) (map ev_id (q_events q))
      in q\<lparr>q_events := q_events q @
             [\<lparr>ev_id = i, ev_task_id = t, ev_goal_id = g, ev_run_id = r, ev_kind = kind,
               ev_payload = payload, ev_created_at = q_clock q\<rparr>],
           q_event_seq := i\<rparr>)"

definition event :: "task_id \<Rightarrow> run_id option \<Rightarrow> string \<Rightarrow> json \<Rightarrow> queue \<Rightarrow> queue" where
  "event t r kind payload = insert_event (Some t) None r kind payload"

definition goal_event :: "goal_id \<Rightarrow> string \<Rightarrow> json \<Rightarrow> queue \<Rightarrow> queue" where
  "goal_event g kind payload = insert_event None (Some g) None kind payload"

definition update_tasks :: "(task \<Rightarrow> bool) \<Rightarrow> (task \<Rightarrow> task) \<Rightarrow> queue \<Rightarrow> queue" where
  "update_tasks p f q = q\<lparr>q_tasks := map (\<lambda>t. if p t then f t else t) (q_tasks q)\<rparr>"

definition update_goals :: "(goal \<Rightarrow> bool) \<Rightarrow> (goal \<Rightarrow> goal) \<Rightarrow> queue \<Rightarrow> queue" where
  "update_goals p f q = q\<lparr>q_goals := map (\<lambda>g. if p g then f g else g) (q_goals q)\<rparr>"

definition touch :: "task_id \<Rightarrow> string \<Rightarrow> queue \<Rightarrow> queue" where
  "touch i now = update_tasks (\<lambda>t. task_id t = i) (\<lambda>t. t\<lparr>task_updated_at := now\<rparr>)"

definition status_json :: "task_status \<Rightarrow> json" where
  "status_json s = JStr (TaskStatus_as_str s)"

definition id_json :: "int option \<Rightarrow> json" where
  "id_json i = (case i of None \<Rightarrow> JNull | Some n \<Rightarrow> JInt n)"

subsection \<open>Moving a task\<close>

definition status_row :: "task_id \<Rightarrow> task_status \<Rightarrow> task_status \<Rightarrow> string \<Rightarrow> queue \<Rightarrow> queue" where
  "status_row i from s now q =
     update_tasks (\<lambda>r. task_id r = i \<and> task_status r = from)
       (\<lambda>r. r\<lparr>task_status := s, task_updated_at := now\<rparr>) q"

definition rows_in :: "task_id \<Rightarrow> task_status \<Rightarrow> queue \<Rightarrow> nat" where
  "rows_in i s q = length (filter (\<lambda>r. task_id r = i \<and> task_status r = s) (q_tasks q))"

definition record_transition ::
  "task_id \<Rightarrow> task_action \<Rightarrow> task_status \<Rightarrow> task_status \<Rightarrow> task_id option \<Rightarrow> queue \<Rightarrow> queue" where
  "record_transition i action from to duplicate_of q =
     (let q = (if action = ActBypassReview
               then q\<lparr>q_follow_up_depth := AList.update i 0 (q_follow_up_depth q)\<rparr> else q);
          q = event i None ''task_status_changed''
                (JObj ([(''from'', status_json from), (''to'', status_json to)]
                       @ (case duplicate_of of None \<Rightarrow> [] | Some d \<Rightarrow> [(''duplicate_of'', JInt d)]))) q
      in if action = ActBypassReview
         then event i None ''review_bypassed'' (JObj [(''from'', status_json from)]) q else q)"

definition apply_transition ::
  "task_id \<Rightarrow> task_action \<Rightarrow> string \<Rightarrow> task_id option \<Rightarrow> queue \<Rightarrow> (task \<times> queue) stored" where
  "apply_transition i action now duplicate_of q =
     and_then (read_task q i) (\<lambda>t0.
     and_then (lift (task_transition t0 action (has_unfinished_run q i))) (\<lambda>t.
     and_then (ensure (rows_in i (task_status t0) q = 1)
                 (''task '' @ show_int i @ '' changed concurrently'')) (\<lambda>_.
     let q = record_transition i action (task_status t0) (task_status t) duplicate_of
               (status_row i (task_status t0) (task_status t) now q)
     in and_then (read_task q i) (\<lambda>t. Inr (t, q)))))"

definition transition_task :: "task_id \<Rightarrow> task_action \<Rightarrow> string \<Rightarrow> queue \<Rightarrow> (task \<times> queue) stored" where
  "transition_task i action now q = apply_transition i action now None q"

text \<open>
  The task a task was canceled as a duplicate of: the \<open>duplicate_of\<close> of its latest
  \<open>task_status_changed\<close> (by id), while that event canceled it.
\<close>

definition latest_status_event :: "queue \<Rightarrow> task_id \<Rightarrow> run_event option" where
  "latest_status_event q i =
     min_by_key (\<lambda>e. - ev_id e)
       (filter (\<lambda>e. ev_task_id e = Some i \<and> ev_kind e = ''task_status_changed'') (q_events q))"

definition duplicate_target :: "queue \<Rightarrow> task_id \<Rightarrow> task_id option" where
  "duplicate_target q i =
     (case latest_status_event q i of
        None \<Rightarrow> None
      | Some e \<Rightarrow>
          (if as_str (json_index (ev_payload e) ''to'') = Some (TaskStatus_as_str Canceled)
           then as_i64 (json_index (ev_payload e) ''duplicate_of'') else None))"

definition cancel_as_duplicate ::
  "task_id \<Rightarrow> task_id \<Rightarrow> string \<Rightarrow> queue \<Rightarrow> (task \<times> queue) stored" where
  "cancel_as_duplicate i duplicate_of now q =
     and_then (ensure (i \<noteq> duplicate_of)
                 (''task '' @ show_int i @ '' cannot be a duplicate of itself'')) (\<lambda>_.
     and_then (read_task q duplicate_of) (\<lambda>target.
     if task_status target = Canceled
     then (case duplicate_target q duplicate_of of
             Some original \<Rightarrow>
               Inl (Message (''task '' @ show_int duplicate_of @ '' is canceled as a duplicate of task ''
                 @ show_int original @ ''; pass --duplicate-of '' @ show_int original))
           | None \<Rightarrow>
               Inl (Message (''task '' @ show_int duplicate_of
                 @ '' is canceled; a duplicate needs a task that is not'')))
     else apply_transition i ActCancel now (Some duplicate_of) q))"

definition duplicates_of :: "queue \<Rightarrow> task_id \<Rightarrow> task_id list" where
  "duplicates_of q i =
     filter (\<lambda>c. duplicate_target q c = Some i)
       (sort_dedup (List.map_filter
          (\<lambda>e. if ev_kind e = ''task_status_changed''
                   \<and> json_index (ev_payload e) ''duplicate_of'' = JInt i
                   \<and> list_ex (\<lambda>t. ev_task_id e = Some (task_id t) \<and> task_status t = Canceled) (q_tasks q)
               then ev_task_id e else None) (q_events q)))"

subsection \<open>The claimable tasks\<close>

definition ready_row :: "queue \<Rightarrow> task \<Rightarrow> bool" where
  "ready_row q t =
     (task_status t = Ready
      \<and> \<not> list_ex (\<lambda>g. Some (goal_id g) = task_goal_id t \<and> goal_status g = GoalDraft) (q_goals q)
      \<and> \<not> list_ex (\<lambda>(i, p). i = task_id t
              \<and> list_ex (\<lambda>r. task_id r = p \<and> task_status r \<noteq> Completed) (q_tasks q)) (q_deps q)
      \<and> \<not> list_ex (\<lambda>(i, g). i = task_id t
              \<and> list_ex (\<lambda>r. goal_id r = g
                   \<and> \<not> (goal_closed_at r \<noteq> None \<and> goal_verdict r = Some Achieved)) (q_goals q)) (q_goal_deps q)
      \<and> \<not> list_ex (\<lambda>r. run_task_id r = task_id t \<and> unfinished (run_status r)) (q_runs q))"

definition ready_query :: "queue \<Rightarrow> task list" where
  "ready_query q = sort_key task_id (filter (ready_row q) (q_tasks q))"

definition ready_tasks :: "queue \<Rightarrow> task list stored" where
  "ready_tasks q = collect task_row (ready_query q)"

subsection \<open>Facts about the rows\<close>

lemma task_row_Inr: "task_row row = Inr t \<longleftrightarrow> Task_restore row = Inr t"
  by (auto simp: task_row_def split: sum.splits)

lemma goal_row_Inr: "goal_row row = Inr g \<longleftrightarrow> Goal_restore row = Inr g"
  by (auto simp: goal_row_def split: sum.splits)

lemma Task_restore_same: "Task_restore row = Inr t \<Longrightarrow> t = row"
  by (auto simp: Task_restore_def)

lemma read_task_Inr:
  "read_task q i = Inr t \<Longrightarrow> t \<in> set (q_tasks q) \<and> task_id t = i"
  by (auto simp: read_task_def task_row_Inr find_Some_iff dest!: Task_restore_same split: option.splits)

lemma read_goal_Inr:
  "read_goal q i = Inr g \<Longrightarrow> g \<in> set (q_goals q) \<and> goal_id g = i \<and> goal_ok g"
  by (auto simp: read_goal_def goal_row_Inr find_Some_iff Goal_restore_iff split: option.splits)

lemma collect_Inr: "collect f xs = Inr ys \<Longrightarrow> list_all2 (\<lambda>x y. f x = Inr y) xs ys"
  by (induction xs arbitrary: ys) auto

lemma ready_tasks_Inr: "ready_tasks q = Inr ts \<Longrightarrow> ts = ready_query q"
proof -
  assume "ready_tasks q = Inr ts"
  then have "list_all2 (\<lambda>x y. task_row x = Inr y) (ready_query q) ts"
    by (simp add: ready_tasks_def collect_Inr)
  then have "list_all2 (=) (ready_query q) ts"
    by (rule list_all2_mono) (auto simp: task_row_Inr dest: Task_restore_same)
  then show ?thesis by (simp add: list.rel_eq)
qed

lemma fold_max_ge: "(x::int) \<le> fold max xs m \<longleftrightarrow> x \<le> m \<or> (\<exists>y \<in> set xs. x \<le> y)"
  by (induction xs arbitrary: m) (auto simp: le_max_iff_disj)

lemma next_id_fresh: "i \<in> set ids \<Longrightarrow> i < next_id seq ids" "seq < next_id seq ids" "0 < next_id seq ids"
proof -
  have "x \<le> fold max ids 0" if "x = 0 \<or> x \<in> set ids" for x :: int
    using that fold_max_ge [of x ids 0] by auto
  then show "i \<in> set ids \<Longrightarrow> i < next_id seq ids" "seq < next_id seq ids" "0 < next_id seq ids"
    by (force simp: next_id_def)+
qed

text \<open>The tables each statement leaves alone.\<close>

lemma insert_event_tables [simp]:
  "q_tasks (insert_event t g r k p q) = q_tasks q" "q_goals (insert_event t g r k p q) = q_goals q"
  "q_deps (insert_event t g r k p q) = q_deps q" "q_goal_deps (insert_event t g r k p q) = q_goal_deps q"
  "q_runs (insert_event t g r k p q) = q_runs q" "q_proposals (insert_event t g r k p q) = q_proposals q"
  "q_task_seq (insert_event t g r k p q) = q_task_seq q" "q_goal_seq (insert_event t g r k p q) = q_goal_seq q"
  "q_task_proposal (insert_event t g r k p q) = q_task_proposal q"
  "q_goal_proposal (insert_event t g r k p q) = q_goal_proposal q"
  by (simp_all add: insert_event_def Let_def)

lemma update_tasks_tables [simp]:
  "q_tasks (update_tasks p f q) = map (\<lambda>t. if p t then f t else t) (q_tasks q)"
  "q_goals (update_tasks p f q) = q_goals q" "q_deps (update_tasks p f q) = q_deps q"
  "q_goal_deps (update_tasks p f q) = q_goal_deps q" "q_runs (update_tasks p f q) = q_runs q"
  "q_proposals (update_tasks p f q) = q_proposals q" "q_task_seq (update_tasks p f q) = q_task_seq q"
  "q_goal_seq (update_tasks p f q) = q_goal_seq q" "q_events (update_tasks p f q) = q_events q"
  "q_task_proposal (update_tasks p f q) = q_task_proposal q"
  "q_goal_proposal (update_tasks p f q) = q_goal_proposal q"
  by (simp_all add: update_tasks_def)

lemma update_goals_tables [simp]:
  "q_goals (update_goals p f q) = map (\<lambda>g. if p g then f g else g) (q_goals q)"
  "q_tasks (update_goals p f q) = q_tasks q" "q_deps (update_goals p f q) = q_deps q"
  "q_goal_deps (update_goals p f q) = q_goal_deps q" "q_runs (update_goals p f q) = q_runs q"
  "q_proposals (update_goals p f q) = q_proposals q" "q_task_seq (update_goals p f q) = q_task_seq q"
  "q_goal_seq (update_goals p f q) = q_goal_seq q" "q_events (update_goals p f q) = q_events q"
  by (simp_all add: update_goals_def)

end
