(* ===== verification/Queue_Graph.thy ===== *)
theory Queue_Graph
  imports Queue_Store
begin

text \<open>
  The wait graph of the queue and the operations that change it (\<^verbatim>\<open>src/src/infrastructure/sqlite.rs\<close>):
  a task waits for its predecessors and the goals it depends on, a goal for its tasks. Every operation
  that adds an edge asks \<open>waits_for\<close> first, so the graph stays acyclic. The recursive query is
  the worklist search over the edges of the three tables.
\<close>

subsection \<open>The wait graph\<close>

datatype node = NTask task_id | NGoal goal_id

definition membership_edges :: "(task_id \<times> goal_id option) list \<Rightarrow> (node \<times> node) list" where
  "membership_edges rows =
     List.map_filter (\<lambda>(i, g). map_option (\<lambda>g. (NGoal g, NTask i)) g) rows"

definition task_goals :: "queue \<Rightarrow> (task_id \<times> goal_id option) list" where
  "task_goals q = map (\<lambda>t. (task_id t, task_goal_id t)) (q_tasks q)"

definition wait_edges :: "queue \<Rightarrow> (node \<times> node) list" where
  "wait_edges q =
     map (\<lambda>(i, p). (NTask i, NTask p)) (q_deps q)
     @ map (\<lambda>(i, g). (NTask i, NGoal g)) (q_goal_deps q)
     @ membership_edges (task_goals q)"

definition waits_for :: "queue \<Rightarrow> node \<Rightarrow> node \<Rightarrow> bool" where
  "waits_for q from to = (to \<in> set (explore (wait_edges q) [from] []))"

subsection \<open>Dependencies\<close>

definition insert_dependency :: "task_id \<Rightarrow> string \<Rightarrow> task_id \<Rightarrow> queue \<Rightarrow> queue stored" where
  "insert_dependency i now predecessor q =
     and_then (lift (check_not_self i predecessor)) (\<lambda>_.
     and_then (read_task q i) (\<lambda>t.
     and_then (lift (check_dependencies_editable t)) (\<lambda>_.
     and_then (read_task q predecessor) (\<lambda>_.
     and_then (lift (check_acyclic i predecessor (waits_for q (NTask predecessor) (NTask i)))) (\<lambda>_.
     Inr (if (i, predecessor) \<in> set (q_deps q) then q
          else event i None ''dependency_added'' (JObj [(''predecessor_id'', JInt predecessor)])
                 (touch i now (q\<lparr>q_deps := q_deps q @ [(i, predecessor)]\<rparr>))))))))"

definition insert_goal_dependency :: "task_id \<Rightarrow> string \<Rightarrow> goal_id \<Rightarrow> queue \<Rightarrow> queue stored" where
  "insert_goal_dependency i now g q =
     and_then (read_task q i) (\<lambda>t.
     and_then (lift (check_dependencies_editable t)) (\<lambda>_.
     and_then (read_goal q g) (\<lambda>_.
     and_then (lift (check_not_own_goal t g)) (\<lambda>_.
     and_then (lift (check_goal_acyclic i g (waits_for q (NGoal g) (NTask i)))) (\<lambda>_.
     Inr (if (i, g) \<in> set (q_goal_deps q) then q
          else event i None ''goal_dependency_added'' (JObj [(''goal_id'', JInt g)])
                 (touch i now (q\<lparr>q_goal_deps := q_goal_deps q @ [(i, g)]\<rparr>))))))))"

definition remove_dependency :: "task_id \<Rightarrow> string \<Rightarrow> task_id \<Rightarrow> queue \<Rightarrow> queue stored" where
  "remove_dependency i now predecessor q =
     and_then (read_task q i) (\<lambda>t.
     and_then (lift (check_dependencies_editable t)) (\<lambda>_.
     and_then (ensure (length (filter (\<lambda>d. d = (i, predecessor)) (q_deps q)) = 1)
                 (''dependency '' @ show_int i @ '' -> '' @ show_int predecessor @ '' does not exist'')) (\<lambda>_.
     Inr (event i None ''dependency_removed'' (JObj [(''predecessor_id'', JInt predecessor)])
            (touch i now (q\<lparr>q_deps := filter (\<lambda>d. d \<noteq> (i, predecessor)) (q_deps q)\<rparr>))))))"

definition remove_goal_dependency :: "task_id \<Rightarrow> string \<Rightarrow> goal_id \<Rightarrow> queue \<Rightarrow> queue stored" where
  "remove_goal_dependency i now g q =
     and_then (read_task q i) (\<lambda>t.
     and_then (lift (check_dependencies_editable t)) (\<lambda>_.
     and_then (ensure (length (filter (\<lambda>d. d = (i, g)) (q_goal_deps q)) = 1)
                 (''dependency '' @ show_int i @ '' -> goal '' @ show_int g @ '' does not exist'')) (\<lambda>_.
     Inr (event i None ''goal_dependency_removed'' (JObj [(''goal_id'', JInt g)])
            (touch i now (q\<lparr>q_goal_deps := filter (\<lambda>d. d \<noteq> (i, g)) (q_goal_deps q)\<rparr>))))))"

subsection \<open>Membership\<close>

definition move_row :: "task_id \<Rightarrow> goal_id option \<Rightarrow> string \<Rightarrow> queue \<Rightarrow> queue" where
  "move_row i g now q =
     update_tasks (\<lambda>r. task_id r = i) (\<lambda>r. r\<lparr>task_goal_id := g, task_updated_at := now\<rparr>) q"

definition store_set_goal :: "task_id \<Rightarrow> goal_id option \<Rightarrow> string \<Rightarrow> queue \<Rightarrow> (task \<times> queue) stored" where
  "store_set_goal i g now q =
     and_then (read_task q i) (\<lambda>t0.
     and_then (lift (set_goal t0 g)) (\<lambda>t.
     and_then (case task_goal_id t of
                 None \<Rightarrow> Inr ()
               | Some g' \<Rightarrow>
                   and_then (read_goal q g') (\<lambda>goal.
                   and_then (lift (check_accepts_tasks goal)) (\<lambda>_.
                   if task_goal_id t0 \<noteq> Some g'
                   then lift (check_membership_acyclic t g' ((i, g') \<in> set (q_goal_deps q))
                                (waits_for q (NTask i) (NGoal g')))
                   else Inr ()))) (\<lambda>_.
     let q = (if task_goal_id t0 \<noteq> task_goal_id t
              then event i None ''task_goal_changed''
                     (JObj [(''from'', id_json (task_goal_id t0)), (''to'', id_json (task_goal_id t))])
                     (move_row i (task_goal_id t) now q)
              else q)
     in and_then (read_task q i) (\<lambda>t. Inr (t, q)))))"

definition insert_task :: "new_task \<Rightarrow> string \<Rightarrow> queue \<Rightarrow> (task \<times> queue) stored" where
  "insert_task new now q =
     (let i = next_id (q_task_seq q) (map task_id (q_tasks q))
      in and_then (lift (Task_new i new now)) (\<lambda>t.
         and_then (case task_goal_id t of
                     None \<Rightarrow> Inr ()
                   | Some g \<Rightarrow> and_then (read_goal q g) (\<lambda>goal. lift (check_accepts_tasks goal))) (\<lambda>_.
         let q = event i None ''task_created'' (JObj [(''goal_id'', id_json (task_goal_id t))])
                   (q\<lparr>q_tasks := q_tasks q @ [t], q_task_seq := i\<rparr>)
         in and_then (exec_all (insert_dependency i now) (nt_dependencies new) q) (\<lambda>q.
            and_then (exec_all (insert_goal_dependency i now) (nt_goal_dependencies new) q) (\<lambda>q.
            and_then (read_task q i) (\<lambda>t. Inr (t, q)))))))"

subsection \<open>The search decides waiting\<close>

lemma waits_for_rtrancl: "waits_for q from to \<longleftrightarrow> (from, to) \<in> (set (wait_edges q))\<^sup>*"
  by (simp add: waits_for_def explore_reach)

lemma set_wait_edges:
  "set (wait_edges q) =
     (\<lambda>(i, p). (NTask i, NTask p)) ` set (q_deps q)
     \<union> (\<lambda>(i, g). (NTask i, NGoal g)) ` set (q_goal_deps q)
     \<union> {(NGoal g, NTask i) |i g. (i, Some g) \<in> set (task_goals q)}"
  by (force simp: wait_edges_def membership_edges_def List.map_filter_def image_iff)

text \<open>
  The invariant of the graph: ids are unique and below the sequence, edges join rows that exist, and
  no task or goal waits for itself.
\<close>

definition ids_of :: "queue \<Rightarrow> task_id set" where "ids_of q = fst ` set (task_goals q)"
definition goals_of :: "queue \<Rightarrow> goal_id set" where "goals_of q = goal_id ` set (q_goals q)"

definition deps_ok :: "task_id set \<Rightarrow> goal_id set \<Rightarrow> queue \<Rightarrow> bool" where
  "deps_ok ts gs q \<longleftrightarrow> set (q_deps q) \<subseteq> ts \<times> ts \<and> set (q_goal_deps q) \<subseteq> ts \<times> gs"

definition rows_ok :: "queue \<Rightarrow> bool" where
  "rows_ok q \<longleftrightarrow>
     distinct (map fst (task_goals q)) \<and> distinct (map goal_id (q_goals q))
     \<and> ids_of q \<subseteq> {0<..q_task_seq q} \<and> goals_of q \<subseteq> {0<..q_goal_seq q}
     \<and> {g. \<exists>i. (i, Some g) \<in> set (task_goals q)} \<subseteq> goals_of q"

definition graph_ok :: "queue \<Rightarrow> bool" where
  "graph_ok q \<longleftrightarrow> rows_ok q \<and> deps_ok (ids_of q) (goals_of q) q \<and> acyclic (set (wait_edges q))"

lemma graph_ok_cong:
  assumes "task_goals q' = task_goals q" "map goal_id (q_goals q') = map goal_id (q_goals q)"
    "q_deps q' = q_deps q" "q_goal_deps q' = q_goal_deps q"
    "q_task_seq q' = q_task_seq q" "q_goal_seq q' = q_goal_seq q"
  shows "graph_ok q' = graph_ok q"
proof -
  have g: "goals_of q' = goals_of q" using assms(2) unfolding goals_of_def by (metis list.set_map)
  have i: "ids_of q' = ids_of q" and w: "wait_edges q' = wait_edges q"
    by (simp_all only: ids_of_def wait_edges_def assms)
  show ?thesis unfolding graph_ok_def rows_ok_def deps_ok_def g i w assms ..
qed

lemma task_goals_event [simp]: "task_goals (insert_event t g r k p q) = task_goals q"
  by (simp add: task_goals_def)

lemma task_goals_update:
  assumes "\<And>t. p t \<Longrightarrow> task_id (f t) = task_id t \<and> task_goal_id (f t) = task_goal_id t"
  shows "task_goals (update_tasks p f q) = task_goals q"
  using assms by (auto simp: task_goals_def)

lemma graph_ok_event [simp]: "graph_ok (insert_event t g r k p q) = graph_ok q"
  by (rule graph_ok_cong) simp_all

lemma touch_tables [simp]:
  "task_goals (touch i now q) = task_goals q" "q_deps (touch i now q) = q_deps q"
  "q_goal_deps (touch i now q) = q_goal_deps q" "q_goals (touch i now q) = q_goals q"
  "q_runs (touch i now q) = q_runs q"
  "q_task_seq (touch i now q) = q_task_seq q" "q_goal_seq (touch i now q) = q_goal_seq q"
  by (simp_all add: touch_def task_goals_update)

lemma graph_ok_touch [simp]: "graph_ok (touch i now q) = graph_ok q"
  by (rule graph_ok_cong) simp_all

lemma read_task_ids: "read_task q i = Inr t \<Longrightarrow> i \<in> ids_of q"
  using read_task_Inr [of q i t] by (force simp: ids_of_def task_goals_def)

lemma read_goal_ids: "read_goal q g = Inr goal \<Longrightarrow> g \<in> goals_of q"
  using read_goal_Inr [of q g goal] by (force simp: goals_of_def)

text \<open>Adding an edge that closes no cycle.\<close>

lemma acyclic_add_edge:
  assumes "acyclic r" and "(y, x) \<notin> r\<^sup>*" and "s \<subseteq> insert (x, y) r"
  shows "acyclic s"
proof -
  have "acyclic (insert (x, y) r)" using assms(1,2) by (simp add: acyclic_insert)
  then show ?thesis using assms(3) by (rule acyclic_subset)
qed

lemma deps_update_same [simp]:
  "task_goals (q\<lparr>q_deps := ds\<rparr>) = task_goals q" "task_goals (q\<lparr>q_goal_deps := gs\<rparr>) = task_goals q"
  "ids_of (q\<lparr>q_deps := ds\<rparr>) = ids_of q" "ids_of (q\<lparr>q_goal_deps := gs\<rparr>) = ids_of q"
  "goals_of (q\<lparr>q_deps := ds\<rparr>) = goals_of q" "goals_of (q\<lparr>q_goal_deps := gs\<rparr>) = goals_of q"
  by (simp_all add: task_goals_def ids_of_def goals_of_def)

lemma rows_update_same [simp]:
  "rows_ok (q\<lparr>q_deps := ds\<rparr>) = rows_ok q" "rows_ok (q\<lparr>q_goal_deps := gs\<rparr>) = rows_ok q"
  by (simp_all add: rows_ok_def)

lemma graph_ok_add_dep:
  assumes "graph_ok q" "i \<in> ids_of q" "p \<in> ids_of q" "\<not> waits_for q (NTask p) (NTask i)"
  shows "graph_ok (q\<lparr>q_deps := q_deps q @ [(i, p)]\<rparr>)"
proof -
  let ?q = "q\<lparr>q_deps := q_deps q @ [(i, p)]\<rparr>"
  have "set (wait_edges ?q) \<subseteq> insert (NTask i, NTask p) (set (wait_edges q))"
    by (auto simp: set_wait_edges)
  then have "acyclic (set (wait_edges ?q))"
    by (rule acyclic_add_edge [rotated 2]) (use assms in \<open>simp_all add: graph_ok_def waits_for_rtrancl\<close>)
  then show ?thesis using assms by (simp add: graph_ok_def deps_ok_def)
qed

lemma graph_ok_add_goal_dep:
  assumes "graph_ok q" "i \<in> ids_of q" "g \<in> goals_of q" "\<not> waits_for q (NGoal g) (NTask i)"
  shows "graph_ok (q\<lparr>q_goal_deps := q_goal_deps q @ [(i, g)]\<rparr>)"
proof -
  let ?q = "q\<lparr>q_goal_deps := q_goal_deps q @ [(i, g)]\<rparr>"
  have "set (wait_edges ?q) \<subseteq> insert (NTask i, NGoal g) (set (wait_edges q))"
    by (auto simp: set_wait_edges)
  then have "acyclic (set (wait_edges ?q))"
    by (rule acyclic_add_edge [rotated 2]) (use assms in \<open>simp_all add: graph_ok_def waits_for_rtrancl\<close>)
  then show ?thesis using assms by (simp add: graph_ok_def deps_ok_def)
qed

lemma graph_ok_fewer:
  assumes "graph_ok q" and "set ds \<subseteq> set (q_deps q)"
  shows "graph_ok (q\<lparr>q_deps := ds\<rparr>)"
proof -
  have "set (wait_edges (q\<lparr>q_deps := ds\<rparr>)) \<subseteq> set (wait_edges q)"
    using assms(2) by (auto simp: set_wait_edges)
  with assms show ?thesis by (auto simp: graph_ok_def deps_ok_def intro: acyclic_subset)
qed

lemma graph_ok_fewer_goals:
  assumes "graph_ok q" and "set gs \<subseteq> set (q_goal_deps q)"
  shows "graph_ok (q\<lparr>q_goal_deps := gs\<rparr>)"
proof -
  have "set (wait_edges (q\<lparr>q_goal_deps := gs\<rparr>)) \<subseteq> set (wait_edges q)"
    using assms(2) by (auto simp: set_wait_edges)
  with assms show ?thesis by (auto simp: graph_ok_def deps_ok_def intro: acyclic_subset)
qed

lemma insert_dependency_ok:
  assumes "graph_ok q" and "insert_dependency i now p q = Inr q'"
  shows "graph_ok q'"
proof -
  from assms(2) have "i \<in> ids_of q" "p \<in> ids_of q" "\<not> waits_for q (NTask p) (NTask i)"
    and q': "q' = (if (i, p) \<in> set (q_deps q) then q
           else event i None ''dependency_added'' (JObj [(''predecessor_id'', JInt p)])
                  (touch i now (q\<lparr>q_deps := q_deps q @ [(i, p)]\<rparr>)))"
    by (auto simp: insert_dependency_def task_checks dest: read_task_ids)
  from graph_ok_add_dep [OF assms(1) this(1-3)] assms(1) show ?thesis
    unfolding q' event_def by simp
qed

lemma insert_goal_dependency_ok:
  assumes "graph_ok q" and "insert_goal_dependency i now g q = Inr q'"
  shows "graph_ok q'"
proof -
  from assms(2) have "i \<in> ids_of q" "g \<in> goals_of q" "\<not> waits_for q (NGoal g) (NTask i)"
    and q': "q' = (if (i, g) \<in> set (q_goal_deps q) then q
           else event i None ''goal_dependency_added'' (JObj [(''goal_id'', JInt g)])
                  (touch i now (q\<lparr>q_goal_deps := q_goal_deps q @ [(i, g)]\<rparr>)))"
    by (auto simp: insert_goal_dependency_def task_checks dest: read_task_ids read_goal_ids)
  from graph_ok_add_goal_dep [OF assms(1) this(1-3)] assms(1) show ?thesis
    unfolding q' event_def by simp
qed

lemma remove_dependency_ok: "graph_ok q \<Longrightarrow> remove_dependency i now p q = Inr q' \<Longrightarrow> graph_ok q'"
  by (auto simp: remove_dependency_def event_def intro!: graph_ok_fewer)

lemma remove_goal_dependency_ok:
  "graph_ok q \<Longrightarrow> remove_goal_dependency i now g q = Inr q' \<Longrightarrow> graph_ok q'"
  by (auto simp: remove_goal_dependency_def event_def intro!: graph_ok_fewer_goals)

text \<open>Moving a task to another goal.\<close>

lemma task_goals_move:
  "task_goals (move_row i g now q) = map (\<lambda>(j, h). (j, if j = i then g else h)) (task_goals q)"
  by (simp add: move_row_def task_goals_def)

lemma move_row_tables [simp]:
  "q_deps (move_row i g now q) = q_deps q" "q_goal_deps (move_row i g now q) = q_goal_deps q"
  "q_goals (move_row i g now q) = q_goals q" "q_task_seq (move_row i g now q) = q_task_seq q"
  "q_goal_seq (move_row i g now q) = q_goal_seq q"
  by (simp_all add: move_row_def)

lemma ids_of_move [simp]: "ids_of (move_row i g now q) = ids_of q"
  by (force simp: ids_of_def task_goals_move image_iff split: prod.splits)

lemma goals_of_move [simp]: "goals_of (move_row i g now q) = goals_of q"
  by (simp add: goals_of_def)

lemma graph_ok_move:
  assumes "graph_ok q" and "\<And>h. g = Some h \<Longrightarrow> h \<in> goals_of q \<and> \<not> waits_for q (NTask i) (NGoal h)"
  shows "graph_ok (move_row i g now q)"
proof -
  let ?q = "move_row i g now q"
  have goals: "h \<in> goals_of q" if "(j, Some h) \<in> set (task_goals q)" for j h
    using that assms(1) by (auto simp: graph_ok_def rows_ok_def)
  have "distinct (map fst (task_goals ?q))"
    using assms(1) by (simp add: graph_ok_def rows_ok_def task_goals_move o_def case_prod_unfold)
  moreover have "{h. \<exists>j. (j, Some h) \<in> set (task_goals ?q)} \<subseteq> goals_of q"
    using assms(2) goals by (auto simp: task_goals_move split: if_splits)
  ultimately have "rows_ok ?q" using assms(1) by (simp add: graph_ok_def rows_ok_def)
  have edges: "set (wait_edges ?q) \<subseteq> {(NGoal h, NTask i) |h. g = Some h} \<union> set (wait_edges q)"
    by (auto simp: set_wait_edges task_goals_move split: if_splits)
  have "acyclic (set (wait_edges ?q))"
  proof (cases g)
    case None
    with edges assms(1) show ?thesis by (auto simp: graph_ok_def intro: acyclic_subset)
  next
    case (Some h)
    have "set (wait_edges ?q) \<subseteq> insert (NGoal h, NTask i) (set (wait_edges q))"
      using edges Some by auto
    then show ?thesis
      by (rule acyclic_add_edge [rotated 2]) (use assms Some in \<open>simp_all add: graph_ok_def waits_for_rtrancl\<close>)
  qed
  with \<open>rows_ok ?q\<close> assms(1) show ?thesis by (simp add: graph_ok_def deps_ok_def)
qed

lemma store_set_goal_ok:
  assumes "graph_ok q" and "store_set_goal i g now q = Inr (t, q')"
  shows "graph_ok q'"
proof -
  from assms(2) obtain t0 t1 where r: "read_task q i = Inr t0" "set_goal t0 g = Inr t1"
    and c: "(case task_goal_id t1 of
                 None \<Rightarrow> Inr ()
               | Some g' \<Rightarrow>
                   and_then (read_goal q g') (\<lambda>goal.
                   and_then (lift (check_accepts_tasks goal)) (\<lambda>_.
                   if task_goal_id t0 \<noteq> Some g'
                   then lift (check_membership_acyclic t1 g' ((i, g') \<in> set (q_goal_deps q))
                                (waits_for q (NTask i) (NGoal g')))
                   else Inr ()))) = Inr ()"
    and q': "q' = (if task_goal_id t0 \<noteq> task_goal_id t1
       then event i None ''task_goal_changed''
              (JObj [(''from'', id_json (task_goal_id t0)), (''to'', id_json (task_goal_id t1))])
              (move_row i (task_goal_id t1) now q) else q)"
    by (auto simp: store_set_goal_def Let_def)
  have "h \<in> goals_of q \<and> \<not> waits_for q (NTask i) (NGoal h)"
    if "task_goal_id t1 = Some h" "task_goal_id t0 \<noteq> task_goal_id t1" for h
    using c that by (auto simp: task_checks dest: read_goal_ids)
  then show ?thesis
    unfolding q' event_def using assms(1) by (auto intro!: graph_ok_move)
qed

text \<open>Registering a task: a new id has no dependencies yet, so its membership closes no cycle.\<close>

lemma graph_ok_append:
  assumes "graph_ok q" and "task_id t = next_id (q_task_seq q) (map task_id (q_tasks q))"
    and "\<And>g. task_goal_id t = Some g \<Longrightarrow> g \<in> goals_of q"
  shows "graph_ok (q\<lparr>q_tasks := q_tasks q @ [t], q_task_seq := task_id t\<rparr>)" (is "graph_ok ?q")
proof -
  have rows: "task_goals ?q = task_goals q @ [(task_id t, task_goal_id t)]" by (simp add: task_goals_def)
  have seq: "q_task_seq q < task_id t" "0 < task_id t" using assms(2) by (simp_all add: next_id_fresh)
  have ids: "ids_of ?q = insert (task_id t) (ids_of q)" by (simp add: ids_of_def rows)
  have fresh: "task_id t \<notin> ids_of q" using assms(1) seq by (auto simp: graph_ok_def rows_ok_def)
  have goals: "goals_of ?q = goals_of q" by (simp add: goals_of_def)
  have "rows_ok ?q"
    using assms(1,3) seq fresh
    by (auto simp: rows_ok_def graph_ok_def rows ids goals ids_of_def)
  moreover have "deps_ok (ids_of ?q) (goals_of ?q) ?q"
    using assms(1) by (auto simp: graph_ok_def deps_ok_def ids goals)
  moreover have "acyclic (set (wait_edges ?q))"
  proof (cases "task_goal_id t")
    case None
    then have "set (wait_edges ?q) = set (wait_edges q)" by (auto simp: set_wait_edges rows)
    with assms(1) show ?thesis by (simp add: graph_ok_def)
  next
    case (Some g)
    have no_edge: "(NTask (task_id t), n) \<notin> set (wait_edges q)" for n
      using assms(1) fresh by (auto simp: set_wait_edges graph_ok_def deps_ok_def)
    have "(NTask (task_id t), NGoal g) \<notin> (set (wait_edges q))\<^sup>*"
      using no_edge by (auto elim: converse_rtranclE)
    moreover have "set (wait_edges ?q) \<subseteq> insert (NGoal g, NTask (task_id t)) (set (wait_edges q))"
      using Some by (auto simp: set_wait_edges rows)
    ultimately show ?thesis
      using assms(1) by (auto simp: graph_ok_def intro: acyclic_add_edge)
  qed
  ultimately show ?thesis by (simp add: graph_ok_def)
qed

lemma insert_dependency_keeps:
  "insert_dependency i now p q = Inr q' \<Longrightarrow> q_goals q' = q_goals q \<and> q_runs q' = q_runs q"
  "insert_goal_dependency i now g q = Inr q' \<Longrightarrow> q_goals q' = q_goals q \<and> q_runs q' = q_runs q"
  by (auto simp: insert_dependency_def insert_goal_dependency_def event_def)

interpretation add_deps: aggregate "insert_dependency i now" "\<lambda>q. (q_goals q, q_runs q)" graph_ok for i now
  by unfold_locales (auto dest: insert_dependency_keeps insert_dependency_ok)

interpretation add_goal_deps: aggregate "insert_goal_dependency i now" "\<lambda>q. (q_goals q, q_runs q)" graph_ok
  for i now
  by unfold_locales (auto dest: insert_dependency_keeps insert_goal_dependency_ok)

lemma Task_new_Inr: "Task_new i new now = Inr t \<Longrightarrow> task_id t = i"
  by (auto simp: Task_new_def)

lemma insert_task_ok:
  assumes "graph_ok q" and "insert_task new now q = Inr (t, q')"
  shows "graph_ok q'"
proof -
  let ?i = "next_id (q_task_seq q) (map task_id (q_tasks q))"
  from assms(2) obtain t1 q2 where t1: "Task_new ?i new now = Inr t1"
    and c: "(case task_goal_id t1 of None \<Rightarrow> Inr ()
           | Some g \<Rightarrow> and_then (read_goal q g) (\<lambda>goal. lift (check_accepts_tasks goal))) = Inr ()"
    and q2: "exec_all (insert_dependency ?i now) (nt_dependencies new)
           (event ?i None ''task_created'' (JObj [(''goal_id'', id_json (task_goal_id t1))])
             (q\<lparr>q_tasks := q_tasks q @ [t1], q_task_seq := ?i\<rparr>)) = Inr q2"
    and q': "exec_all (insert_goal_dependency ?i now) (nt_goal_dependencies new) q2 = Inr q'"
    by (auto simp: insert_task_def Let_def)
  have g: "g \<in> goals_of q" if "task_goal_id t1 = Some g" for g
    using c that by (auto dest: read_goal_ids)
  have "graph_ok (q\<lparr>q_tasks := q_tasks q @ [t1], q_task_seq := ?i\<rparr>)"
    using graph_ok_append [OF assms(1), of t1] Task_new_Inr [OF t1] g by simp
  then have "graph_ok q2"
    by (intro add_deps.exec_all_inv [OF _ q2]) (simp add: event_def)
  then show ?thesis by (rule add_goal_deps.exec_all_inv [OF _ q'])
qed

end
