(* ===== verification/Queue_Edits.thy ===== *)
theory Queue_Edits
  imports Queue_Graph
begin

text \<open>
  The operations on one row of the queue (\<^verbatim>\<open>src/src/infrastructure/sqlite.rs\<close>): registering, editing,
  opening and closing a goal, and editing a task. Each reads the row, asks the aggregate, writes the
  columns and records an event whose payload is the JSON the aggregates serialize to.
\<close>

subsection \<open>Serialized rows\<close>

definition str_json :: "string option \<Rightarrow> json" where
  "str_json s = (case s of None \<Rightarrow> JNull | Some x \<Rightarrow> JStr x)"

definition goal_json :: "goal \<Rightarrow> json" where
  "goal_json g =
     JObj [(''id'', JInt (goal_id g)), (''title'', JStr (goal_title g)),
           (''description'', JStr (goal_description g)), (''acceptance'', JStr (goal_acceptance g)),
           (''constraints'', JStr (goal_constraints g)), (''doc'', str_json (goal_doc g)),
           (''status'', JStr (GoalStatus_as_str (goal_status g))),
           (''closed_at'', str_json (goal_closed_at g)),
           (''verdict'', str_json (map_option GoalVerdict_as_str (goal_verdict g))),
           (''created_at'', JStr (goal_created_at g)), (''updated_at'', JStr (goal_updated_at g))]"

definition task_json :: "task \<Rightarrow> json" where
  "task_json t =
     JObj [(''id'', JInt (task_id t)), (''title'', JStr (task_title t)),
           (''description'', JStr (task_description t)), (''acceptance'', JStr (task_acceptance t)),
           (''verification_commands'', JArr (map JStr (task_commands t))),
           (''required_evidence'', JArr (map (\<lambda>c. JStr (EvidenceCheck_as_str c)) (task_evidence t))),
           (''paths'', JArr (map JStr (task_paths t))),
           (''priority'', JStr (Priority_as_str (task_priority t))),
           (''kind'', str_json (map_option TaskKind_as_str (task_kind_of t))),
           (''status'', JStr (TaskStatus_as_str (task_status t))), (''goal_id'', id_json (task_goal_id t)),
           (''context'', JStr (task_context t)), (''created_at'', JStr (task_created_at t)),
           (''updated_at'', JStr (task_updated_at t))]"

definition counts_json :: "task_status_counts \<Rightarrow> json" where
  "counts_json c =
     JObj [(''total'', JInt (int (cnt_total c))), (''draft'', JInt (int (cnt_draft c))),
           (''submitted'', JInt (int (cnt_submitted c))), (''ready'', JInt (int (cnt_ready c))),
           (''in_progress'', JInt (int (cnt_in_progress c))), (''completed'', JInt (int (cnt_completed c))),
           (''canceled'', JInt (int (cnt_canceled c)))]"

subsection \<open>Goals\<close>

definition add_goal :: "new_goal \<Rightarrow> string \<Rightarrow> queue \<Rightarrow> (goal \<times> queue) stored" where
  "add_goal new now q =
     and_then (lift (NewGoal_validate new)) (\<lambda>_.
     let i = next_id (q_goal_seq q) (map goal_id (q_goals q))
     in and_then (lift (Goal_new i new now)) (\<lambda>g.
        let q = q\<lparr>q_goals := q_goals q @ [g], q_goal_seq := i\<rparr>
        in and_then (read_goal q i) (\<lambda>g.
           Inr (g, goal_event i ''goal_created'' (JObj [(''goal'', goal_json g)]) q))))"

definition store_edit_goal :: "goal_id \<Rightarrow> goal_edit \<Rightarrow> string \<Rightarrow> queue \<Rightarrow> (goal \<times> queue) stored" where
  "store_edit_goal i e now q =
     and_then (ensure (\<not> GoalEdit_is_empty e) ''goal edit changes nothing'') (\<lambda>_.
     and_then (read_goal q i) (\<lambda>g0.
     and_then (lift (edit_goal g0 e)) (\<lambda>g.
     let q = update_goals (\<lambda>r. goal_id r = i)
               (\<lambda>r. r\<lparr>goal_title := goal_title g, goal_description := goal_description g,
                       goal_acceptance := goal_acceptance g, goal_constraints := goal_constraints g,
                       goal_doc := goal_doc g, goal_updated_at := now\<rparr>) q;
         q = goal_event i ''goal_updated'' (JObj [(''old'', goal_json g0), (''new'', goal_json g)]) q
     in and_then (read_goal q i) (\<lambda>g. Inr (g, q)))))"

definition store_close_goal :: "goal_id \<Rightarrow> goal_verdict \<Rightarrow> string \<Rightarrow> queue \<Rightarrow> (goal \<times> queue) stored" where
  "store_close_goal i v now q =
     and_then (read_goal q i) (\<lambda>g0.
     let counts = task_counts q i
     in and_then (lift (close_goal g0 v counts now)) (\<lambda>g.
     let open_row = (\<lambda>r. goal_id r = i \<and> goal_closed_at r = None)
     in and_then (ensure (length (filter open_row (q_goals q)) = 1)
                    (''goal '' @ show_int i @ '' was closed concurrently'')) (\<lambda>_.
     let q = update_goals open_row
               (\<lambda>r. r\<lparr>goal_closed_at := goal_closed_at g, goal_verdict := goal_verdict g,
                       goal_updated_at := goal_updated_at g\<rparr>) q;
         q = goal_event i ''goal_closed''
               (JObj [(''verdict'', JStr (GoalVerdict_as_str v)), (''tasks'', counts_json counts)]) q
     in and_then (read_goal q i) (\<lambda>g. Inr (g, q)))))"

definition store_ready_goal :: "goal_id \<Rightarrow> string \<Rightarrow> queue \<Rightarrow> (goal \<times> queue) stored" where
  "store_ready_goal i now q =
     and_then (read_goal q i) (\<lambda>g0.
     and_then (lift (ready_goal g0)) (\<lambda>g.
     let q = update_goals (\<lambda>r. goal_id r = i)
               (\<lambda>r. r\<lparr>goal_status := goal_status g, goal_updated_at := now\<rparr>) q;
         q = goal_event i ''goal_status_changed''
               (JObj [(''from'', JStr (GoalStatus_as_str (goal_status g0))),
                      (''to'', JStr (GoalStatus_as_str (goal_status g)))]) q
     in and_then (read_goal q i) (\<lambda>g. Inr (g, q))))"

subsection \<open>Tasks\<close>

definition store_set_paths :: "task_id \<Rightarrow> string list \<Rightarrow> string \<Rightarrow> queue \<Rightarrow> (task \<times> queue) stored" where
  "store_set_paths i paths now q =
     and_then (lift (validate_path_globs paths)) (\<lambda>_.
     and_then (read_task q i) (\<lambda>t0.
     and_then (lift (set_paths t0 paths)) (\<lambda>t.
     let q = (if task_paths t0 \<noteq> task_paths t
              then event i None ''task_paths_changed''
                     (JObj [(''from'', JArr (map JStr (task_paths t0))), (''to'', JArr (map JStr (task_paths t)))])
                     (update_tasks (\<lambda>r. task_id r = i)
                        (\<lambda>r. r\<lparr>task_paths := task_paths t, task_updated_at := now\<rparr>) q)
              else q)
     in and_then (read_task q i) (\<lambda>t. Inr (t, q)))))"

definition editable_task_fields :: "string list" where
  "editable_task_fields =
     [''title'', ''description'', ''acceptance'', ''verification_commands'', ''required_evidence'',
      ''paths'', ''context'', ''kind'']"

definition store_edit_task :: "task_id \<Rightarrow> task_edit \<Rightarrow> string \<Rightarrow> queue \<Rightarrow> (task \<times> queue) stored" where
  "store_edit_task i e now q =
     and_then (ensure (\<not> TaskEdit_is_empty e) ''task edit changes nothing'') (\<lambda>_.
     and_then (lift (TaskEdit_validate e)) (\<lambda>_.
     and_then (read_task q i) (\<lambda>t0.
     and_then (lift (edit_task t0 e)) (\<lambda>t.
     let changed = filter (\<lambda>f. json_index (task_json t0) f \<noteq> json_index (task_json t) f) editable_task_fields;
         fields = (\<lambda>t. JObj (map (\<lambda>f. (f, json_index (task_json t) f)) changed));
         q = (if changed \<noteq> []
              then event i None ''task_edited'' (JObj [(''from'', fields t0), (''to'', fields t)])
                     (update_tasks (\<lambda>r. task_id r = i)
                        (\<lambda>r. r\<lparr>task_title := task_title t, task_description := task_description t,
                                task_acceptance := task_acceptance t, task_commands := task_commands t,
                                task_evidence := task_evidence t, task_paths := task_paths t,
                                task_context := task_context t, task_kind_of := task_kind_of t,
                                task_updated_at := now\<rparr>) q)
              else q)
     in and_then (read_task q i) (\<lambda>t. Inr (t, q))))))"

definition store_set_priority :: "task_id \<Rightarrow> priority \<Rightarrow> string \<Rightarrow> queue \<Rightarrow> (task \<times> queue) stored" where
  "store_set_priority i p now q =
     and_then (read_task q i) (\<lambda>t0.
     and_then (lift (set_priority t0 p)) (\<lambda>t.
     let q = (if task_priority t0 \<noteq> task_priority t
              then event i None ''task_priority_changed''
                     (JObj [(''from'', JStr (Priority_as_str (task_priority t0))),
                            (''to'', JStr (Priority_as_str (task_priority t)))])
                     (update_tasks (\<lambda>r. task_id r = i)
                        (\<lambda>r. r\<lparr>task_priority := task_priority t, task_updated_at := now\<rparr>) q)
              else q)
     in and_then (read_task q i) (\<lambda>t. Inr (t, q))))"

end
