(* ===== verification/Queue_Claim.thy ===== *)
theory Queue_Claim
  imports Queue_Edits "HOL-Library.Option_ord"
begin

text \<open>
  Reading the dependency view of the queue and claiming a task (\<^verbatim>\<open>read_graph_input\<close>,
  \<open>claim_order\<close> and \<open>claim_task\<close> of \<^verbatim>\<open>src/src/infrastructure/sqlite.rs\<close>). The claim order walks the
  critical path too, so a claim is an option: \<open>None\<close> would be a claim that never returns. The UUID,
  the claim time and the base commit the caller gives are arguments.
\<close>

subsection \<open>The dependency view\<close>

definition graph_goal_deps :: "queue \<Rightarrow> task_id \<Rightarrow> goal list" where
  "graph_goal_deps q i =
     sort_key goal_id
       (concat (map (\<lambda>(j, g). if j = i then filter (\<lambda>r. goal_id r = g) (q_goals q) else [])
          (q_goal_deps q)))"

definition graph_task_of :: "queue \<Rightarrow> task \<Rightarrow> graph_task stored" where
  "graph_task_of q t =
     and_then (case task_goal_id t of
                 None \<Rightarrow> Inr None
               | Some g \<Rightarrow> and_then (read_goal q g) (\<lambda>g. Inr (Some (goal_status g)))) (\<lambda>goal_status.
     and_then (collect goal_row (graph_goal_deps q (task_id t))) (\<lambda>goals.
     Inr \<lparr>gt_id = task_id t, gt_status = task_status t, gt_priority = task_priority t,
          gt_title = task_title t, gt_goal_id = task_goal_id t, gt_goal_status = goal_status,
          gt_depends_on = sort (map snd (filter (\<lambda>(i, _). i = task_id t) (q_deps q))),
          gt_goal_dependencies =
            map (\<lambda>g. \<lparr>ggd_goal_id = goal_id g, ggd_verdict = goal_verdict g\<rparr>) goals\<rparr>))"

definition open_tasks :: "queue \<Rightarrow> task list" where
  "open_tasks q =
     sort_key task_id
       (filter (\<lambda>t. task_status t \<in> {Draft, Submitted, Ready, InProgress}) (q_tasks q))"

definition read_graph_input :: "queue \<Rightarrow> graph_input stored" where
  "read_graph_input q =
     and_then (collect task_row (open_tasks q)) (\<lambda>tasks.
     and_then (collect (graph_task_of q) tasks) (\<lambda>tasks.
     Inr \<lparr>gi_tasks = tasks, gi_candidates = map task_id (ready_query q)\<rparr>))"

definition claim_order :: "queue \<Rightarrow> task_id list stored option" where
  "claim_order q =
     (case read_graph_input q of
        Inl e \<Rightarrow> Some (Inl e)
      | Inr input \<Rightarrow> map_option (\<lambda>graph. Inr (dg_candidates graph)) (dependency_graph input None))"

fun position_of :: "int \<Rightarrow> int list \<Rightarrow> nat option" where
  "position_of i [] = None"
| "position_of i (j # js) = (if j = i then Some 0 else map_option Suc (position_of i js))"

text \<open>The claimable tasks in claim order.\<close>

definition queue_candidates :: "queue \<Rightarrow> task list stored option" where
  "queue_candidates q =
     map_option (\<lambda>order.
       and_then order (\<lambda>order.
       and_then (ready_tasks q) (\<lambda>ready.
       Inr (sort_key (\<lambda>t. position_of (task_id t) order) ready)))) (claim_order q)"

subsection \<open>The claim\<close>

datatype claim_outcome = ClaimedRun task_run | NoReadyTask

definition task_position :: "task list \<Rightarrow> task_id list \<Rightarrow> task option" where
  "task_position ready ids =
     (case List.map_filter (\<lambda>i. find (\<lambda>t. task_id t = i) ready) ids of [] \<Rightarrow> None | t # _ \<Rightarrow> Some t)"

definition extend_json :: "(string \<times> json) list \<Rightarrow> json option \<Rightarrow> json" where
  "extend_json entries attributes =
     (case attributes of
        Some (JObj extra) \<Rightarrow> JObj (fold (\<lambda>(k, v). AList.update k v) extra entries)
      | _ \<Rightarrow> JObj entries)"

definition reserve ::
  "string \<Rightarrow> string \<Rightarrow> string \<Rightarrow> commit_sha \<Rightarrow> json option \<Rightarrow> task \<Rightarrow> queue
   \<Rightarrow> (claim_outcome \<times> queue) stored" where
  "reserve runs_dir uuid now base_commit attributes preferred q =
     and_then (lift (task_claim preferred)) (\<lambda>t.
     and_then (lift (RunId_new uuid)) (\<lambda>i.
     and_then (lift (TaskRun_new i t base_commit Claude now)) (\<lambda>run.
     and_then (ensure (rows_in (task_id t) Ready q = 1)
                 (''task '' @ show_int (task_id t) @ '' changed concurrently'')) (\<lambda>_.
     and_then (ensure (\<not> has_unfinished_run q (task_id t) \<and> i \<notin> set (map run_id (q_runs q)))
                 ''UNIQUE constraint failed: task_runs'') (\<lambda>_.
        let q = status_row (task_id t) Ready (task_status t) now q;
            q = q\<lparr>q_runs := q_runs q @ [run]\<rparr>;
            q = event (task_id t) (Some (run_id run)) ''run_claimed''
                  (extend_json [(''from'', JStr ''ready''), (''to'', status_json (task_status t)),
                      (''provider'', JStr (Provider_as_str (run_actual_provider run)))] attributes) q
        in Inr (ClaimedRun (relocated run runs_dir), q))))))"

definition claim_task ::
  "string \<Rightarrow> string \<Rightarrow> string \<Rightarrow> commit_sha \<Rightarrow> task_id list \<Rightarrow> json option \<Rightarrow> queue
   \<Rightarrow> (claim_outcome \<times> queue) stored option" where
  "claim_task runs_dir uuid now base_commit order attributes q =
     (case ready_tasks q of
        Inl e \<Rightarrow> Some (Inl e)
      | Inr [] \<Rightarrow> Some (Inr (NoReadyTask, q))
      | Inr (first # others) \<Rightarrow>
          (case task_position (first # others) order of
             Some t \<Rightarrow> Some (reserve runs_dir uuid now base_commit attributes t q)
           | None \<Rightarrow>
               map_option (\<lambda>claimable. and_then claimable (\<lambda>ids.
                 reserve runs_dir uuid now base_commit attributes
                   (case task_position (first # others) ids of Some t \<Rightarrow> t | None \<Rightarrow> first) q))
               (claim_order q)))"

end
