(* ===== verification/Queue_Invariant.thy ===== *)
theory Queue_Invariant
  imports Queue_Claim
begin

text \<open>
  The invariant of the queue and its preservation by every operation on it: the rows restore to
  aggregates, the wait graph is acyclic, a task has at most one unfinished run and is in progress
  while it has one, and every task of an achieved goal is finished. All but the rows depends on the
  \<open>states\<close> of the queue only, which an edit leaves alone.
\<close>

subsection \<open>The invariant\<close>

definition task_states :: "queue \<Rightarrow> (task_id \<times> goal_id option \<times> task_status) list" where
  "task_states q = map (\<lambda>t. (task_id t, task_goal_id t, task_status t)) (q_tasks q)"

definition goal_states :: "queue \<Rightarrow> (goal_id \<times> goal_verdict option) list" where
  "goal_states q = map (\<lambda>g. (goal_id g, goal_verdict g)) (q_goals q)"

definition open_runs :: "queue \<Rightarrow> task_id list" where
  "open_runs q = map run_task_id (filter (\<lambda>r. unfinished (run_status r)) (q_runs q))"

definition runs_ok :: "queue \<Rightarrow> bool" where
  "runs_ok q \<longleftrightarrow> distinct (open_runs q)
     \<and> (\<forall>i \<in> set (open_runs q). (i, InProgress) \<in> (\<lambda>(j, _, s). (j, s)) ` set (task_states q))"

definition achieved_ok :: "queue \<Rightarrow> bool" where
  "achieved_ok q \<longleftrightarrow>
     (\<forall>i g s. (i, Some g, s) \<in> set (task_states q) \<longrightarrow> (g, Some Achieved) \<in> set (goal_states q)
        \<longrightarrow> TaskStatus_is_terminal s)"

definition row_ok :: "task \<Rightarrow> bool" where
  "row_ok t \<longleftrightarrow> task_ok t \<and> is_none_or (\<lambda>g. g > 0) (task_goal_id t)"

definition tasks_ok :: "queue \<Rightarrow> bool" where
  "tasks_ok q \<longleftrightarrow> (\<forall>t \<in> set (q_tasks q). row_ok t)"

definition goals_ok :: "queue \<Rightarrow> bool" where
  "goals_ok q \<longleftrightarrow> (\<forall>g \<in> set (q_goals q). goal_ok g)"

definition queue_ok :: "queue \<Rightarrow> bool" where
  "queue_ok q \<longleftrightarrow> tasks_ok q \<and> goals_ok q \<and> graph_ok q \<and> runs_ok q \<and> achieved_ok q"

lemma queue_okI:
  "tasks_ok q \<Longrightarrow> goals_ok q \<Longrightarrow> graph_ok q \<Longrightarrow> runs_ok q \<Longrightarrow> achieved_ok q \<Longrightarrow> queue_ok q"
  by (simp add: queue_ok_def)

lemma queue_okD:
  assumes "queue_ok q"
  shows "tasks_ok q" "goals_ok q" "graph_ok q" "runs_ok q" "achieved_ok q"
  using assms by (simp_all add: queue_ok_def)

lemma task_goals_states: "task_goals q = map (\<lambda>(i, g, s). (i, g)) (task_states q)"
  by (simp add: task_goals_def task_states_def)

lemma goal_ids_states: "map goal_id (q_goals q) = map fst (goal_states q)"
  by (simp add: goal_states_def)

lemma open_runs_has: "i \<in> set (open_runs q) \<longleftrightarrow> has_unfinished_run q i"
  by (auto simp: open_runs_def has_unfinished_run_def list_ex_iff)

text \<open>An operation that leaves the states, the edges and the runs alone.\<close>

definition same_states :: "queue \<Rightarrow> queue \<Rightarrow> bool" where
  "same_states q q' \<longleftrightarrow> task_states q' = task_states q \<and> goal_states q' = goal_states q
     \<and> q_deps q' = q_deps q \<and> q_goal_deps q' = q_goal_deps q \<and> q_runs q' = q_runs q
     \<and> q_task_seq q' = q_task_seq q \<and> q_goal_seq q' = q_goal_seq q"

lemma same_states_ok:
  assumes "same_states q q'"
  shows "graph_ok q' = graph_ok q" "runs_ok q' = runs_ok q" "achieved_ok q' = achieved_ok q"
proof -
  from assms have g: "task_goals q' = task_goals q" "map goal_id (q_goals q') = map goal_id (q_goals q)"
    by (simp_all add: same_states_def task_goals_states goal_ids_states)
  show "graph_ok q' = graph_ok q"
    by (rule graph_ok_cong) (use assms g in \<open>simp_all add: same_states_def\<close>)
  show "runs_ok q' = runs_ok q" "achieved_ok q' = achieved_ok q"
    using assms by (simp_all add: runs_ok_def achieved_ok_def open_runs_def same_states_def)
qed

lemma insert_event_ok [simp]: "queue_ok (insert_event t g r k p q) = queue_ok q"
proof -
  have "same_states q (insert_event t g r k p q)"
    by (simp add: same_states_def task_states_def goal_states_def)
  from same_states_ok [OF this] show ?thesis by (simp add: queue_ok_def tasks_ok_def goals_ok_def)
qed

lemma event_ok [simp]: "queue_ok (event t r k p q) = queue_ok q"
  "queue_ok (goal_event g k p q) = queue_ok q"
  by (simp_all add: event_def goal_event_def)

text \<open>Writing the columns of one row that are not part of the states.\<close>

lemma update_task_ok:
  assumes "queue_ok q" and "\<And>r. r \<in> set (q_tasks q) \<Longrightarrow> p r \<Longrightarrow>
      task_id (f r) = task_id r \<and> task_goal_id (f r) = task_goal_id r \<and> task_status (f r) = task_status r
      \<and> row_ok (f r)"
  shows "queue_ok (update_tasks p f q)"
proof -
  have "same_states q (update_tasks p f q)"
    using assms(2) by (auto simp: same_states_def task_states_def goal_states_def)
  moreover have "tasks_ok (update_tasks p f q)" "goals_ok (update_tasks p f q)"
    using queue_okD [OF assms(1)] assms(2) by (auto simp: tasks_ok_def goals_ok_def)
  ultimately show ?thesis
    using queue_okD [OF assms(1)] same_states_ok by (simp add: queue_ok_def)
qed

lemma update_goal_ok:
  assumes "queue_ok q" and "\<And>r. r \<in> set (q_goals q) \<Longrightarrow> p r \<Longrightarrow>
      goal_id (f r) = goal_id r \<and> goal_verdict (f r) = goal_verdict r \<and> goal_ok (f r)"
  shows "queue_ok (update_goals p f q)"
proof -
  have "same_states q (update_goals p f q)"
    using assms(2) by (auto simp: same_states_def task_states_def goal_states_def)
  moreover have "tasks_ok (update_goals p f q)" "goals_ok (update_goals p f q)"
    using queue_okD [OF assms(1)] assms(2) by (auto simp: tasks_ok_def goals_ok_def)
  ultimately show ?thesis
    using queue_okD [OF assms(1)] same_states_ok by (simp add: queue_ok_def)
qed

subsection \<open>Edits\<close>

lemma read_task_row:
  assumes "queue_ok q" and "read_task q i = Inr t"
  shows "t \<in> set (q_tasks q)" "task_id t = i" "row_ok t"
  using assms read_task_Inr [of q i t] by (auto simp: queue_ok_def tasks_ok_def)

lemma row_ok_of: "queue_ok q \<Longrightarrow> r \<in> set (q_tasks q) \<Longrightarrow> row_ok r"
  by (simp add: queue_ok_def tasks_ok_def)

lemma store_set_priority_ok:
  assumes "queue_ok q" and "store_set_priority i p now q = Inr (t, q')"
  shows "queue_ok q'"
proof -
  from assms(2) obtain t0 t1 where "read_task q i = Inr t0" "set_priority t0 p = Inr t1"
    and q': "q' = (if task_priority t0 \<noteq> task_priority t1
       then event i None ''task_priority_changed''
              (JObj [(''from'', JStr (Priority_as_str (task_priority t0))),
                     (''to'', JStr (Priority_as_str (task_priority t1)))])
              (update_tasks (\<lambda>r. task_id r = i)
                 (\<lambda>r. r\<lparr>task_priority := task_priority t1, task_updated_at := now\<rparr>) q) else q)"
    by (auto simp: store_set_priority_def Let_def)
  have "queue_ok (update_tasks (\<lambda>r. task_id r = i)
           (\<lambda>r. r\<lparr>task_priority := task_priority t1, task_updated_at := now\<rparr>) q)"
    by (rule update_task_ok [OF assms(1)]) (use row_ok_of [OF assms(1)] in \<open>auto simp: row_ok_def task_ok_def\<close>)
  then show ?thesis unfolding q' using assms(1) by simp
qed

lemma store_set_paths_ok:
  assumes "queue_ok q" and "store_set_paths i paths now q = Inr (t, q')"
  shows "queue_ok q'"
proof -
  from assms(2) obtain t0 t1 where r: "read_task q i = Inr t0" "set_paths t0 paths = Inr t1"
    and q': "q' = (if task_paths t0 \<noteq> task_paths t1
       then event i None ''task_paths_changed''
              (JObj [(''from'', JArr (map JStr (task_paths t0))), (''to'', JArr (map JStr (task_paths t1)))])
              (update_tasks (\<lambda>r. task_id r = i)
                 (\<lambda>r. r\<lparr>task_paths := task_paths t1, task_updated_at := now\<rparr>) q) else q)"
    by (auto simp: store_set_paths_def Let_def)
  have "task_ok t1"
    using task_exec_ok [of t0 "CSetPaths paths" t1] r(2) read_task_row [OF assms(1) r(1)]
    by (simp add: row_ok_def)
  then have "queue_ok (update_tasks (\<lambda>r. task_id r = i)
           (\<lambda>r. r\<lparr>task_paths := task_paths t1, task_updated_at := now\<rparr>) q)"
    by (intro update_task_ok [OF assms(1)]) (use row_ok_of [OF assms(1)] in \<open>auto simp: row_ok_def task_ok_def\<close>)
  then show ?thesis unfolding q' using assms(1) by simp
qed

definition edit_row :: "task_id \<Rightarrow> task \<Rightarrow> string \<Rightarrow> queue \<Rightarrow> queue" where
  "edit_row i t now =
     update_tasks (\<lambda>r. task_id r = i)
       (\<lambda>r. r\<lparr>task_title := task_title t, task_description := task_description t,
               task_acceptance := task_acceptance t, task_commands := task_commands t,
               task_evidence := task_evidence t, task_paths := task_paths t,
               task_context := task_context t, task_kind_of := task_kind_of t,
               task_updated_at := now\<rparr>)"

lemma edit_row_ok: "queue_ok q \<Longrightarrow> task_ok t \<Longrightarrow> queue_ok (edit_row i t now q)"
  unfolding edit_row_def
  by (rule update_task_ok) (auto simp: row_ok_def task_ok_def dest: row_ok_of)

lemma store_edit_task_ok:
  assumes "queue_ok q" and "store_edit_task i e now q = Inr (t, q')"
  shows "queue_ok q'"
proof -
  from assms(2) obtain t0 t1 where r: "read_task q i = Inr t0" "edit_task t0 e = Inr t1"
    and q': "q' \<in> {q} \<union> range (\<lambda>payload. event i None ''task_edited'' payload (edit_row i t1 now q))"
    by (auto simp: store_edit_task_def Let_def edit_row_def)
  have "task_ok t1"
    using edit_task_ok [OF _ r(2)] read_task_row [OF assms(1) r(1)] by (simp add: row_ok_def)
  with q' assms(1) edit_row_ok show ?thesis by auto
qed

subsection \<open>Dependencies and membership\<close>

lemma same_rows:
  assumes "task_states q' = task_states q" "goal_states q' = goal_states q" "q_runs q' = q_runs q"
  shows "runs_ok q' = runs_ok q" "achieved_ok q' = achieved_ok q"
  using assms by (simp_all add: runs_ok_def achieved_ok_def open_runs_def)

lemma touch_rows:
  "task_states (touch i now q) = task_states q" "tasks_ok (touch i now q) = tasks_ok q"
proof -
  have "row_ok (if c then t\<lparr>task_updated_at := now\<rparr> else t) = row_ok t" for t c
    by (simp add: row_ok_def task_ok_def)
  then show "tasks_ok (touch i now q) = tasks_ok q"
    by (simp add: touch_def tasks_ok_def list_all_iff [symmetric] list.pred_map o_def del: set_map list.set_map)
qed (simp add: touch_def task_states_def)

lemma dep_rows:
  "task_states (q\<lparr>q_deps := ds\<rparr>) = task_states q" "task_states (q\<lparr>q_goal_deps := gs\<rparr>) = task_states q"
  "tasks_ok (q\<lparr>q_deps := ds\<rparr>) = tasks_ok q" "tasks_ok (q\<lparr>q_goal_deps := gs\<rparr>) = tasks_ok q"
  by (simp_all add: task_states_def tasks_ok_def)

lemma event_rows:
  "task_states (event t r k p q) = task_states q" "tasks_ok (event t r k p q) = tasks_ok q"
  "q_goals (event t r k p q) = q_goals q" "q_runs (event t r k p q) = q_runs q"
  by (simp_all add: event_def task_states_def tasks_ok_def)

lemma deps_queue_ok:
  assumes "queue_ok q" and "graph_ok q'" and "task_states q' = task_states q" "tasks_ok q' = tasks_ok q"
    "q_goals q' = q_goals q" "q_runs q' = q_runs q"
  shows "queue_ok q'"
proof -
  have "goal_states q' = goal_states q" using assms(5) by (simp add: goal_states_def)
  from same_rows [OF assms(3) this assms(6)] assms show ?thesis
    by (simp add: queue_ok_def goals_ok_def)
qed

lemmas dep_simps = touch_rows dep_rows event_rows

lemma insert_dependency_queue_ok:
  assumes "queue_ok q" and "insert_dependency i now p q = Inr q'"
  shows "queue_ok q'"
  by (rule deps_queue_ok [OF assms(1) insert_dependency_ok [OF queue_okD(3) [OF assms(1)] assms(2)]])
     (use assms(2) in \<open>auto simp: insert_dependency_def dep_simps split: if_splits\<close>)

lemma insert_goal_dependency_queue_ok:
  assumes "queue_ok q" and "insert_goal_dependency i now g q = Inr q'"
  shows "queue_ok q'"
  by (rule deps_queue_ok [OF assms(1) insert_goal_dependency_ok [OF queue_okD(3) [OF assms(1)] assms(2)]])
     (use assms(2) in \<open>auto simp: insert_goal_dependency_def dep_simps split: if_splits\<close>)

lemma remove_dependency_queue_ok:
  assumes "queue_ok q" and "remove_dependency i now p q = Inr q'"
  shows "queue_ok q'"
  by (rule deps_queue_ok [OF assms(1) remove_dependency_ok [OF queue_okD(3) [OF assms(1)] assms(2)]])
     (use assms(2) in \<open>auto simp: remove_dependency_def dep_simps\<close>)

lemma remove_goal_dependency_queue_ok:
  assumes "queue_ok q" and "remove_goal_dependency i now g q = Inr q'"
  shows "queue_ok q'"
  by (rule deps_queue_ok [OF assms(1) remove_goal_dependency_ok [OF queue_okD(3) [OF assms(1)] assms(2)]])
     (use assms(2) in \<open>auto simp: remove_goal_dependency_def dep_simps\<close>)

interpretation deps_inv: aggregate "insert_dependency i now" "\<lambda>q. (q_goals q, q_runs q)" queue_ok for i now
  by unfold_locales (auto dest: insert_dependency_keeps insert_dependency_queue_ok)

interpretation goal_deps_inv: aggregate "insert_goal_dependency i now" "\<lambda>q. (q_goals q, q_runs q)" queue_ok
  for i now
  by unfold_locales (auto dest: insert_dependency_keeps insert_goal_dependency_queue_ok)

text \<open>A goal that takes tasks is not closed, so it has no verdict.\<close>

lemma accepting_goal:
  assumes "queue_ok q" and "read_goal q g = Inr goal" and "check_accepts_tasks goal = Inr u"
  shows "(g, Some Achieved) \<notin> set (goal_states q)" "g \<in> goals_of q"
proof -
  from read_goal_Inr [OF assms(2)] have g: "goal \<in> set (q_goals q)" "goal_id goal = g" "goal_ok goal"
    by auto
  have "goal_verdict goal = None"
    using assms(3) g(3) by (auto simp: check_accepts_tasks_def Goal_is_closed_def goal_ok_def)
  moreover have "distinct (map goal_id (q_goals q))"
    using queue_okD(3) [OF assms(1)] by (simp add: graph_ok_def rows_ok_def)
  ultimately show "(g, Some Achieved) \<notin> set (goal_states q)"
    using g(1,2) by (auto simp: goal_states_def dest!: inj_onD [of goal_id "set (q_goals q)", rotated] simp: distinct_map)
  show "g \<in> goals_of q" by (rule read_goal_ids [OF assms(2)])
qed

lemma goals_positive: "queue_ok q \<Longrightarrow> g \<in> goals_of q \<Longrightarrow> g > 0"
  by (auto simp: queue_ok_def goals_ok_def goals_of_def goal_ok_def)

lemma move_row_queue_ok:
  assumes "queue_ok q" and "graph_ok (move_row i g now q)"
    and "\<And>h. g = Some h \<Longrightarrow> h \<in> goals_of q \<and> (h, Some Achieved) \<notin> set (goal_states q)"
  shows "queue_ok (move_row i g now q)"
proof -
  let ?q = "move_row i g now q"
  have states: "task_states ?q = map (\<lambda>(j, h, s). (j, if j = i then g else h, s)) (task_states q)"
    by (simp add: move_row_def task_states_def)
  have keeps: "goal_states ?q = goal_states q" "q_goals ?q = q_goals q" "q_runs ?q = q_runs q"
    by (simp_all add: move_row_def goal_states_def)
  have "is_none_or (\<lambda>g. g > 0) g" using assms(3) goals_positive [OF assms(1)] by (cases g) auto
  then have "tasks_ok ?q"
    using queue_okD(1) [OF assms(1)] by (auto simp: tasks_ok_def move_row_def row_ok_def task_ok_def)
  moreover have "runs_ok ?q"
    using queue_okD(4) [OF assms(1)]
    by (simp add: runs_ok_def open_runs_def states keeps image_image case_prod_unfold)
  moreover have "achieved_ok ?q"
    using queue_okD(5) [OF assms(1)] assms(3)
    by (fastforce simp: achieved_ok_def states keeps split: if_splits)
  ultimately show ?thesis
    using assms(1,2) by (simp add: queue_ok_def goals_ok_def keeps)
qed

lemma store_set_goal_queue_ok:
  assumes "queue_ok q" and "store_set_goal i g now q = Inr (t, q')"
  shows "queue_ok q'"
proof -
  from assms(2) obtain t0 t1 where r: "read_task q i = Inr t0" "set_goal t0 g = Inr t1"
    and c: "(case task_goal_id t1 of
                 None \<Rightarrow> Inr ()
               | Some g' \<Rightarrow>
                   and_then (read_goal q g') (\<lambda>goal.
                   and_then (lift (check_accepts_tasks goal)) (\<lambda>_.
                   if task_goal_id t0 \<noteq> Some g'
                   then lift (check_membership_acyclic t1 g' ((i, g') \<in> set (q_goal_deps q))
                                (waits_for q (NTask i) (NGoal g')))
                   else Inr ()))) = Inr ()"
    and q': "q' = (if task_goal_id t0 \<noteq> task_goal_id t1
       then event i None ''task_goal_changed''
              (JObj [(''from'', id_json (task_goal_id t0)), (''to'', id_json (task_goal_id t1))])
              (move_row i (task_goal_id t1) now q) else q)"
    by (auto simp: store_set_goal_def Let_def)
  have "h \<in> goals_of q \<and> (h, Some Achieved) \<notin> set (goal_states q)" if "task_goal_id t1 = Some h" for h
    using c that accepting_goal [OF assms(1)] by auto
  moreover have "graph_ok q'" by (rule store_set_goal_ok [OF queue_okD(3) [OF assms(1)] assms(2)])
  ultimately show ?thesis
    unfolding q' using assms(1) by (auto simp: event_def intro!: move_row_queue_ok split: if_splits)
qed

lemma Task_new_ok: "Task_new i new now = Inr t \<Longrightarrow> task_ok t"
  by (auto simp: Task_new_def NewTask_validate_Inr require_positive_task_def task_ok_def
        NewTask_required_evidence_def distinct_push_new)

lemma insert_task_queue_ok:
  assumes "queue_ok q" and "insert_task new now q = Inr (t, q')"
  shows "queue_ok q'"
proof -
  let ?i = "next_id (q_task_seq q) (map task_id (q_tasks q))"
  from assms(2) obtain t1 q2 where t1: "Task_new ?i new now = Inr t1"
    and c: "(case task_goal_id t1 of None \<Rightarrow> Inr ()
           | Some g \<Rightarrow> and_then (read_goal q g) (\<lambda>goal. lift (check_accepts_tasks goal))) = Inr ()"
    and q2: "exec_all (insert_dependency ?i now) (nt_dependencies new)
           (event ?i None ''task_created'' (JObj [(''goal_id'', id_json (task_goal_id t1))])
             (q\<lparr>q_tasks := q_tasks q @ [t1], q_task_seq := ?i\<rparr>)) = Inr q2"
    and q': "exec_all (insert_goal_dependency ?i now) (nt_goal_dependencies new) q2 = Inr q'"
    by (auto simp: insert_task_def Let_def)
  let ?q = "q\<lparr>q_tasks := q_tasks q @ [t1], q_task_seq := ?i\<rparr>"
  have g: "g \<in> goals_of q" "(g, Some Achieved) \<notin> set (goal_states q)" if "task_goal_id t1 = Some g" for g
    using c that accepting_goal [OF assms(1)] by auto
  have "row_ok t1" using Task_new_ok [OF t1] g(1) goals_positive [OF assms(1)]
    by (cases "task_goal_id t1") (auto simp: row_ok_def)
  then have "tasks_ok ?q" "goals_ok ?q" using assms(1) by (auto simp: queue_ok_def tasks_ok_def goals_ok_def)
  moreover have "graph_ok ?q"
    using graph_ok_append [OF queue_okD(3) [OF assms(1)], of t1] Task_new_Inr [OF t1] g by simp
  moreover have "runs_ok ?q"
    using queue_okD(4) [OF assms(1)] by (auto simp: runs_ok_def open_runs_def task_states_def)
  moreover have "achieved_ok ?q"
    using queue_okD(5) [OF assms(1)] g(2) by (auto simp: achieved_ok_def goal_states_def task_states_def)
  ultimately have "queue_ok ?q" by (rule queue_okI)
  then have "queue_ok q2" by (intro deps_inv.exec_all_inv [OF _ q2]) simp
  then show ?thesis by (rule goal_deps_inv.exec_all_inv [OF _ q'])
qed

subsection \<open>Moving a task to another status\<close>

lemma status_row_states:
  "task_states (status_row i from s now q) =
     map (\<lambda>(j, g, u). (j, g, if j = i \<and> u = from then s else u)) (task_states q)"
  "goal_states (status_row i from s now q) = goal_states q" "q_goals (status_row i from s now q) = q_goals q"
  "q_runs (status_row i from s now q) = q_runs q"
  by (simp_all add: status_row_def task_states_def goal_states_def)

lemma status_row_ok:
  assumes "queue_ok q" and "\<not> TaskStatus_is_terminal from" and "\<not> has_unfinished_run q i"
  shows "queue_ok (status_row i from s now q)"
proof (rule queue_okI)
  let ?q = "status_row i from s now q"
  show "tasks_ok ?q"
    using queue_okD(1) [OF assms(1)] by (auto simp: tasks_ok_def status_row_def row_ok_def task_ok_def)
  show "goals_ok ?q" using queue_okD(2) [OF assms(1)] by (simp add: goals_ok_def status_row_states)
  have "task_goals ?q = task_goals q" by (simp add: status_row_def task_goals_update)
  then show "graph_ok ?q"
    using queue_okD(3) [OF assms(1)] graph_ok_cong [of ?q q] by (simp add: status_row_def)
  have "i \<notin> set (open_runs q)" using assms(3) by (simp add: open_runs_has)
  then show "runs_ok ?q"
    using queue_okD(4) [OF assms(1)]
    by (force simp: runs_ok_def open_runs_def status_row_states image_image)
  show "achieved_ok ?q"
    using queue_okD(5) [OF assms(1)] assms(2)
    by (fastforce simp: achieved_ok_def status_row_states split: if_splits)
qed

text \<open>A transition never starts from a finished status nor while the task has an unfinished run.\<close>

lemma transition_from:
  "task_transition t a u = Inr t' \<Longrightarrow> \<not> TaskStatus_is_terminal (task_status t)
     \<and> (task_status t = InProgress \<longrightarrow> \<not> u)"
  by (cases "(task_status t, a, u)" rule: TaskStatus_transition.cases)
     (auto simp: task_transition_def TaskStatus_is_terminal_def)

lemma unfinished_in_progress:
  assumes "queue_ok q" and "has_unfinished_run q i" and "read_task q i = Inr t"
  shows "task_status t = InProgress"
proof -
  have "(i, InProgress) \<in> (\<lambda>(j, _, s). (j, s)) ` set (task_states q)"
    using assms(2) queue_okD(4) [OF assms(1)] by (simp add: runs_ok_def open_runs_has)
  then obtain t' where t': "t' \<in> set (q_tasks q)" "task_id t' = i" "task_status t' = InProgress"
    by (auto simp: task_states_def)
  have "distinct (map task_id (q_tasks q))"
    using queue_okD(3) [OF assms(1)] by (simp add: graph_ok_def rows_ok_def task_goals_def o_def)
  with t' read_task_Inr [OF assms(3)] have "t = t'" by (auto simp: distinct_map dest: inj_onD)
  with t'(3) show ?thesis by simp
qed

lemma depth_ok [simp]: "queue_ok (q\<lparr>q_follow_up_depth := d\<rparr>) = queue_ok q"
proof -
  have "same_states q (q\<lparr>q_follow_up_depth := d\<rparr>)"
    by (simp add: same_states_def task_states_def goal_states_def)
  from same_states_ok [OF this] show ?thesis by (simp add: queue_ok_def tasks_ok_def goals_ok_def)
qed

lemma record_transition_ok [simp]: "queue_ok (record_transition i a from to d q) = queue_ok q"
  by (simp add: record_transition_def Let_def)

lemma apply_transition_Inr:
  assumes "apply_transition i a now d q = Inr (t, q')"
  obtains t0 t1 where "read_task q i = Inr t0" "task_transition t0 a (has_unfinished_run q i) = Inr t1"
    "q' = record_transition i a (task_status t0) (task_status t1) d
            (status_row i (task_status t0) (task_status t1) now q)"
    "read_task q' i = Inr t"
  using assms by (auto simp: apply_transition_def Let_def)

lemma apply_transition_ok:
  assumes "queue_ok q" and "apply_transition i a now d q = Inr (t, q')"
  shows "queue_ok q'"
proof -
  from assms(2) obtain t0 t1 where r: "read_task q i = Inr t0"
    and t: "task_transition t0 a (has_unfinished_run q i) = Inr t1"
    and q': "q' = record_transition i a (task_status t0) (task_status t1) d
            (status_row i (task_status t0) (task_status t1) now q)"
    by (rule apply_transition_Inr)
  from transition_from [OF t] unfinished_in_progress [OF assms(1) _ r]
  have "\<not> TaskStatus_is_terminal (task_status t0)" "\<not> has_unfinished_run q i" by auto
  then show ?thesis unfolding q' by (simp add: status_row_ok [OF assms(1)])
qed

lemma cancel_as_duplicate_ok:
  assumes "queue_ok q" and "cancel_as_duplicate i d now q = Inr (t, q')"
  shows "queue_ok q'"
  using assms(2) apply_transition_ok [OF assms(1)]
  by (auto simp: cancel_as_duplicate_def split: if_splits option.splits)

subsection \<open>Goals\<close>

lemma read_goal_row:
  assumes "queue_ok q" and "read_goal q i = Inr g"
  shows "g \<in> set (q_goals q)" "goal_id g = i" "goal_ok g"
  using assms read_goal_Inr [of q i g] by auto

lemma goal_ok_of: "queue_ok q \<Longrightarrow> g \<in> set (q_goals q) \<Longrightarrow> goal_ok g"
  by (simp add: queue_ok_def goals_ok_def)

lemma store_edit_goal_ok:
  assumes "queue_ok q" and "store_edit_goal i e now q = Inr (g, q')"
  shows "queue_ok q'"
proof -
  from assms(2) obtain g0 g1 where r: "read_goal q i = Inr g0" "edit_goal g0 e = Inr g1"
    and q': "q' = goal_event i ''goal_updated'' (JObj [(''old'', goal_json g0), (''new'', goal_json g1)])
       (update_goals (\<lambda>r. goal_id r = i)
          (\<lambda>r. r\<lparr>goal_title := goal_title g1, goal_description := goal_description g1,
                  goal_acceptance := goal_acceptance g1, goal_constraints := goal_constraints g1,
                  goal_doc := goal_doc g1, goal_updated_at := now\<rparr>) q)"
    by (auto simp: store_edit_goal_def Let_def)
  have "\<not> blank (goal_title g1)"
    using edit_goal_Inr(5) [OF r(2)] read_goal_row(3) [OF assms(1) r(1)] by (simp add: goal_ok_def)
  then show ?thesis
    unfolding q' using goal_ok_of [OF assms(1)] by (auto simp: goal_ok_def intro!: update_goal_ok [OF assms(1)])
qed

lemma store_ready_goal_ok:
  assumes "queue_ok q" and "store_ready_goal i now q = Inr (g, q')"
  shows "queue_ok q'"
proof -
  from assms(2) obtain g0 g1 where r: "read_goal q i = Inr g0" "ready_goal g0 = Inr g1"
    and q': "q' = goal_event i ''goal_status_changed''
               (JObj [(''from'', JStr (GoalStatus_as_str (goal_status g0))),
                      (''to'', JStr (GoalStatus_as_str (goal_status g1)))])
       (update_goals (\<lambda>r. goal_id r = i)
          (\<lambda>r. r\<lparr>goal_status := goal_status g1, goal_updated_at := now\<rparr>) q)"
    by (auto simp: store_ready_goal_def Let_def)
  show ?thesis
    unfolding q' using goal_ok_of [OF assms(1)] by (auto simp: goal_ok_def intro!: update_goal_ok [OF assms(1)])
qed

lemma add_goal_ok:
  assumes "queue_ok q" and "add_goal new now q = Inr (g, q')"
  shows "queue_ok q'"
proof -
  let ?i = "next_id (q_goal_seq q) (map goal_id (q_goals q))"
  from assms(2) obtain g1 p where new: "Goal_new ?i new now = Inr g1"
    and q': "q' = goal_event ?i ''goal_created'' (JObj [(''goal'', p)])
                    (q\<lparr>q_goals := q_goals q @ [g1], q_goal_seq := ?i\<rparr>)"
    by (auto simp: add_goal_def Let_def)
  let ?q = "q\<lparr>q_goals := q_goals q @ [g1], q_goal_seq := ?i\<rparr>"
  have g1: "goal_id g1 = ?i" "goal_verdict g1 = None" "goal_ok g1"
    using new next_id_fresh(3) by (auto simp: Goal_new_def NewGoal_validate_def goal_ok_def require_positive_goal_def)
  have seq: "q_goal_seq q < ?i" "0 < ?i" by (simp_all add: next_id_fresh)
  have rows: "task_goals ?q = task_goals q" "task_states ?q = task_states q" "wait_edges ?q = wait_edges q"
    "ids_of ?q = ids_of q" "goals_of ?q = insert ?i (goals_of q)"
    by (simp_all add: task_goals_def task_states_def wait_edges_def ids_of_def goals_of_def g1(1))
  note ok = queue_okD [OF assms(1)]
  have fresh: "?i \<notin> goals_of q" using ok(3) seq by (auto simp: graph_ok_def rows_ok_def)
  have "rows_ok ?q"
    using ok(3) seq fresh g1(1) unfolding rows_ok_def graph_ok_def rows
    by (auto simp: goals_of_def)
  then have "graph_ok ?q" using ok(3) unfolding graph_ok_def deps_ok_def rows by auto
  moreover have "tasks_ok ?q" "goals_ok ?q" using ok(1,2) g1(3) by (auto simp: tasks_ok_def goals_ok_def)
  moreover have "runs_ok ?q" using ok(4) unfolding runs_ok_def rows by (simp add: open_runs_def)
  moreover have "achieved_ok ?q"
    using ok(5) g1(2) unfolding achieved_ok_def rows by (auto simp: goal_states_def)
  ultimately have "queue_ok ?q" by (intro queue_okI)
  then show ?thesis unfolding q' by simp
qed

text \<open>The counts the store reads allow an achieved close only when each task of the goal is finished.\<close>

lemma fold_counts_zero:
  "cnt_draft (fold (\<lambda>s c. TaskStatusCounts_count c s (f s)) ss c) = 0
     \<longleftrightarrow> cnt_draft c = 0 \<and> (Draft \<in> set ss \<longrightarrow> f Draft = 0)"
  "cnt_submitted (fold (\<lambda>s c. TaskStatusCounts_count c s (f s)) ss c) = 0
     \<longleftrightarrow> cnt_submitted c = 0 \<and> (Submitted \<in> set ss \<longrightarrow> f Submitted = 0)"
  "cnt_ready (fold (\<lambda>s c. TaskStatusCounts_count c s (f s)) ss c) = 0
     \<longleftrightarrow> cnt_ready c = 0 \<and> (Ready \<in> set ss \<longrightarrow> f Ready = 0)"
  "cnt_in_progress (fold (\<lambda>s c. TaskStatusCounts_count c s (f s)) ss c) = 0
     \<longleftrightarrow> cnt_in_progress c = 0 \<and> (InProgress \<in> set ss \<longrightarrow> f InProgress = 0)"
  by (induction ss arbitrary: c) (auto simp: TaskStatusCounts_count_def Let_def split: task_status.splits)

lemma close_blocking_store:
  "close_blocking v (task_counts q g) = [] \<longleftrightarrow>
     (\<forall>t \<in> set (q_tasks q). task_goal_id t = Some g \<longrightarrow> GoalVerdict_allows v (task_status t))"
proof -
  let ?ss = "map task_status (filter (\<lambda>t. task_goal_id t = Some g) (q_tasks q))"
  have "close_blocking v (task_counts q g) = [] \<longleftrightarrow> close_blocking v (counts_of ?ss) = []"
    unfolding close_blocking_Nil task_counts_def Let_def fold_counts_zero counts_of_def counts_fold
    by (simp add: no_counts_def count_list_0)
  then show ?thesis by (auto simp: close_blocking_counts)
qed

lemma store_close_goal_ok:
  assumes "queue_ok q" and "store_close_goal i v now q = Inr (g, q')"
  shows "queue_ok q'"
proof -
  from assms(2) obtain g0 g1 where r: "read_goal q i = Inr g0"
    and c: "close_goal g0 v (task_counts q i) now = Inr g1"
    and q': "q' = goal_event i ''goal_closed''
         (JObj [(''verdict'', JStr (GoalVerdict_as_str v)), (''tasks'', counts_json (task_counts q i))])
         (update_goals (\<lambda>r. goal_id r = i \<and> goal_closed_at r = None)
            (\<lambda>r. r\<lparr>goal_closed_at := goal_closed_at g1, goal_verdict := goal_verdict g1,
                    goal_updated_at := goal_updated_at g1\<rparr>) q)"
    by (auto simp: store_close_goal_def Let_def)
  from c have allows: "\<And>t. t \<in> set (q_tasks q) \<Longrightarrow> task_goal_id t = Some i \<Longrightarrow> GoalVerdict_allows v (task_status t)"
    and g1: "goal_closed_at g1 = Some now" "goal_verdict g1 = Some v"
    by (auto simp: close_goal_Inr close_blocking_store)
  let ?p = "\<lambda>r. goal_id r = i \<and> goal_closed_at r = None"
  let ?f = "\<lambda>r. r\<lparr>goal_closed_at := goal_closed_at g1, goal_verdict := goal_verdict g1,
                  goal_updated_at := goal_updated_at g1\<rparr>"
  let ?q = "update_goals ?p ?f q"
  note ok = queue_okD [OF assms(1)]
  have rows: "task_states ?q = task_states q" "task_goals ?q = task_goals q"
    by (simp_all add: task_states_def task_goals_def)
  have "graph_ok ?q" using ok(3) graph_ok_cong [of ?q q] rows(2) by (simp add: o_def if_distrib cong: if_cong)
  moreover have "tasks_ok ?q" "goals_ok ?q"
    using ok(1,2) g1 by (auto simp: tasks_ok_def goals_ok_def goal_ok_def)
  moreover have "runs_ok ?q" using ok(4) unfolding runs_ok_def rows by (simp add: open_runs_def)
  moreover have "achieved_ok ?q"
    using ok(5) g1(2) allows unfolding achieved_ok_def rows
    by (fastforce simp: goal_states_def task_states_def GoalVerdict_allows_def)
  ultimately have "queue_ok ?q" by (intro queue_okI)
  then show ?thesis unfolding q' by simp
qed

end
