(* ===== verification/Queue_Claiming.thy ===== *)
theory Queue_Claiming
  imports Queue_Invariant
begin

text \<open>
  What a claim does on a queue that satisfies its invariant: the rows read without error, the graph
  built from them blocks along the wait graph only, so it has no cycle and the claim order ends, and
  the reserved task is one of the claimable ones.
\<close>

subsection \<open>Reading the rows\<close>

lemma collect_same:
  assumes "\<And>x. x \<in> set xs \<Longrightarrow> f x = Inr (h x)"
  shows "collect f xs = Inr (map h xs)"
  using assms by (induction xs) auto

lemma row_restores: "row_ok t \<Longrightarrow> task_row t = Inr t"
  by (auto simp: row_ok_def task_ok_def task_row_Inr Task_restore_def require_positive_task_def)

lemma goal_restores: "goal_ok g \<Longrightarrow> goal_row g = Inr g"
  by (simp add: goal_row_Inr Goal_restore_iff)

lemma set_ready_query: "set (ready_query q) = {t \<in> set (q_tasks q). ready_row q t}"
  by (simp add: ready_query_def)

lemma ready_tasks_ok: "queue_ok q \<Longrightarrow> ready_tasks q = Inr (ready_query q)"
  unfolding ready_tasks_def
  by (subst collect_same [where h = id]) (auto simp: set_ready_query row_restores dest: row_ok_of)

definition gtask :: "queue \<Rightarrow> task \<Rightarrow> graph_task" where
  "gtask q t =
     \<lparr>gt_id = task_id t, gt_status = task_status t, gt_priority = task_priority t,
      gt_title = task_title t, gt_goal_id = task_goal_id t,
      gt_goal_status =
        (case task_goal_id t of None \<Rightarrow> None
         | Some g \<Rightarrow> map_option goal_status (find (\<lambda>r. goal_id r = g) (q_goals q))),
      gt_depends_on = sort (map snd (filter (\<lambda>(i, _). i = task_id t) (q_deps q))),
      gt_goal_dependencies =
        map (\<lambda>g. \<lparr>ggd_goal_id = goal_id g, ggd_verdict = goal_verdict g\<rparr>)
          (graph_goal_deps q (task_id t))\<rparr>"

lemma read_goal_ok:
  assumes "queue_ok q" and "g \<in> goals_of q"
  obtains r where "find (\<lambda>r. goal_id r = g) (q_goals q) = Some r" "read_goal q g = Inr r"
proof -
  from assms(2) obtain r where r: "find (\<lambda>r. goal_id r = g) (q_goals q) = Some r"
    by (cases "find (\<lambda>r. goal_id r = g) (q_goals q)") (auto simp: goals_of_def find_None_iff)
  moreover have "goal_ok r"
    using goal_ok_of [OF assms(1)] find_in [OF r] by simp
  ultimately show thesis using that [of r] by (simp add: read_goal_def goal_restores)
qed

lemma find_distinct: "distinct (map f xs) \<Longrightarrow> x \<in> set xs \<Longrightarrow> find (\<lambda>y. f y = f x) xs = Some x"
  by (induction xs) auto

lemma read_task_ok:
  assumes "queue_ok q" and "t \<in> set (q_tasks q)"
  shows "read_task q (task_id t) = Inr t"
proof -
  have "distinct (map task_id (q_tasks q))"
    using queue_okD(3) [OF assms(1)] by (simp add: graph_ok_def rows_ok_def task_goals_def o_def)
  then have "find (\<lambda>r. task_id r = task_id t) (q_tasks q) = Some t"
    using assms(2) by (rule find_distinct)
  then show ?thesis using row_ok_of [OF assms] by (simp add: read_task_def row_restores)
qed

lemma set_graph_goal_deps:
  "set (graph_goal_deps q i) = {r \<in> set (q_goals q). (i, goal_id r) \<in> set (q_goal_deps q)}"
  by (auto simp: graph_goal_deps_def split: if_splits)

lemma graph_task_of_ok:
  assumes "queue_ok q" and "t \<in> set (q_tasks q)"
  shows "graph_task_of q t = Inr (gtask q t)"
proof -
  have goals: "collect goal_row (graph_goal_deps q (task_id t)) = Inr (graph_goal_deps q (task_id t))"
    by (subst collect_same [where h = id])
       (use goal_ok_of [OF assms(1)] in \<open>auto simp: set_graph_goal_deps goal_restores\<close>)
  show ?thesis
  proof (cases "task_goal_id t")
    case None
    then show ?thesis by (simp add: graph_task_of_def goals gtask_def)
  next
    case (Some g)
    have "g \<in> goals_of q"
      using queue_okD(3) [OF assms(1)] assms(2) Some
      by (force simp: graph_ok_def rows_ok_def task_goals_def)
    from read_goal_ok [OF assms(1) this] obtain r where
      "find (\<lambda>r. goal_id r = g) (q_goals q) = Some r" "read_goal q g = Inr r" .
    then show ?thesis by (simp add: graph_task_of_def goals gtask_def Some)
  qed
qed

lemma set_open_tasks: "set (open_tasks q) \<subseteq> set (q_tasks q)"
  by (auto simp: open_tasks_def)

lemma read_graph_input_ok:
  assumes "queue_ok q"
  shows "read_graph_input q =
    Inr \<lparr>gi_tasks = map (gtask q) (open_tasks q), gi_candidates = map task_id (ready_query q)\<rparr>"
proof -
  have row: "t \<in> set (open_tasks q) \<Longrightarrow> t \<in> set (q_tasks q)" for t using set_open_tasks by auto
  have "collect task_row (open_tasks q) = Inr (map id (open_tasks q))"
    by (rule collect_same) (simp add: row_restores row_ok_of [OF assms row])
  moreover have "collect (graph_task_of q) (open_tasks q) = Inr (map (gtask q) (open_tasks q))"
    by (rule collect_same) (simp add: graph_task_of_ok [OF assms row])
  ultimately show ?thesis by (simp add: read_graph_input_def)
qed

subsection \<open>The claim order ends\<close>

definition queue_input :: "queue \<Rightarrow> graph_input" where
  "queue_input q =
     \<lparr>gi_tasks = map (gtask q) (open_tasks q), gi_candidates = map task_id (ready_query q)\<rparr>"

lemma gtask_simps [simp]:
  "gt_id (gtask q t) = task_id t" "gt_goal_id (gtask q t) = task_goal_id t"
  by (simp_all add: gtask_def)

lemma queue_input_simps:
  "set (gi_tasks (queue_input q)) = gtask q ` set (open_tasks q)"
  "gi_candidates (queue_input q) = map task_id (ready_query q)"
  by (simp_all add: queue_input_def)

lemma blocks_wait:
  assumes "(p, t) \<in> set (blocks (queue_input q))"
  shows "(NTask t, NTask p) \<in> (set (wait_edges q))\<^sup>+"
proof -
  from assms obtain task where task: "task \<in> set (open_tasks q)" "task_id task = t"
    and "p \<in> set (gt_depends_on (gtask q task))
       \<or> (\<exists>d \<in> set (gt_goal_dependencies (gtask q task)). ggd_verdict d = None
            \<and> p \<in> set (members (queue_input q) (ggd_goal_id d)))"
    unfolding set_blocks queue_input_simps by fastforce
  then consider "(t, p) \<in> set (q_deps q)"
    | g where "(t, g) \<in> set (q_goal_deps q)" "p \<in> set (members (queue_input q) g)"
    using task by (auto simp: gtask_def set_graph_goal_deps)
  then show ?thesis
  proof cases
    case 1
    then show ?thesis by (intro r_into_trancl) (force simp: set_wait_edges)
  next
    case 2
    from 2(2) have "(p, Some g) \<in> set (task_goals q)"
      using set_open_tasks [of q]
      by (auto simp: members_def queue_input_def gtask_def task_goals_def)
    then have "(NTask t, NGoal g) \<in> set (wait_edges q)" "(NGoal g, NTask p) \<in> set (wait_edges q)"
      using 2(1) by (auto simp: set_wait_edges)
    then show ?thesis by (rule trancl_into_trancl [OF r_into_trancl])
  qed
qed

lemma blocks_wait_trancl:
  "(p, t) \<in> (set (blocks (queue_input q)))\<^sup>+ \<Longrightarrow> (NTask t, NTask p) \<in> (set (wait_edges q))\<^sup>+"
  by (induction rule: trancl_induct) (auto dest: blocks_wait intro: trancl_trans)

lemma blocks_acyclic: "graph_ok q \<Longrightarrow> acyclic (set (blocks (queue_input q)))"
  using blocks_wait_trancl by (auto simp: graph_ok_def acyclic_def)

lemma claim_order_ok:
  assumes "queue_ok q"
  shows "claim_order q = Some (Inr (graph_candidates (queue_input q) None))"
proof -
  obtain c where "critical_loop (queue_input q) (critical_start (queue_input q) None) [] = Some c"
    using critical_loop_ends [OF blocks_acyclic [OF queue_okD(3) [OF assms]]] by blast
  then show ?thesis
    by (simp add: claim_order_def read_graph_input_ok [OF assms] queue_input_def [symmetric]
        dependency_graph_def)
qed

subsection \<open>Reserving a task\<close>

lemma task_position_in:
  assumes "task_position ready ids = Some t"
  shows "t \<in> set ready" "task_id t \<in> set ids"
proof -
  from assms have "t \<in> set (List.map_filter (\<lambda>i. find (\<lambda>t. task_id t = i) ready) ids)"
    by (auto simp: task_position_def split: list.splits)
  then obtain i where "i \<in> set ids" "find (\<lambda>t. task_id t = i) ready = Some t"
    by (auto simp: List.map_filter_def)
  with find_in [of "\<lambda>t. task_id t = i" ready t] show "t \<in> set ready" "task_id t \<in> set ids" by auto
qed

lemma task_position_head:
  assumes "t \<in> set ready" and "distinct (map task_id ready)"
  shows "task_position ready (task_id t # ids) = Some t"
  using find_distinct [OF assms(2,1)] by (simp add: task_position_def List.map_filter_simps)

lemma filter_distinct:
  "distinct (map f xs) \<Longrightarrow> x \<in> set xs \<Longrightarrow> filter (\<lambda>y. f y = f x \<and> g y = g x) xs = [x]"
proof (induction xs)
  case (Cons y ys)
  show ?case
  proof (cases "y = x")
    case True
    with Cons.prems have "\<forall>z \<in> set ys. f z \<noteq> f x" by (metis distinct.simps(2) image_eqI list.simps(9) list.set_map)
    with True show ?thesis by (auto simp: filter_empty_conv)
  next
    case False
    with Cons.prems have "f y \<noteq> f x" by auto
    with False Cons show ?thesis by simp
  qed
qed simp

lemma rows_in_one:
  assumes "queue_ok q" and "t \<in> set (q_tasks q)"
  shows "rows_in (task_id t) (task_status t) q = 1"
proof -
  have "distinct (map task_id (q_tasks q))"
    using queue_okD(3) [OF assms(1)] by (simp add: graph_ok_def rows_ok_def task_goals_def o_def)
  then have "filter (\<lambda>r. task_id r = task_id t \<and> task_status r = task_status t) (q_tasks q) = [t]"
    using assms(2) by (rule filter_distinct)
  then show ?thesis by (simp add: rows_in_def)
qed

definition claimed_run :: "string \<Rightarrow> task \<Rightarrow> commit_sha \<Rightarrow> string \<Rightarrow> task_run" where
  "claimed_run i t base now =
     \<lparr>run_id = i, run_task_id = task_id t, run_status = Claimed,
      run_requested_provider = Claude, run_actual_provider = Claude, run_base_commit = base,
      run_branch = None, run_worktree_path = None, run_workspace_id = None,
      run_receipt_path = None, run_log_path = None, run_result_commit = None,
      run_repo_path = None, run_dir = None, run_last_error = None,
      run_workspace_closed_at = None, run_created_at = now\<rparr>"

text \<open>The queue a reservation leaves, but for the event it records.\<close>

definition reserved :: "task \<Rightarrow> task_run \<Rightarrow> string \<Rightarrow> queue \<Rightarrow> queue" where
  "reserved t run now q =
     (let q = status_row (task_id t) Ready InProgress now q in q\<lparr>q_runs := q_runs q @ [run]\<rparr>)"

lemma reserve_Inr:
  assumes "reserve d uuid now base attributes t q = Inr (outcome, q')"
  obtains sha payload where
    "task_status t = Ready" "outcome = ClaimedRun (relocated (claimed_run uuid t sha now) d)"
    "CommitSha_parse (to_ascii_lowercase base) ''base commit'' = Inr sha"
    "rows_in (task_id t) Ready q = 1" "\<not> has_unfinished_run q (task_id t)"
    "uuid \<notin> set (map run_id (q_runs q))"
    "q' = event (task_id t) (Some uuid) ''run_claimed'' payload
            (reserved t (claimed_run uuid t sha now) now q)"
  using assms
  by (auto simp: reserve_def task_claim_def RunId_new_def TaskRun_new_def Let_def claimed_run_def
      reserved_def split: if_splits)

lemma reserved_ok:
  assumes "queue_ok q" and "t \<in> set (q_tasks q)" and "task_status t = Ready"
    and "\<not> has_unfinished_run q (task_id t)"
  shows "queue_ok (reserved t (claimed_run i t base now) now q)"
proof -
  let ?q = "status_row (task_id t) Ready InProgress now q"
  have q: "queue_ok ?q"
    using status_row_ok [OF assms(1) _ assms(4)] by (simp add: TaskStatus_is_terminal_def)
  let ?r = "?q\<lparr>q_runs := q_runs ?q @ [claimed_run i t base now]\<rparr>"
  have rows: "task_states ?r = task_states ?q" "goal_states ?r = goal_states ?q" "wait_edges ?r = wait_edges ?q"
    "task_goals ?r = task_goals ?q" "open_runs ?r = open_runs ?q @ [task_id t]"
    by (simp_all add: task_states_def goal_states_def wait_edges_def task_goals_def open_runs_def
        claimed_run_def unfinished_def)
  have "task_id t \<notin> set (open_runs ?q)"
    using assms(4) by (simp add: open_runs_has has_unfinished_run_def status_row_states)
  moreover have "(task_id t, InProgress) \<in> (\<lambda>(j, _, s). (j, s)) ` set (task_states ?q)"
  proof -
    have "(task_id t, task_goal_id t, Ready) \<in> set (task_states q)"
      using assms(2,3) by (force simp: task_states_def)
    then have "(task_id t, task_goal_id t, InProgress) \<in> set (task_states ?q)"
      by (force simp: status_row_states)
    then show ?thesis by force
  qed
  ultimately have "runs_ok ?r" using queue_okD(4) [OF q] unfolding runs_ok_def rows by simp
  moreover have "graph_ok ?r" using queue_okD(3) [OF q] graph_ok_cong [of ?r ?q] rows(4) by simp
  moreover have "achieved_ok ?r" using queue_okD(5) [OF q] unfolding achieved_ok_def rows .
  ultimately show ?thesis
    using queue_okD(1,2) [OF q] by (simp add: queue_ok_def reserved_def tasks_ok_def goals_ok_def Let_def)
qed

lemma reserve_succeeds:
  assumes "queue_ok q" and "t \<in> set (ready_query q)"
    and "\<not> blank uuid" "uuid \<notin> set (map run_id (q_runs q))"
    and "CommitSha_parse (to_ascii_lowercase base) ''base commit'' = Inr sha"
  shows "\<exists>payload. reserve d uuid now base attributes t q =
    Inr (ClaimedRun (relocated (claimed_run uuid t sha now) d),
         event (task_id t) (Some uuid) ''run_claimed'' payload
           (reserved t (claimed_run uuid t sha now) now q))"
proof -
  from assms(2) have t: "t \<in> set (q_tasks q)" "task_status t = Ready" "\<not> has_unfinished_run q (task_id t)"
    by (auto simp: set_ready_query ready_row_def has_unfinished_run_def list_ex_iff)
  with rows_in_one [OF assms(1) t(1)] assms(3-5) show ?thesis
    by (auto simp: reserve_def task_claim_def RunId_new_def TaskRun_new_def Let_def claimed_run_def
        reserved_def)
qed

subsection \<open>The claim\<close>

lemma distinct_ready: "queue_ok q \<Longrightarrow> distinct (map task_id (ready_query q))"
proof -
  assume "queue_ok q"
  then have "distinct (map task_id (q_tasks q))"
    by (simp add: queue_ok_def graph_ok_def rows_ok_def task_goals_def o_def)
  then show ?thesis by (simp add: ready_query_def distinct_map distinct_filter inj_on_def)
qed

text \<open>What a claim does: nothing when no task is claimable, else reserve the preferred one.\<close>

definition preferred :: "queue \<Rightarrow> task_id list \<Rightarrow> task \<Rightarrow> bool" where
  "preferred q order t \<longleftrightarrow> t \<in> set (ready_query q)
     \<and> (task_position (ready_query q) order = Some t
        \<or> task_position (ready_query q) order = None
          \<and> (\<forall>u \<in> set (ready_query q).
               claim_rank (queue_input q) (task_id t) \<le> claim_rank (queue_input q) (task_id u)))"

lemma claim_task_ok:
  assumes "queue_ok q"
  shows "ready_query q = [] \<Longrightarrow> claim_task d uuid now base order attributes q = Some (Inr (NoReadyTask, q))"
    and "ready_query q \<noteq> [] \<Longrightarrow> \<exists>t. preferred q order t
      \<and> claim_task d uuid now base order attributes q = Some (reserve d uuid now base attributes t q)"
proof -
  note ready = ready_tasks_ok [OF assms]
  show "ready_query q = [] \<Longrightarrow> claim_task d uuid now base order attributes q = Some (Inr (NoReadyTask, q))"
    by (simp add: claim_task_def ready)
  assume ne: "ready_query q \<noteq> []"
  then obtain u us where u: "ready_query q = u # us" by (cases "ready_query q") auto
  show "\<exists>t. preferred q order t
      \<and> claim_task d uuid now base order attributes q = Some (reserve d uuid now base attributes t q)"
  proof (cases "task_position (ready_query q) order")
    case (Some t)
    then show ?thesis using task_position_in(1) [OF Some]
      by (intro exI [of _ t]) (simp add: preferred_def claim_task_def ready u)
  next
    case None
    let ?ids = "graph_candidates (queue_input q) None"
    have ids: "set ?ids = task_id ` set (ready_query q)"
      by (simp add: graph_candidates_def queue_input_simps)
    have sorted: "sorted (map (claim_rank (queue_input q)) ?ids)" by (simp add: graph_candidates_def)
    from ids ne obtain i rest where i: "?ids = i # rest" by (cases ?ids) auto
    with ids obtain t where t: "t \<in> set (ready_query q)" "task_id t = i" by force
    have "task_position (ready_query q) ?ids = Some t"
      using task_position_head [OF t(1) distinct_ready [OF assms]] i t(2) by simp
    moreover have "claim_rank (queue_input q) i \<le> claim_rank (queue_input q) (task_id v)"
      if "v \<in> set (ready_query q)" for v
    proof -
      have "task_id v \<in> set ?ids" using that ids by auto
      with sorted i show ?thesis by auto
    qed
    ultimately show ?thesis using None t
      by (intro exI [of _ t]) (simp add: preferred_def claim_task_def ready claim_order_ok [OF assms] u)
  qed
qed

end
