(* ===== verification/Queue_Proposals.thy ===== *)
theory Queue_Proposals
  imports Queue_Claiming
begin

text \<open>
  The proposals of the queue (\<^verbatim>\<open>src/src/infrastructure/proposals.rs\<close>): reading and saving one, and
  the two decisions of plan review, \<open>approve\<close> and \<open>send_back\<close>, which move its submitted tasks.
\<close>

subsection \<open>Rows\<close>

definition member_ids :: "('k::linorder \<times> proposal_id) list \<Rightarrow> proposal_id \<Rightarrow> 'k list" where
  "member_ids rows i = sort (map fst (filter (\<lambda>(_, p). p = i) rows))"

definition read_proposal :: "queue \<Rightarrow> proposal_id \<Rightarrow> proposal stored" where
  "read_proposal q i =
     (case find (\<lambda>r. pr_id r = i) (q_proposals q) of
        None \<Rightarrow> Inl (Message (''proposal '' @ show_int i @ '' does not exist''))
      | Some r \<Rightarrow>
          lift (Proposal_restore
            \<lparr>prop_id = pr_id r, prop_status = pr_status r, prop_owner = pr_owner r,
             prop_submitted_at = pr_submitted_at r, prop_revise_count = pr_revise_count r,
             prop_task_ids = member_ids (q_task_proposal q) i,
             prop_goal_ids = member_ids (q_goal_proposal q) i,
             prop_created_at = pr_created_at r, prop_updated_at = pr_updated_at r\<rparr>))"

definition save_proposal :: "proposal \<Rightarrow> queue \<Rightarrow> queue" where
  "save_proposal p q =
     (let row = \<lparr>pr_id = prop_id p, pr_status = prop_status p, pr_owner = prop_owner p,
                 pr_submitted_at = prop_submitted_at p, pr_revise_count = prop_revise_count p,
                 pr_created_at = prop_created_at p, pr_updated_at = prop_updated_at p\<rparr>
      in q\<lparr>q_proposals :=
             (if list_ex (\<lambda>r. pr_id r = prop_id p) (q_proposals q)
              then map (\<lambda>r. if pr_id r = prop_id p then row\<lparr>pr_created_at := pr_created_at r\<rparr> else r)
                     (q_proposals q)
              else q_proposals q @ [row])\<rparr>)"

definition task_membership :: "queue \<Rightarrow> task_id \<Rightarrow> (proposal_id \<times> proposal_status) option" where
  "task_membership q i =
     Option.bind (map_of (q_task_proposal q) i)
       (\<lambda>p. map_option (\<lambda>r. (pr_id r, pr_status r)) (find (\<lambda>r. pr_id r = p) (q_proposals q)))"

definition goal_membership :: "queue \<Rightarrow> goal_id \<Rightarrow> (proposal_id \<times> proposal_status) option" where
  "goal_membership q i =
     Option.bind (map_of (q_goal_proposal q) i)
       (\<lambda>p. map_option (\<lambda>r. (pr_id r, pr_status r)) (find (\<lambda>r. pr_id r = p) (q_proposals q)))"

definition list_proposals :: "queue \<Rightarrow> bool \<Rightarrow> proposal list stored" where
  "list_proposals q all_of_them =
     collect (read_proposal q)
       (map pr_id
         (sort_key (\<lambda>r. (map of_char (pr_submitted_at r) :: nat list, pr_id r))
           (filter (\<lambda>r. all_of_them \<or> pr_status r \<in> {ProposalSubmitted, Revising}) (q_proposals q))))"

definition stored_status :: "queue \<Rightarrow> task_id \<Rightarrow> task_status stored" where
  "stored_status q i =
     (case find (\<lambda>t. task_id t = i) (q_tasks q) of
        None \<Rightarrow> Inl (Message ''Query returned no rows'')
      | Some t \<Rightarrow> Inr (task_status t))"

text \<open>The task's goal and its verdict when that goal is closed; a verdict that is not there is a type error.\<close>

definition closed_goal :: "queue \<Rightarrow> task_id \<Rightarrow> (goal_id \<times> goal_verdict) option stored" where
  "closed_goal q i =
     (case Option.bind (find (\<lambda>t. task_id t = i) (q_tasks q))
             (\<lambda>t. find (\<lambda>g. Some (goal_id g) = task_goal_id t \<and> goal_closed_at g \<noteq> None) (q_goals q)) of
        None \<Rightarrow> Inr None
      | Some g \<Rightarrow>
          (case goal_verdict g of
             None \<Rightarrow> Inl (Message ''Invalid column type Null at index: 1, name: verdict'')
           | Some v \<Rightarrow> Inr (Some (goal_id g, v))))"

subsection \<open>Plan review's decisions\<close>

definition approve_task :: "proposal_id \<Rightarrow> string \<Rightarrow> task_id \<Rightarrow> queue \<Rightarrow> queue stored" where
  "approve_task p now i q =
     and_then (stored_status q i) (\<lambda>s.
     if s \<noteq> Submitted then Inr q
     else and_then (closed_goal q i) (\<lambda>closed.
       case closed of
         Some (g, v) \<Rightarrow>
           and_then (transition_task i ActDraft now q) (\<lambda>(_, q).
           Inr (event i None ''approve_withheld''
                  (JObj [(''proposal_id'', JInt p), (''goal_id'', JInt g),
                         (''verdict'', JStr (GoalVerdict_as_str v))]) q))
       | None \<Rightarrow> and_then (transition_task i ActApprove now q) (\<lambda>(_, q). Inr q)))"

definition open_draft_goal :: "string \<Rightarrow> goal_id \<Rightarrow> queue \<Rightarrow> queue stored" where
  "open_draft_goal now i q =
     and_then (read_goal q i) (\<lambda>draft.
     if goal_status draft = GoalDraft \<and> \<not> Goal_is_closed draft
     then and_then (lift (ready_goal draft)) (\<lambda>g.
       Inr (goal_event i ''goal_status_changed''
              (JObj [(''from'', JStr (GoalStatus_as_str GoalDraft)),
                     (''to'', JStr (GoalStatus_as_str (goal_status g)))])
              (update_goals (\<lambda>r. goal_id r = i)
                 (\<lambda>r. r\<lparr>goal_status := goal_status g, goal_updated_at := now\<rparr>) q)))
     else Inr q)"

definition approve :: "proposal_id \<Rightarrow> string \<Rightarrow> queue \<Rightarrow> (proposal \<times> queue) stored" where
  "approve i now q =
     and_then (read_proposal q i) (\<lambda>p.
     and_then (lift (accept_proposal p now)) (\<lambda>accepted.
     and_then (exec_all (approve_task i now) (prop_task_ids accepted) (save_proposal accepted q)) (\<lambda>q.
     and_then (exec_all (open_draft_goal now) (prop_goal_ids accepted) q) (\<lambda>q.
     and_then (read_proposal q i) (\<lambda>p. Inr (p, q))))))"

definition return_task :: "string \<Rightarrow> task_id \<Rightarrow> queue \<Rightarrow> queue stored" where
  "return_task now i q =
     and_then (stored_status q i) (\<lambda>s.
     if s = Submitted then and_then (transition_task i ActDraft now q) (\<lambda>(_, q). Inr q) else Inr q)"

definition send_back :: "proposal_id \<Rightarrow> string \<Rightarrow> queue \<Rightarrow> (proposal \<times> queue) stored" where
  "send_back i now q =
     and_then (read_proposal q i) (\<lambda>p.
     and_then (lift (send_back_proposal p now)) (\<lambda>revising.
     and_then (exec_all (return_task now) (prop_task_ids revising) (save_proposal revising q)) (\<lambda>q.
     and_then (read_proposal q i) (\<lambda>p. Inr (p, q)))))"

subsection \<open>The invariant of the queue\<close>

lemma save_proposal_ok [simp]: "queue_ok (save_proposal p q) = queue_ok q"
proof -
  have "same_states q (save_proposal p q)"
    by (simp add: same_states_def task_states_def goal_states_def save_proposal_def Let_def)
  from same_states_ok [OF this] show ?thesis
    by (simp add: queue_ok_def tasks_ok_def goals_ok_def save_proposal_def Let_def)
qed

lemma transition_task_keeps:
  assumes "transition_task i a now q = Inr (t, q')"
  shows "q_runs q' = q_runs q" "q_goals q' = q_goals q" "queue_ok q \<Longrightarrow> queue_ok q'"
proof -
  have "q_runs q' = q_runs q \<and> q_goals q' = q_goals q"
    using assms unfolding transition_task_def
    by (elim apply_transition_Inr) (simp add: record_transition_def Let_def event_rows status_row_states)
  then show "q_runs q' = q_runs q" "q_goals q' = q_goals q" by auto
  show "queue_ok q \<Longrightarrow> queue_ok q'"
    using assms apply_transition_ok unfolding transition_task_def by blast
qed

lemma approve_task_Inr:
  assumes "approve_task p now i q = Inr q'"
  obtains "q' = q" "stored_status q i \<noteq> Inr Submitted"
  | g v t q1 payload where "stored_status q i = Inr Submitted" "closed_goal q i = Inr (Some (g, v))"
      "transition_task i ActDraft now q = Inr (t, q1)" "q' = event i None ''approve_withheld'' payload q1"
  | t where "stored_status q i = Inr Submitted" "closed_goal q i = Inr None"
      "transition_task i ActApprove now q = Inr (t, q')"
proof (cases "stored_status q i = Inr Submitted")
  case False
  then show thesis using that(1) assms by (auto simp: approve_task_def split: if_splits)
next
  case True
  with assms obtain c where c: "closed_goal q i = Inr c" by (auto simp: approve_task_def)
  show thesis
  proof (cases c)
    case None
    with True c assms that(3) show thesis by (auto simp: approve_task_def)
  next
    case (Some gv)
    with True c assms that(2) show thesis by (cases gv) (auto simp: approve_task_def)
  qed
qed

lemma approve_task_ok: "approve_task p now i q = Inr q' \<Longrightarrow> queue_ok q \<Longrightarrow> queue_ok q'"
  by (erule approve_task_Inr) (auto simp: transition_task_keeps(3))

lemma approve_task_runs: "approve_task p now i q = Inr q' \<Longrightarrow> q_runs q' = q_runs q"
  by (erule approve_task_Inr) (auto simp: transition_task_keeps(1) event_rows)

lemma return_task_ok: "return_task now i q = Inr q' \<Longrightarrow> queue_ok q \<Longrightarrow> queue_ok q'"
  by (auto simp: return_task_def transition_task_keeps(3) split: if_splits)

lemma return_task_runs: "return_task now i q = Inr q' \<Longrightarrow> q_runs q' = q_runs q"
  by (auto simp: return_task_def transition_task_keeps(1) split: if_splits)

lemma open_draft_goal_ok: "open_draft_goal now i q = Inr q' \<Longrightarrow> queue_ok q \<Longrightarrow> queue_ok q'"
proof -
  assume r: "open_draft_goal now i q = Inr q'" and q: "queue_ok q"
  have "queue_ok (update_goals (\<lambda>r. goal_id r = i) (\<lambda>r. r\<lparr>goal_status := s, goal_updated_at := now\<rparr>) q)" for s
    by (rule update_goal_ok [OF q]) (use goal_ok_of [OF q] in \<open>auto simp: goal_ok_def\<close>)
  with r q show ?thesis by (auto simp: open_draft_goal_def split: if_splits)
qed

lemma open_draft_goal_runs: "open_draft_goal now i q = Inr q' \<Longrightarrow> q_runs q' = q_runs q"
  by (auto simp: open_draft_goal_def goal_event_def split: if_splits)

interpretation approve_tasks: aggregate "approve_task p now" q_runs queue_ok for p now
  by unfold_locales (fact approve_task_runs, blast dest: approve_task_ok)

interpretation return_tasks: aggregate "return_task now" q_runs queue_ok for now
  by unfold_locales (fact return_task_runs, blast dest: return_task_ok)

interpretation open_goals: aggregate "open_draft_goal now" q_runs queue_ok for now
  by unfold_locales (fact open_draft_goal_runs, blast dest: open_draft_goal_ok)

lemma approve_ok:
  assumes "queue_ok q" and "approve i now q = Inr (p, q')"
  shows "queue_ok q'"
proof -
  from assms(2) obtain acc q1 where
    "exec_all (approve_task i now) (prop_task_ids acc) (save_proposal acc q) = Inr q1"
    "exec_all (open_draft_goal now) (prop_goal_ids acc) q1 = Inr q'"
    by (auto simp: approve_def)
  with assms(1) approve_tasks.exec_all_inv open_goals.exec_all_inv show ?thesis
    by (metis save_proposal_ok)
qed

lemma send_back_ok:
  assumes "queue_ok q" and "send_back i now q = Inr (p, q')"
  shows "queue_ok q'"
proof -
  from assms(2) obtain r where "exec_all (return_task now) (prop_task_ids r) (save_proposal r q) = Inr q'"
    by (auto simp: send_back_def)
  with assms(1) return_tasks.exec_all_inv show ?thesis by (metis save_proposal_ok)
qed

end
