(* ===== verification/Queue_Steps.thy ===== *)
theory Queue_Steps
  imports Queue_Proposals
begin

text \<open>
  The queue as a state machine: a step is one committed transaction of the operations above (a
  refused one leaves the queue as it was), or \<open>step_other\<close>: any change at all of the proposals, the
  follow-up depths, the events and the clock, which covers the transactions that are not modelled
  and write nothing else. The properties hold of every queue reached from the empty one.
\<close>

definition other_columns ::
  "proposal_row list \<Rightarrow> (task_id \<times> proposal_id) list \<Rightarrow> (goal_id \<times> proposal_id) list
   \<Rightarrow> (task_id \<times> int) list \<Rightarrow> run_event list \<Rightarrow> int \<Rightarrow> string \<Rightarrow> queue \<Rightarrow> queue" where
  "other_columns ps tps gps ds es n now q =
     q\<lparr>q_proposals := ps, q_task_proposal := tps, q_goal_proposal := gps, q_follow_up_depth := ds,
       q_events := es, q_event_seq := n, q_clock := now\<rparr>"

inductive queue_step :: "queue \<Rightarrow> queue \<Rightarrow> bool" where
  step_other: "queue_step q (other_columns ps tps gps ds es n now q)"
| step_add: "insert_task new now q = Inr (t, q') \<Longrightarrow> queue_step q q'"
| step_add_dep: "insert_dependency i now p q = Inr q' \<Longrightarrow> queue_step q q'"
| step_add_goal_dep: "insert_goal_dependency i now g q = Inr q' \<Longrightarrow> queue_step q q'"
| step_remove_dep: "remove_dependency i now p q = Inr q' \<Longrightarrow> queue_step q q'"
| step_remove_goal_dep: "remove_goal_dependency i now g q = Inr q' \<Longrightarrow> queue_step q q'"
| step_set_goal: "store_set_goal i h now q = Inr (t, q') \<Longrightarrow> queue_step q q'"
| step_set_paths: "store_set_paths i paths now q = Inr (t, q') \<Longrightarrow> queue_step q q'"
| step_edit_task: "store_edit_task i e now q = Inr (t, q') \<Longrightarrow> queue_step q q'"
| step_priority: "store_set_priority i pr now q = Inr (t, q') \<Longrightarrow> queue_step q q'"
| step_transition: "transition_task i a now q = Inr (t, q') \<Longrightarrow> queue_step q q'"
| step_duplicate: "cancel_as_duplicate i d now q = Inr (t, q') \<Longrightarrow> queue_step q q'"
| step_add_goal: "add_goal ng now q = Inr (goal, q') \<Longrightarrow> queue_step q q'"
| step_edit_goal: "store_edit_goal g ge now q = Inr (goal, q') \<Longrightarrow> queue_step q q'"
| step_ready_goal: "store_ready_goal g now q = Inr (goal, q') \<Longrightarrow> queue_step q q'"
| step_close_goal: "store_close_goal g v now q = Inr (goal, q') \<Longrightarrow> queue_step q q'"
| step_approve: "approve p now q = Inr (proposal, q') \<Longrightarrow> queue_step q q'"
| step_send_back: "send_back p now q = Inr (proposal, q') \<Longrightarrow> queue_step q q'"
| step_claim: "claim_task d uuid now base order attributes q = Some (Inr (outcome, q')) \<Longrightarrow> queue_step q q'"

lemma claim_queue_ok:
  assumes "queue_ok q" and "claim_task d uuid now base order attributes q = Some (Inr (outcome, q'))"
  shows "queue_ok q'"
proof (cases "ready_query q = []")
  case True
  then show ?thesis using claim_task_ok(1) [OF assms(1)] assms by simp
next
  case False
  from claim_task_ok(2) [OF assms(1) False, of order d uuid now base attributes] assms(2)
  obtain t where t: "t \<in> set (ready_query q)" and "reserve d uuid now base attributes t q = Inr (outcome, q')"
    by (auto simp: preferred_def)
  then show ?thesis
    by (elim reserve_Inr)
       (use t reserved_ok [OF assms(1), of t] in \<open>simp add: set_ready_query\<close>)
qed

lemma other_columns_ok: "queue_ok (other_columns ps tps gps ds es n now q) = queue_ok q"
proof -
  have "same_states q (other_columns ps tps gps ds es n now q)"
    by (simp add: same_states_def task_states_def goal_states_def other_columns_def)
  from same_states_ok [OF this] show ?thesis
    by (simp add: queue_ok_def tasks_ok_def goals_ok_def other_columns_def)
qed

lemma queue_step_ok: "queue_step q q' \<Longrightarrow> queue_ok q \<Longrightarrow> queue_ok q'"
proof (induction rule: queue_step.induct)
  case step_other
  then show ?case by (simp add: other_columns_ok)
next
  case (step_transition i a now q t q')
  then show ?case by (auto dest: transition_task_keeps(3))
qed (blast intro: insert_task_queue_ok insert_dependency_queue_ok insert_goal_dependency_queue_ok
      remove_dependency_queue_ok remove_goal_dependency_queue_ok store_set_goal_queue_ok
      store_set_paths_ok store_edit_task_ok store_set_priority_ok cancel_as_duplicate_ok
      add_goal_ok store_edit_goal_ok store_ready_goal_ok store_close_goal_ok approve_ok send_back_ok
      claim_queue_ok)+

definition reachable :: "queue \<Rightarrow> bool" where
  "reachable q \<longleftrightarrow> queue_step\<^sup>*\<^sup>* empty_queue q"

lemma empty_queue_ok: "queue_ok empty_queue"
  by (simp add: queue_ok_def empty_queue_def tasks_ok_def goals_ok_def graph_ok_def rows_ok_def
      deps_ok_def runs_ok_def achieved_ok_def task_states_def task_goals_def ids_of_def goals_of_def
      open_runs_def wait_edges_def membership_edges_def acyclic_def)

lemma reachable_ok: "reachable q \<Longrightarrow> queue_ok q"
  unfolding reachable_def by (induction rule: rtranclp_induct) (auto simp: empty_queue_ok intro: queue_step_ok)

subsection \<open>A queue reached by commands\<close>

definition sample_new :: "task_id list \<Rightarrow> new_task" where
  "sample_new deps =
     \<lparr>nt_title = ''t'', nt_description = '''', nt_acceptance = '''', nt_commands = [],
      nt_dependencies = deps, nt_goal_dependencies = [], nt_goal_id = None, nt_context = '''',
      nt_evidence = [], nt_paths = [], nt_priority = Normal, nt_kind = None\<rparr>"

definition sample_row :: "task_id \<Rightarrow> task_status \<Rightarrow> task" where
  "sample_row i s =
     \<lparr>task_id = i, task_title = ''t'', task_description = '''', task_acceptance = '''',
      task_commands = [], task_evidence = [], task_paths = [], task_priority = Normal,
      task_kind_of = None, task_status = s, task_goal_id = None, task_context = '''',
      task_created_at = ''now'', task_updated_at = ''now''\<rparr>"

definition with_event :: "task_id \<Rightarrow> string \<Rightarrow> json \<Rightarrow> queue \<Rightarrow> queue" where
  "with_event t kind payload q =
     q\<lparr>q_events := q_events q @
          [\<lparr>ev_id = q_event_seq q + 1, ev_task_id = Some t, ev_goal_id = None, ev_run_id = None,
            ev_kind = kind, ev_payload = payload, ev_created_at = q_clock q\<rparr>],
       q_event_seq := q_event_seq q + 1\<rparr>"

definition sample1 :: queue where
  "sample1 = with_event 1 ''task_created'' (JObj [(''goal_id'', JNull)])
     (empty_queue\<lparr>q_tasks := [sample_row 1 Draft], q_task_seq := 1\<rparr>)"

definition sample2 :: queue where
  "sample2 =
     with_event 2 ''dependency_added'' (JObj [(''predecessor_id'', JInt 1)])
       ((with_event 2 ''task_created'' (JObj [(''goal_id'', JNull)]) sample1)
          \<lparr>q_tasks := [sample_row 1 Draft, sample_row 2 Draft], q_task_seq := 2, q_deps := [(2, 1)]\<rparr>)"

definition sample3 :: queue where
  "sample3 =
     with_event 1 ''review_bypassed'' (JObj [(''from'', JStr ''draft'')])
      (with_event 1 ''task_status_changed'' (JObj [(''from'', JStr ''draft''), (''to'', JStr ''ready'')])
       (sample2\<lparr>q_tasks := [sample_row 1 Ready, sample_row 2 Draft], q_follow_up_depth := [(1, 0)]\<rparr>))"

lemmas run_simps =
  insert_task_def sample_new_def Task_new_def NewTask_validate_def require_positive_task_def
  empty_queue_def next_id_def event_def insert_event_def read_task_def task_row_def Task_restore_def
  Let_def NewTask_required_evidence_def dedup_globs_def id_json_def sample_row_def with_event_def

lemma sample1_step: "insert_task (sample_new []) ''now'' empty_queue = Inr (sample_row 1 Draft, sample1)"
  by (simp add: run_simps sample1_def)

lemma sample2_step: "insert_task (sample_new [1]) ''now'' sample1 = Inr (sample_row 2 Draft, sample2)"
  by (simp add: run_simps sample1_def sample2_def insert_dependency_def task_checks touch_def
      update_tasks_def waits_for_def wait_edges_def membership_edges_def task_goals_def
      List.map_filter_simps explore.simps succs_def require_editable_def dependencies_editable_def
      TaskStatus_dependencies_editable_def)

lemma sample3_step:
  "transition_task 1 ActBypassReview ''now'' sample2 = Inr (sample_row 1 Ready, sample3)"
  by (simp add: run_simps sample1_def sample2_def sample3_def transition_task_def apply_transition_def
      task_transition_def rows_in_def status_row_def update_tasks_def record_transition_def
      status_json_def has_unfinished_run_def)

lemma sample_reachable: "reachable sample1" "reachable sample2" "reachable sample3"
proof -
  have "queue_step empty_queue sample1" by (rule step_add [OF sample1_step])
  moreover have "queue_step sample1 sample2" by (rule step_add [OF sample2_step])
  moreover have "queue_step sample2 sample3" by (rule step_transition [OF sample3_step])
  ultimately show "reachable sample1" "reachable sample2" "reachable sample3"
    by (auto simp: reachable_def)
qed

subsection \<open>Properties\<close>

text \<open>
  C1: in every reachable queue no task or goal waits for itself, through tasks, goals and goal
  membership together, and the recursive query the store asks before it adds an edge decides waiting
  exactly.
\<close>

theorem wait_graph_acyclic:
  assumes "reachable q"
  shows "acyclic (set (wait_edges q))
    \<and> (\<forall>a b. waits_for q a b \<longleftrightarrow> (a, b) \<in> (set (wait_edges q))\<^sup>*)
    \<and> (\<forall>a b. (a, b) \<in> set (wait_edges q) \<longrightarrow> \<not> waits_for q b a)"
proof -
  have acyclic: "acyclic (set (wait_edges q))"
    using reachable_ok [OF assms] by (simp add: queue_ok_def graph_ok_def)
  then have "\<not> waits_for q b a" if "(a, b) \<in> set (wait_edges q)" for a b
    using that by (auto simp: waits_for_rtrancl acyclic_def dest: rtrancl_into_trancl2)
  with acyclic show ?thesis by (simp add: waits_for_rtrancl)
qed

lemma sample_edge: "(NTask 2, NTask 1) \<in> set (wait_edges sample2)"
  by (simp add: wait_edges_def sample2_def with_event_def)

theorem wait_graph_acyclic_witness: "waits_for sample2 (NTask 2) (NTask 1) \<and> \<not> waits_for sample2 (NTask 1) (NTask 2)"
  using wait_graph_acyclic [OF sample_reachable(2)] sample_edge by blast

lemma distinct_filter_le: "distinct xs \<Longrightarrow> length (filter (\<lambda>x. x = i) xs) \<le> 1"
proof (induction xs)
  case (Cons x xs)
  then show ?case by (cases "x = i") (auto simp: filter_empty_conv)
qed simp



subsection \<open>Claims\<close>

lemma claim_task_reserves:
  assumes "claim_task d uuid now base order attributes q = Some (Inr (ClaimedRun run, q'))"
  obtains t where "t \<in> set (ready_query q)" "reserve d uuid now base attributes t q = Inr (ClaimedRun run, q')"
proof -
  from assms obtain u us where ready: "ready_tasks q = Inr (u # us)"
    by (auto simp: claim_task_def split: sum.splits list.splits)
  then have query: "ready_query q = u # us" using ready_tasks_Inr by metis
  show thesis
  proof (cases "task_position (u # us) order")
    case (Some t)
    with assms ready query task_position_in(1) [OF Some] show thesis
      by (intro that [of t]) (simp_all add: claim_task_def)
  next
    case None
    with assms ready obtain ids where
      "reserve d uuid now base attributes
         (case task_position (u # us) ids of Some t \<Rightarrow> t | None \<Rightarrow> u) q = Inr (ClaimedRun run, q')"
      by (auto simp: claim_task_def)
    moreover have "(case task_position (u # us) ids of Some t \<Rightarrow> t | None \<Rightarrow> u) \<in> set (ready_query q)"
      using task_position_in(1) [of "u # us" ids] by (auto simp: query split: option.splits)
    ultimately show thesis using that by blast
  qed
qed

lemma claim_rank_effective: "claim_rank input i \<le> claim_rank input j \<Longrightarrow> effective input j \<le> effective input i"
  unfolding claim_rank_le by auto

lemma reserved_states:
  "task_states (reserved t run now q) = task_states (status_row (task_id t) Ready InProgress now q)"
  by (simp add: reserved_def task_states_def Let_def)

text \<open>
  C3: a claim that reserves a task takes one that was ready, with no unfinished run, whose goal is not
  a draft, whose predecessors are all completed and whose goal dependencies are all closed as
  achieved; it leaves exactly one new run, claimed by that task, and the task in progress.
\<close>

theorem claim_takes_ready_task:
  assumes "claim_task d uuid now base order attributes q = Some (Inr (ClaimedRun run, q'))"
  shows "\<exists>t \<in> set (q_tasks q). run_task_id run = task_id t \<and> task_status t = Ready
    \<and> (\<forall>g \<in> set (q_goals q). task_goal_id t = Some (goal_id g) \<longrightarrow> goal_status g \<noteq> GoalDraft)
    \<and> (\<forall>p r. (task_id t, p) \<in> set (q_deps q) \<longrightarrow> r \<in> set (q_tasks q) \<longrightarrow> task_id r = p \<longrightarrow> task_status r = Completed)
    \<and> (\<forall>g r. (task_id t, g) \<in> set (q_goal_deps q) \<longrightarrow> r \<in> set (q_goals q) \<longrightarrow> goal_id r = g
         \<longrightarrow> goal_closed_at r \<noteq> None \<and> goal_verdict r = Some Achieved)
    \<and> \<not> has_unfinished_run q (task_id t)
    \<and> (\<exists>r. q_runs q' = q_runs q @ [r] \<and> run_id r = uuid \<and> run_task_id r = task_id t \<and> run_status r = Claimed)
    \<and> task_states q' = map (\<lambda>(i, g, s). (i, g, if i = task_id t \<and> s = Ready then InProgress else s)) (task_states q)"
proof -
  from assms obtain t where t: "t \<in> set (ready_query q)"
    and r: "reserve d uuid now base attributes t q = Inr (ClaimedRun run, q')"
    by (rule claim_task_reserves)
  from r obtain sha payload where run: "run = relocated (claimed_run uuid t sha now) d"
    and q': "q' = event (task_id t) (Some uuid) ''run_claimed'' payload
                    (reserved t (claimed_run uuid t sha now) now q)"
    by (elim reserve_Inr) simp
  have "run_task_id run = task_id t" by (simp add: run relocated_def Let_def claimed_run_def)
  moreover have "\<exists>r. q_runs q' = q_runs q @ [r] \<and> run_id r = uuid \<and> run_task_id r = task_id t \<and> run_status r = Claimed"
    by (simp add: q' event_rows reserved_def Let_def status_row_states claimed_run_def)
  moreover have "task_states q' = map (\<lambda>(i, g, s). (i, g, if i = task_id t \<and> s = Ready then InProgress else s)) (task_states q)"
    by (simp add: q' event_rows reserved_states status_row_states)
  moreover have "t \<in> set (q_tasks q)" "task_status t = Ready" "\<not> has_unfinished_run q (task_id t)"
    using t by (auto simp: set_ready_query ready_row_def has_unfinished_run_def)
  moreover have "\<forall>g \<in> set (q_goals q). task_goal_id t = Some (goal_id g) \<longrightarrow> goal_status g \<noteq> GoalDraft"
    "\<forall>p r. (task_id t, p) \<in> set (q_deps q) \<longrightarrow> r \<in> set (q_tasks q) \<longrightarrow> task_id r = p \<longrightarrow> task_status r = Completed"
    "\<forall>g r. (task_id t, g) \<in> set (q_goal_deps q) \<longrightarrow> r \<in> set (q_goals q) \<longrightarrow> goal_id r = g
         \<longrightarrow> goal_closed_at r \<noteq> None \<and> goal_verdict r = Some Achieved"
    using t by (auto simp: set_ready_query ready_row_def list_ex_iff)
  ultimately show ?thesis by (intro bexI [of _ t]) (rule conjI | assumption)+
qed


subsection \<open>Witnesses\<close>

definition sample_sha :: string where "sample_sha = replicate 40 CHR ''a''"

lemma sample_base: "CommitSha_parse (to_ascii_lowercase sample_sha) ''base commit'' = Inr sample_sha"
  by code_simp

lemma sample_uuid: "\<not> blank ''u''" "''u'' \<notin> set (map run_id (q_runs sample3))"
  by (simp_all add: sample3_def sample2_def sample1_def with_event_def empty_queue_def)

lemma sample_ready: "ready_query sample3 = [sample_row 1 Ready]"
  by (simp add: ready_query_def ready_row_def sample3_def sample2_def sample1_def with_event_def
      empty_queue_def sample_row_def)

lemma sample_claim:
  obtains q' where
    "claim_task ''runs'' ''u'' ''now'' sample_sha [] None sample3
     = Some (Inr (ClaimedRun (relocated (claimed_run ''u'' (sample_row 1 Ready) sample_sha ''now'') ''runs''), q'))"
    "reachable q'" "has_unfinished_run q' 1"
proof -
  note ok = reachable_ok [OF sample_reachable(3)]
  have "ready_query sample3 \<noteq> []" by (simp add: sample_ready)
  from claim_task_ok(2) [OF ok this, of "[]" "''runs''" "''u''" "''now''" sample_sha None]
  have c: "claim_task ''runs'' ''u'' ''now'' sample_sha [] None sample3
      = Some (reserve ''runs'' ''u'' ''now'' sample_sha None (sample_row 1 Ready) sample3)"
    by (auto simp: preferred_def sample_ready)
  from reserve_succeeds [OF ok _ sample_uuid sample_base, of "sample_row 1 Ready" "''runs''" "''now''" None]
  obtain payload where r: "reserve ''runs'' ''u'' ''now'' sample_sha None (sample_row 1 Ready) sample3
      = Inr (ClaimedRun (relocated (claimed_run ''u'' (sample_row 1 Ready) sample_sha ''now'') ''runs''),
         event 1 (Some ''u'') ''run_claimed'' payload
           (reserved (sample_row 1 Ready) (claimed_run ''u'' (sample_row 1 Ready) sample_sha ''now'') ''now'' sample3))"
    by (auto simp: sample_ready) (simp add: sample_row_def)
  let ?q = "event 1 (Some ''u'') ''run_claimed'' payload
           (reserved (sample_row 1 Ready) (claimed_run ''u'' (sample_row 1 Ready) sample_sha ''now'') ''now'' sample3)"
  have "queue_step sample3 ?q" by (rule step_claim [OF c [unfolded r]])
  then have "reachable ?q" using sample_reachable(3) by (auto simp: reachable_def)
  moreover have "has_unfinished_run ?q 1"
    by (simp add: has_unfinished_run_def event_rows reserved_def Let_def claimed_run_def unfinished_def
        sample_row_def)
  ultimately show thesis using that c r by simp
qed


theorem claim_takes_ready_task_witness:
  "\<exists>run q'. claim_task ''runs'' ''u'' ''now'' sample_sha [] None sample3 = Some (Inr (ClaimedRun run, q'))
     \<and> (\<exists>t \<in> set (q_tasks sample3). run_task_id run = task_id t \<and> task_status t = Ready)"
proof -
  obtain run q' where c: "claim_task ''runs'' ''u'' ''now'' sample_sha [] None sample3 = Some (Inr (ClaimedRun run, q'))"
    by (rule sample_claim) blast
  from claim_takes_ready_task [OF c] c show ?thesis by blast
qed


text \<open>A goal with one canceled task, closed as achieved.\<close>

definition done_goal :: goal where
  "done_goal =
     \<lparr>goal_id = 1, goal_title = ''g'', goal_description = '''', goal_acceptance = '''',
      goal_constraints = '''', goal_doc = None, goal_status = GoalOpen, goal_closed_at = None,
      goal_verdict = None, goal_created_at = ''now'', goal_updated_at = ''now''\<rparr>"

definition done_new_goal :: new_goal where
  "done_new_goal =
     \<lparr>ng_title = ''g'', ng_description = '''', ng_acceptance = '''', ng_constraints = '''',
      ng_doc = None, ng_draft = False\<rparr>"

definition done1 :: queue where
  "done1 = goal_event 1 ''goal_created'' (JObj [(''goal'', goal_json done_goal)])
     (empty_queue\<lparr>q_goals := [done_goal], q_goal_seq := 1\<rparr>)"

definition done2 :: queue where
  "done2 = event 1 None ''task_created'' (JObj [(''goal_id'', JInt 1)])
     (done1\<lparr>q_tasks := [(sample_row 1 Draft)\<lparr>task_goal_id := Some 1\<rparr>], q_task_seq := 1\<rparr>)"

definition done3 :: queue where
  "done3 = record_transition 1 ActCancel Draft Canceled None (status_row 1 Draft Canceled ''now'' done2)"

definition done4 :: queue where
  "done4 =
     goal_event 1 ''goal_closed''
       (JObj [(''verdict'', JStr ''achieved''), (''tasks'', counts_json (task_counts done3 1))])
       (update_goals (\<lambda>r. goal_id r = 1 \<and> goal_closed_at r = None)
          (\<lambda>r. r\<lparr>goal_closed_at := Some ''now'', goal_verdict := Some Achieved, goal_updated_at := ''now''\<rparr>) done3)"

lemmas done_simps = goal_event_def event_def read_goal_def goal_row_def Goal_restore_def
  require_positive_goal_def read_task_def task_row_def Task_restore_def require_positive_task_def Let_def

lemma done1_step: "add_goal done_new_goal ''now'' empty_queue = Inr (done_goal, done1)"
  by (simp add: add_goal_def done_simps done1_def done_goal_def done_new_goal_def NewGoal_validate_def
      Goal_new_def next_id_def empty_queue_def)

lemma done2_step:
  "insert_task ((sample_new [])\<lparr>nt_goal_id := Some 1\<rparr>) ''now'' done1
   = Inr ((sample_row 1 Draft)\<lparr>task_goal_id := Some 1\<rparr>, done2)"
  by (simp add: insert_task_def done_simps done1_def done2_def done_goal_def sample_new_def
      Task_new_def NewTask_validate_def next_id_def empty_queue_def sample_row_def
      NewTask_required_evidence_def dedup_globs_def id_json_def check_accepts_tasks_def Goal_is_closed_def)

lemma done_tasks: "q_tasks done2 = [(sample_row 1 Draft)\<lparr>task_goal_id := Some 1\<rparr>]"
  "q_tasks done3 = [(sample_row 1 Canceled)\<lparr>task_goal_id := Some 1\<rparr>]"
  "q_goals done2 = [done_goal]" "q_goals done3 = [done_goal]" "q_runs done2 = []"
  by (simp_all add: done1_def done2_def done3_def event_def goal_event_def empty_queue_def
      record_transition_def status_row_def sample_row_def)

lemma done3_step:
  "transition_task 1 ActCancel ''now'' done2 = Inr ((sample_row 1 Canceled)\<lparr>task_goal_id := Some 1\<rparr>, done3)"
  using done_tasks
  by (simp add: transition_task_def apply_transition_def task_transition_def rows_in_def done3_def done_simps
      sample_row_def)

lemma done4_step:
  "store_close_goal 1 Achieved ''now'' done3
   = Inr (done_goal\<lparr>goal_closed_at := Some ''now'', goal_verdict := Some Achieved\<rparr>, done4)"
proof -
  have "close_blocking Achieved (task_counts done3 1) = []"
    by (simp add: close_blocking_store done_tasks sample_row_def GoalVerdict_allows_def TaskStatus_is_terminal_def)
  then show ?thesis
    by (simp add: store_close_goal_def done_simps done_tasks done_goal_def done4_def close_goal_def
        require_open_def Goal_is_closed_def update_goals_def)
qed

lemma done_reachable: "reachable done4"
proof -
  have "queue_step empty_queue done1" by (rule step_add_goal [OF done1_step])
  moreover have "queue_step done1 done2" by (rule step_add [OF done2_step])
  moreover have "queue_step done2 done3" by (rule step_transition [OF done3_step])
  moreover have "queue_step done3 done4" by (rule step_close_goal [OF done4_step])
  ultimately show ?thesis by (auto simp: reachable_def)
qed


end
