(* ===== verification/Queue_Review.thy ===== *)
theory Queue_Review
  imports Queue_Steps
begin

text \<open>
  What plan review's decisions and the duplicate records do to the queue: the effect of an approval
  on every task and goal, and the chains the duplicate records may form.
\<close>

subsection \<open>The effect of an approval\<close>

definition goal_closed :: "queue \<Rightarrow> goal_id \<Rightarrow> bool" where
  "goal_closed q g \<longleftrightarrow> (\<exists>r \<in> set (q_goals q). goal_id r = g \<and> goal_closed_at r \<noteq> None)"

definition approved_status :: "queue \<Rightarrow> goal_id option \<Rightarrow> task_status" where
  "approved_status q g = (case g of Some h \<Rightarrow> if goal_closed q h then Draft else Ready | None \<Rightarrow> Ready)"

lemma goal_closed_same: "q_goals q' = q_goals q \<Longrightarrow> goal_closed q' = goal_closed q"
  by (intro ext) (simp add: goal_closed_def)

lemma approved_same: "q_goals q' = q_goals q \<Longrightarrow> approved_status q' = approved_status q"
proof -
  assume "q_goals q' = q_goals q"
  then have closed: "goal_closed q' = goal_closed q" by (rule goal_closed_same)
  show ?thesis by (intro ext) (simp only: approved_status_def closed)
qed

definition approve_states :: "queue \<Rightarrow> task_id set \<Rightarrow> (task_id \<times> goal_id option \<times> task_status) list" where
  "approve_states q ids =
     map (\<lambda>(j, g, s). (j, g, if j \<in> ids \<and> s = Submitted then approved_status q g else s)) (task_states q)"

lemma find_task:
  assumes "queue_ok q" and "t \<in> set (q_tasks q)"
  shows "find (\<lambda>r. task_id r = task_id t) (q_tasks q) = Some t"
proof -
  have "distinct (map task_id (q_tasks q))"
    using queue_okD(3) [OF assms(1)] by (simp add: graph_ok_def rows_ok_def task_goals_def o_def)
  then show ?thesis using assms(2) by (rule find_distinct)
qed

lemma stored_status_row:
  "queue_ok q \<Longrightarrow> t \<in> set (q_tasks q) \<Longrightarrow> stored_status q (task_id t) = Inr (task_status t)"
  by (simp add: stored_status_def find_task)

lemma closed_goal_row:
  assumes "queue_ok q" and "t \<in> set (q_tasks q)" and "closed_goal q (task_id t) = Inr c"
  shows "approved_status q (task_goal_id t) = (if c = None then Ready else Draft)"
proof (cases "find (\<lambda>g. Some (goal_id g) = task_goal_id t \<and> goal_closed_at g \<noteq> None) (q_goals q)")
  case None
  then have "c = None" using assms(3) by (simp add: closed_goal_def find_task [OF assms(1,2)])
  with None show ?thesis
    by (auto simp: approved_status_def goal_closed_def find_None_iff split: option.splits)
next
  case (Some g)
  then have "c \<noteq> None" using assms(3)
    by (auto simp: closed_goal_def find_task [OF assms(1,2)] split: option.splits)
  moreover have "goal_closed q (goal_id g)" "task_goal_id t = Some (goal_id g)"
    using find_in [OF Some] by (auto simp: goal_closed_def)
  ultimately show ?thesis by (simp add: approved_status_def)
qed

lemma record_transition_states:
  "task_states (record_transition i a from to d q) = task_states q"
  by (simp add: record_transition_def Let_def event_rows task_states_def event_def)

lemma transition_states:
  assumes "transition_task i a now q = Inr (t, q')" and "stored_status q i = Inr Submitted"
  shows "task_states q' = map (\<lambda>(j, g, s). (j, g, if j = i \<and> s = Submitted then
      (case TaskStatus_transition Submitted a (has_unfinished_run q i) of Inr u \<Rightarrow> u | Inl _ \<Rightarrow> s) else s)) (task_states q)"
proof -
  from assms(1) obtain t0 t1 where r: "read_task q i = Inr t0"
    and t: "task_transition t0 a (has_unfinished_run q i) = Inr t1"
    and q': "q' = record_transition i a (task_status t0) (task_status t1) None
            (status_row i (task_status t0) (task_status t1) now q)"
    unfolding transition_task_def by (rule apply_transition_Inr)
  have "task_status t0 = Submitted"
    using r assms(2)
    by (auto simp: read_task_def stored_status_def task_row_Inr dest: Task_restore_same split: option.splits)
  then show ?thesis
    using t by (auto simp: q' record_transition_states status_row_states task_transition_def)
qed

lemma approve_task_states:
  assumes "queue_ok q" and "approve_task p now i q = Inr q'"
  shows "task_states q' = approve_states q {i}" "q_goals q' = q_goals q"
proof -
  have row: "\<exists>t \<in> set (q_tasks q). task_id t = j \<and> task_goal_id t = g \<and> task_status t = s"
    if "(j, g, s) \<in> set (task_states q)" for j g s
    using that by (auto simp: task_states_def)
  from assms(2) show "task_states q' = approve_states q {i}"
  proof (cases rule: approve_task_Inr)
    case 1
    have "(i, g, Submitted) \<notin> set (task_states q)" for g
      using 1(2) row stored_status_row [OF assms(1)] by fastforce
    then show ?thesis unfolding approve_states_def 1(1) by (intro map_idI [symmetric]) auto
  next
    case (2 g v t q1 payload)
    have "approved_status q h = Draft" if "(i, h, Submitted) \<in> set (task_states q)" for h
      using row [OF that] closed_goal_row [OF assms(1) _ , of _ "Some (g, v)"] 2(2) by auto
    then show ?thesis
      unfolding approve_states_def 2(4) event_rows transition_states [OF 2(3,1)] by auto
  next
    case (3 t)
    have "approved_status q h = Ready" if "(i, h, Submitted) \<in> set (task_states q)" for h
      using row [OF that] closed_goal_row [OF assms(1) _ , of _ None] 3(2) by auto
    then show ?thesis
      unfolding approve_states_def transition_states [OF 3(3,1)] by auto
  qed
  from assms(2) show "q_goals q' = q_goals q"
    by (cases rule: approve_task_Inr) (auto simp: transition_task_keeps(2) event_rows)
qed

lemma approve_all_states:
  assumes "queue_ok q" and "exec_all (approve_task p now) ids q = Inr q'"
  shows "task_states q' = approve_states q (set ids) \<and> q_goals q' = q_goals q"
  using assms
proof (induction ids arbitrary: q)
  case Nil
  then show ?case by (auto simp: approve_states_def case_prod_unfold)
next
  case (Cons i ids)
  from Cons.prems(2) obtain q1 where q1: "approve_task p now i q = Inr q1"
    and rest: "exec_all (approve_task p now) ids q1 = Inr q'" by auto
  note s = approve_task_states [OF Cons.prems(1) q1]
  have status: "approved_status q1 = approved_status q"
    by (rule approved_same [OF s(2)])
  have "approved_status q g \<noteq> Submitted" for g by (simp add: approved_status_def split: option.splits)
  then have "approve_states q1 (set ids) = approve_states q (set (i # ids))"
    unfolding approve_states_def s(1) status by (auto simp: approve_states_def)
  with Cons.IH [OF approve_task_ok [OF q1 Cons.prems(1)] rest] s(2) show ?case by simp
qed

lemma save_rows:
  "task_states (save_proposal p q) = task_states q" "q_goals (save_proposal p q) = q_goals q"
  by (simp_all add: save_proposal_def task_states_def Let_def)

definition opened :: "string \<Rightarrow> goal_id set \<Rightarrow> goal \<Rightarrow> goal" where
  "opened now ids g =
     (if goal_id g \<in> ids \<and> goal_status g = GoalDraft \<and> goal_closed_at g = None
      then g\<lparr>goal_status := GoalOpen, goal_updated_at := now\<rparr> else g)"

lemma opened_status:
  "goal_id (opened now ids g) = goal_id g" "goal_closed_at (opened now ids g) = goal_closed_at g"
  "goal_status (opened now ids g) =
     (if goal_id g \<in> ids \<and> goal_closed_at g = None then GoalOpen else goal_status g)"
  by (cases "goal_status g"; simp add: opened_def)+

lemma open_draft_goal_goals:
  assumes "queue_ok q" and "open_draft_goal now i q = Inr q'"
  shows "q_goals q' = map (opened now {i}) (q_goals q)" "task_states q' = task_states q"
proof -
  from assms(2) obtain g where g: "read_goal q i = Inr g" by (auto simp: open_draft_goal_def)
  have one: "r = g" if "r \<in> set (q_goals q)" "goal_id r = i" for r
    using that read_goal_row [OF assms(1) g] queue_okD(3) [OF assms(1)]
    by (auto simp: graph_ok_def rows_ok_def distinct_map dest: inj_onD)
  show "q_goals q' = map (opened now {i}) (q_goals q)"
  proof (cases "goal_status g = GoalDraft \<and> \<not> Goal_is_closed g")
    case True
    then have "ready_goal g = Inr (g\<lparr>goal_status := GoalOpen\<rparr>)" by (simp add: ready_goal_Inr Goal_is_draft_def)
    with True assms(2) g have "q_goals q' = map (\<lambda>r. if goal_id r = i
        then r\<lparr>goal_status := GoalOpen, goal_updated_at := now\<rparr> else r) (q_goals q)"
      by (auto simp: open_draft_goal_def goal_event_def)
    then show ?thesis using one True by (auto simp: opened_def Goal_is_closed_def)
  next
    case False
    with assms(2) g have "q' = q" by (auto simp: open_draft_goal_def)
    then show ?thesis using one False
      by (auto simp: opened_def Goal_is_closed_def intro!: map_idI [symmetric])
  qed
  show "task_states q' = task_states q"
    using assms(2) by (auto simp: open_draft_goal_def goal_event_def task_states_def split: if_splits)
qed

lemma open_all_goals:
  assumes "queue_ok q" and "exec_all (open_draft_goal now) ids q = Inr q'"
  shows "q_goals q' = map (opened now (set ids)) (q_goals q) \<and> task_states q' = task_states q"
  using assms
proof (induction ids arbitrary: q)
  case Nil
  then show ?case by (auto simp: opened_def intro!: map_idI [symmetric])
next
  case (Cons i ids)
  from Cons.prems(2) obtain q1 where q1: "open_draft_goal now i q = Inr q1"
    and rest: "exec_all (open_draft_goal now) ids q1 = Inr q'" by auto
  note s = open_draft_goal_goals [OF Cons.prems(1) q1]
  have "opened now (set ids) (opened now {i} g) = opened now (set (i # ids)) g" for g
    by (cases "goal_status g"; cases "goal_closed_at g"; auto simp: opened_def)
  with Cons.IH [OF open_draft_goal_ok [OF q1 Cons.prems(1)] rest] s show ?case by simp
qed


definition submitted_queue :: queue where
  "submitted_queue =
     other_columns
       [\<lparr>pr_id = 1, pr_status = ProposalSubmitted,
         pr_owner = \<lparr>po_origin = RuntimeOrigin, po_workspace_id = None\<rparr>, pr_submitted_at = ''now'',
         pr_revise_count = 0, pr_created_at = ''now'', pr_updated_at = ''now''\<rparr>]
       [(1, 1)] [] [] [] 0 ''now'' (sample1\<lparr>q_tasks := [sample_row 1 Submitted]\<rparr>)"

lemma submitted_reachable: "reachable submitted_queue"
proof -
  let ?q = "record_transition 1 ActSubmit Draft Submitted None (status_row 1 Draft Submitted ''now'' sample1)"
  have "transition_task 1 ActSubmit ''now'' sample1 = Inr (sample_row 1 Submitted, ?q)"
    by (simp add: run_simps sample1_def transition_task_def apply_transition_def
        task_transition_def rows_in_def status_row_def update_tasks_def record_transition_def
        status_json_def has_unfinished_run_def)
  then have "queue_step sample1 ?q" by (rule step_transition)
  moreover have "other_columns ps tps gps ds es n now ?q
      = other_columns ps tps gps ds es n now (sample1\<lparr>q_tasks := [sample_row 1 Submitted]\<rparr>)" for ps tps gps ds es n now
    by (simp add: other_columns_def record_transition_def event_def insert_event_def status_row_def
        update_tasks_def sample1_def with_event_def sample_row_def empty_queue_def Let_def)
  then have "queue_step ?q submitted_queue" unfolding submitted_queue_def by (metis step_other)
  ultimately show ?thesis using sample_reachable(1) unfolding reachable_def by simp
qed

lemma submitted_approved: "is_ok (approve 1 ''later'' submitted_queue)"
  by (simp add: approve_def read_proposal_def submitted_queue_def other_columns_def Proposal_restore_def
      accept_proposal_def require_proposal_status_def sorted_ids_def member_ids_def sort_dedup_def
      approve_task_def stored_status_def closed_goal_def save_proposal_def transition_task_def
      apply_transition_def task_transition_def rows_in_def status_row_def update_tasks_def
      record_transition_def status_json_def has_unfinished_run_def run_simps sample1_def)


subsection \<open>Duplicates\<close>

lemma min_by_key_last:
  assumes "\<And>y. y \<in> set xs \<Longrightarrow> (k x :: int) < k y"
  shows "min_by_key k (xs @ [x]) = Some x"
  using assms by (induction xs) (fastforce split: option.splits)+

lemma latest_event_new:
  assumes "kind = ''task_status_changed''"
  shows "latest_status_event (event i r kind payload q) j =
    (if j = i then Some \<lparr>ev_id = next_id (q_event_seq q) (map ev_id (q_events q)), ev_task_id = Some i,
        ev_goal_id = None, ev_run_id = r, ev_kind = kind, ev_payload = payload, ev_created_at = q_clock q\<rparr>
     else latest_status_event q j)"
proof (cases "j = i")
  case True
  have "- next_id (q_event_seq q) (map ev_id (q_events q)) < - ev_id e" if "e \<in> set (q_events q)" for e
    using next_id_fresh(1) [of "ev_id e" "map ev_id (q_events q)" "q_event_seq q"] that by auto
  then show ?thesis
    using True assms
    by (simp add: latest_status_event_def event_def insert_event_def Let_def) (rule min_by_key_last, auto)
qed (use assms in \<open>simp add: latest_status_event_def event_def insert_event_def Let_def\<close>)

lemma latest_event_status_row:
  "latest_status_event (status_row i a b now q) j = latest_status_event q j"
  by (simp add: latest_status_event_def status_row_def)


definition three1 :: queue where
  "three1 = event 2 None ''task_created'' (JObj [(''goal_id'', JNull)])
     (sample1\<lparr>q_tasks := [sample_row 1 Draft, sample_row 2 Draft], q_task_seq := 2\<rparr>)"

definition three2 :: queue where
  "three2 = event 3 None ''task_created'' (JObj [(''goal_id'', JNull)])
     (three1\<lparr>q_tasks := [sample_row 1 Draft, sample_row 2 Draft, sample_row 3 Draft], q_task_seq := 3\<rparr>)"

definition chain1 :: queue where
  "chain1 = record_transition 1 ActCancel Draft Canceled (Some 2) (status_row 1 Draft Canceled ''now'' three2)"

definition chain2 :: queue where
  "chain2 = record_transition 2 ActCancel Draft Canceled (Some 3) (status_row 2 Draft Canceled ''now'' chain1)"

lemma three_tasks:
  "q_tasks three1 = [sample_row 1 Draft, sample_row 2 Draft]" "q_task_seq three1 = 2"
  "q_tasks three2 = [sample_row 1 Draft, sample_row 2 Draft, sample_row 3 Draft]" "q_runs three2 = []"
  "q_tasks chain1 = [sample_row 1 Canceled, sample_row 2 Draft, sample_row 3 Draft]" "q_runs chain1 = []"
  by (simp_all add: three1_def three2_def chain1_def event_def record_transition_def status_row_def
      sample_row_def sample1_def with_event_def empty_queue_def)

lemma three_reachable: "reachable three2"
proof -
  have "insert_task (sample_new []) ''now'' sample1 = Inr (sample_row 2 Draft, three1)"
    by (simp add: run_simps sample1_def three1_def)
  then have "queue_step sample1 three1" by (rule step_add)
  moreover have "insert_task (sample_new []) ''now'' three1 = Inr (sample_row 3 Draft, three2)"
    using three_tasks(1,2)
    by (simp add: three2_def insert_task_def Task_new_def NewTask_validate_def sample_new_def Let_def
        next_id_def require_positive_task_def NewTask_required_evidence_def dedup_globs_def id_json_def
        read_task_def task_row_def Task_restore_def event_def sample_row_def)
  then have "queue_step three1 three2" by (rule step_add)
  ultimately show ?thesis using sample_reachable(1) by (simp add: reachable_def)
qed

lemma chain_steps:
  "cancel_as_duplicate 1 2 ''now'' three2 = Inr (sample_row 1 Canceled, chain1)"
  "cancel_as_duplicate 2 3 ''now'' chain1 = Inr (sample_row 2 Canceled, chain2)"
  using three_tasks(3-6)
  by (simp_all add: cancel_as_duplicate_def apply_transition_def task_transition_def rows_in_def
      chain1_def [symmetric] chain2_def chain1_def read_task_def task_row_def Task_restore_def
      require_positive_task_def has_unfinished_run_def sample_row_def Let_def record_transition_def
      event_def status_row_def)



end
