(* ===== verification/Receipts.thy ===== *)
theory Receipts
  imports Json
begin

text \<open>
  The completion receipt an agent writes (\<^verbatim>\<open>src/src/domain/views.rs\<close>): its structural check against
  the run and the evidence a task requires. Reading it from text is the \<open>serde_json\<close> crate's.
\<close>

record receipt_check =
  rc_status :: check_status
  rc_evidence :: string

record receipt =
  rec_run_id :: string
  rec_result :: receipt_result
  rec_commit :: string
  rec_tests :: receipt_check
  rec_e2e :: receipt_check
  rec_subagent_review :: receipt_check
  rec_summary :: string
  rec_follow_ups :: "json option"

fun receipt_evidence :: "receipt \<Rightarrow> evidence_check \<Rightarrow> receipt_check" where
  "receipt_evidence r Tests = rec_tests r"
| "receipt_evidence r E2e = rec_e2e r"
| "receipt_evidence r SubagentReview = rec_subagent_review r"

fun check_each :: "receipt \<Rightarrow> evidence_check list \<Rightarrow> evidence_check list \<Rightarrow> unit checked" where
  "check_each r required [] = Inr ()"
| "check_each r required (c # cs) =
     (if c \<in> set required then check_each r required cs
      else
        and_then (require (rc_status (receipt_evidence r c) \<noteq> CheckFailed)
                    (ReceiptCheckFailed (EvidenceCheck_as_str c) (rc_evidence (receipt_evidence r c)))) (\<lambda>_.
        and_then (require (\<not> blank (rc_evidence (receipt_evidence r c)))
                    (ReceiptCheckUnexplained (EvidenceCheck_as_str c) (rc_status (receipt_evidence r c)))) (\<lambda>_.
        check_each r required cs)))"

definition check_requiring :: "receipt \<Rightarrow> run_id \<Rightarrow> evidence_check list \<Rightarrow> unit checked" where
  "check_requiring r run required =
     and_then (require (rec_run_id r = run) (ReceiptRunMismatch (rec_run_id r) run)) (\<lambda>_.
     and_then (require (rec_result r = ReceiptSucceeded)
                 (AgentReportedResult (rec_result r) (rec_summary r))) (\<lambda>_.
     and_then (check_each r required [Tests, E2e, SubagentReview]) (\<lambda>_.
     and_then (CommitSha_parse (rec_commit r) ''receipt commit'') (\<lambda>_.
     require (is_none_or is_array (rec_follow_ups r)) FollowUpsNotArray))))"

definition receipt_check_all :: "receipt \<Rightarrow> run_id \<Rightarrow> unit checked" where
  "receipt_check_all r run = check_requiring r run []"

definition missing_evidence :: "receipt \<Rightarrow> evidence_check list \<Rightarrow> evidence_check list" where
  "missing_evidence r required =
     filter (\<lambda>c. rc_status (receipt_evidence r c) \<noteq> CheckPassed \<or> blank (rc_evidence (receipt_evidence r c)))
       required"

definition evidence_missing_reason :: "evidence_check list \<Rightarrow> string" where
  "evidence_missing_reason missing =
     ''evidence missing: '' @ join '', '' (map EvidenceCheck_as_str missing)"

definition backed :: "receipt \<Rightarrow> evidence_check \<Rightarrow> bool" where
  "backed r c \<longleftrightarrow> rc_status (receipt_evidence r c) \<noteq> CheckFailed \<and> \<not> blank (rc_evidence (receipt_evidence r c))"

lemma check_each_Inr:
  "check_each r required cs = Inr u \<longleftrightarrow> (\<forall>c \<in> set cs. c \<notin> set required \<longrightarrow> backed r c)"
  by (induction cs) (auto simp: backed_def)

lemma all_evidence: "(\<forall>c \<in> set [Tests, E2e, SubagentReview]. P c) \<longleftrightarrow> (\<forall>c. P c)"
proof -
  have "c \<in> set [Tests, E2e, SubagentReview]" for c by (cases c) simp_all
  then show ?thesis by blast
qed

lemma check_each_all:
  "check_each r required [Tests, E2e, SubagentReview] = Inr u \<longleftrightarrow>
     (\<forall>c. c \<notin> set required \<longrightarrow> backed r c)"
  unfolding check_each_Inr by (rule all_evidence)

lemma CommitSha_parse_Inr:
  "CommitSha_parse c field = Inr c' \<longleftrightarrow>
     c' = c \<and> (length c = 40 \<or> length c = 64) \<and> (\<forall>x \<in> set c. is_hexdigit x)"
  by (auto simp: CommitSha_parse_def list_all_iff)

lemma check_requiring_Inr:
  "check_requiring r run required = Inr u \<longleftrightarrow>
     rec_run_id r = run \<and> rec_result r = ReceiptSucceeded
     \<and> (\<forall>c. c \<notin> set required \<longrightarrow> backed r c)
     \<and> is_ok (CommitSha_parse (rec_commit r) ''receipt commit'')
     \<and> is_none_or is_array (rec_follow_ups r)"
  by (auto simp: check_requiring_def check_each_all is_ok_iff simp del: check_each.simps)

lemma missing_evidence_Nil:
  "missing_evidence r required = [] \<longleftrightarrow>
     (\<forall>c \<in> set required. rc_status (receipt_evidence r c) = CheckPassed
                          \<and> \<not> blank (rc_evidence (receipt_evidence r c)))"
  by (auto simp: missing_evidence_def filter_empty_conv)

lemma missing_evidence_backed:
  "missing_evidence r required = [] \<Longrightarrow> c \<in> set required \<Longrightarrow> backed r c"
  by (auto simp: missing_evidence_Nil backed_def)

text \<open>
  C19: leaving the required checks to the evidence check loses nothing: a receipt that passes the
  structural check with some checks required and misses no required evidence passes the check with
  none required, and each required check is reported as passed with evidence; and a receipt that
  passes the plain check fails the requiring one never.
\<close>

theorem required_evidence_complements_check:
  "(is_ok (check_requiring r run required) \<and> missing_evidence r required = [] \<longrightarrow>
      is_ok (receipt_check_all r run)
      \<and> (\<forall>c \<in> set required. rc_status (receipt_evidence r c) = CheckPassed
                             \<and> \<not> blank (rc_evidence (receipt_evidence r c))))
   \<and> (is_ok (receipt_check_all r run) \<longrightarrow> is_ok (check_requiring r run required))"
proof (intro conjI impI)
  assume a: "is_ok (check_requiring r run required) \<and> missing_evidence r required = []"
  then have "backed r c" for c
    using missing_evidence_backed [of r required c] by (auto simp: is_ok_iff check_requiring_Inr)
  with a show "is_ok (receipt_check_all r run)"
    by (auto simp: is_ok_iff receipt_check_all_def check_requiring_Inr)
  from a show "\<forall>c \<in> set required. rc_status (receipt_evidence r c) = CheckPassed
      \<and> \<not> blank (rc_evidence (receipt_evidence r c))"
    by (simp add: missing_evidence_Nil)
next
  assume "is_ok (receipt_check_all r run)"
  then show "is_ok (check_requiring r run required)"
    by (auto simp: is_ok_iff receipt_check_all_def check_requiring_Inr)
qed

definition sample_receipt :: receipt where
  "sample_receipt =
     \<lparr>rec_run_id = ''r'', rec_result = ReceiptSucceeded, rec_commit = replicate 40 CHR ''a'',
      rec_tests = \<lparr>rc_status = CheckPassed, rc_evidence = ''make''\<rparr>,
      rec_e2e = \<lparr>rc_status = CheckNotApplicable, rc_evidence = ''no ui''\<rparr>,
      rec_subagent_review = \<lparr>rc_status = CheckPassed, rc_evidence = ''ok''\<rparr>,
      rec_summary = '''', rec_follow_ups = None\<rparr>"

theorem required_evidence_witness: "is_ok (receipt_check_all sample_receipt ''r'')"
proof -
  have "is_ok (check_requiring sample_receipt ''r'' [Tests])" "missing_evidence sample_receipt [Tests] = []"
    by (simp_all add: sample_receipt_def check_requiring_def missing_evidence_def CommitSha_parse_def
        is_hexdigit_def list_all_iff)
  with required_evidence_complements_check [of sample_receipt "''r''" "[Tests]"] show ?thesis by blast
qed

end
