(* ===== verification/Reason.thy ===== *)
theory Reason
  imports Run_Aggregate "HOL-Library.AList"
begin

text \<open>
  Reason codes (\<^verbatim>\<open>src/src/domain/reason.rs\<close>): the closed set of names an event's payload carries
  as \<open>code\<close>, the classification of exit codes, receipt errors and backend errors, and the code of a
  run's last error read back from its events.
\<close>

definition CODE_KEY :: string where "CODE_KEY = ''code''"

datatype (plugins only: code size) reason_code =
    SessionExitCode | SessionKilled | ExitTimeout | HeartbeatLost | WrapperFailed | LeaseLost
  | ReceiptMissing | ReceiptInvalid | WorkerFailed | EvidenceFailed | EvidenceMissing
  | CommitMismatch | WorktreeDirty | ScopeViolation | RebaseConflict | RebaseEmpty
  | RebaseInProgress | MigrationNumberTaken | VerificationFailed | BackendTimeout | BackendFailed
  | JobFailed | SentBack | Cancelled | TriageResume | ResumeExhausted | Orphaned | PushFailed
  | GitFailed | OtherReason

fun ReasonCode_as_str :: "reason_code \<Rightarrow> string" where
  "ReasonCode_as_str SessionExitCode = ''session_exit_code''"
| "ReasonCode_as_str SessionKilled = ''session_killed''"
| "ReasonCode_as_str ExitTimeout = ''exit_timeout''"
| "ReasonCode_as_str HeartbeatLost = ''heartbeat_lost''"
| "ReasonCode_as_str WrapperFailed = ''wrapper_failed''"
| "ReasonCode_as_str LeaseLost = ''lease_lost''"
| "ReasonCode_as_str ReceiptMissing = ''receipt_missing''"
| "ReasonCode_as_str ReceiptInvalid = ''receipt_invalid''"
| "ReasonCode_as_str WorkerFailed = ''worker_failed''"
| "ReasonCode_as_str EvidenceFailed = ''evidence_failed''"
| "ReasonCode_as_str EvidenceMissing = ''evidence_missing''"
| "ReasonCode_as_str CommitMismatch = ''commit_mismatch''"
| "ReasonCode_as_str WorktreeDirty = ''worktree_dirty''"
| "ReasonCode_as_str ScopeViolation = ''scope_violation''"
| "ReasonCode_as_str RebaseConflict = ''rebase_conflict''"
| "ReasonCode_as_str RebaseEmpty = ''rebase_empty''"
| "ReasonCode_as_str RebaseInProgress = ''rebase_in_progress''"
| "ReasonCode_as_str MigrationNumberTaken = ''migration_number_taken''"
| "ReasonCode_as_str VerificationFailed = ''verification_failed''"
| "ReasonCode_as_str BackendTimeout = ''backend_timeout''"
| "ReasonCode_as_str BackendFailed = ''backend_failed''"
| "ReasonCode_as_str JobFailed = ''job_failed''"
| "ReasonCode_as_str SentBack = ''sent_back''"
| "ReasonCode_as_str Cancelled = ''cancelled''"
| "ReasonCode_as_str TriageResume = ''triage_resume''"
| "ReasonCode_as_str ResumeExhausted = ''resume_exhausted''"
| "ReasonCode_as_str Orphaned = ''orphaned''"
| "ReasonCode_as_str PushFailed = ''push_failed''"
| "ReasonCode_as_str GitFailed = ''git_failed''"
| "ReasonCode_as_str OtherReason = ''other''"

definition ReasonCode_ALL :: "reason_code list" where
  "ReasonCode_ALL =
     [SessionExitCode, SessionKilled, ExitTimeout, HeartbeatLost, WrapperFailed, LeaseLost,
      ReceiptMissing, ReceiptInvalid, WorkerFailed, EvidenceFailed, EvidenceMissing,
      CommitMismatch, WorktreeDirty, ScopeViolation, RebaseConflict, RebaseEmpty,
      RebaseInProgress, MigrationNumberTaken, VerificationFailed, BackendTimeout, BackendFailed,
      JobFailed, SentBack, Cancelled, TriageResume, ResumeExhausted, Orphaned, PushFailed,
      GitFailed, OtherReason]"

definition ReasonCode_parse :: "string \<Rightarrow> reason_code option" where
  "ReasonCode_parse value = find (\<lambda>c. ReasonCode_as_str c = value) ReasonCode_ALL"

interpretation reason_code_enum: string_enum ReasonCode_as_str ReasonCode_ALL
  by unfold_locales (case_tac v, simp_all add: ReasonCode_ALL_def)

subsection \<open>Classification\<close>

definition ReasonCode_of_exit_code :: "int \<Rightarrow> reason_code" where
  "ReasonCode_of_exit_code exit_code = (if exit_code \<ge> 128 then SessionKilled else SessionExitCode)"

definition ReasonCode_of_receipt_error :: "domain_error \<Rightarrow> reason_code" where
  "ReasonCode_of_receipt_error e =
     (case e of
        AgentReportedResult _ _ \<Rightarrow> WorkerFailed
      | ReceiptCheckFailed _ _ \<Rightarrow> EvidenceFailed
      | _ \<Rightarrow> ReceiptInvalid)"

definition contains :: "string \<Rightarrow> string \<Rightarrow> bool" where
  "contains needle s = list_ex (\<lambda>k. starts_with needle (drop k s)) [0..<length s + 1]"

definition ReasonCode_of_backend_error :: "string \<Rightarrow> reason_code" where
  "ReasonCode_of_backend_error error =
     (let e = to_ascii_lowercase error
      in if contains ''timed out'' e \<or> contains ''did not finish within'' e then BackendTimeout
         else BackendFailed)"

subsection \<open>Reasons in payloads\<close>

record reason =
  rsn_code :: reason_code
  rsn_detail :: "(string \<times> json) list"

definition Reason_new :: "reason_code \<Rightarrow> reason" where
  "Reason_new code = \<lparr>rsn_code = code, rsn_detail = []\<rparr>"

definition Reason_with :: "reason \<Rightarrow> string \<Rightarrow> json \<Rightarrow> reason" where
  "Reason_with r key value = r\<lparr>rsn_detail := AList.update key value (rsn_detail r)\<rparr>"

definition Reason_of_exit_code :: "int \<Rightarrow> reason" where
  "Reason_of_exit_code exit_code =
     (let r = Reason_with (Reason_new (ReasonCode_of_exit_code exit_code)) ''exit_code'' (JInt exit_code)
      in if exit_code > 128 then Reason_with r ''signal'' (JInt (exit_code - 128)) else r)"

fun or_insert :: "(string \<times> json) list \<Rightarrow> (string \<times> json) list \<Rightarrow> (string \<times> json) list" where
  "or_insert [] obj = obj"
| "or_insert ((key, value) # detail) obj =
     or_insert detail (if map_of obj key = None then obj @ [(key, value)] else obj)"

definition Reason_on :: "reason \<Rightarrow> json \<Rightarrow> json" where
  "Reason_on r payload =
     (let obj = (case payload of JObj entries \<Rightarrow> entries | _ \<Rightarrow> [])
      in JObj (or_insert (rsn_detail r)
                 (AList.update CODE_KEY (JStr (ReasonCode_as_str (rsn_code r))) obj)))"

definition event_code :: "run_event \<Rightarrow> reason_code option" where
  "event_code event =
     Option.bind (Option.bind (json_get CODE_KEY (ev_payload event)) as_str) ReasonCode_parse"

definition explains_last_error :: "run_event \<Rightarrow> bool" where
  "explains_last_error event =
     (let kind = ev_kind event;
          status = Option.bind (json_get ''status'' (ev_payload event)) as_str;
          by = Option.bind (json_get ''by'' (ev_payload event)) as_str
      in if kind \<in> {''supervision_finished'', ''validation_finished'', ''integration_deferred'',
                     ''integration_failed'', ''integration_error'', ''runtime_error'',
                     ''landing_decided''} then True
         else if kind = ''run_recovered'' then status = Some ''interrupted''
         else if kind = ''cleanup_failed'' then \<not> (by = Some ''triage'' \<or> by = Some ''supervisor'')
         else if kind = ''triage_finished'' \<or> kind = ''triage_decided''
         then json_get CODE_KEY (ev_payload event) \<noteq> None
         else if kind = ''recovery_requested'' then json_get CODE_KEY (ev_payload event) \<noteq> None
         else if kind = ''resume_finished'' then status = Some ''failed''
         else False)"

definition last_error_code :: "run_event list \<Rightarrow> reason_code option" where
  "last_error_code events = Option.bind (find explains_last_error (rev events)) event_code"

definition run_error_code :: "task_run \<Rightarrow> run_event list \<Rightarrow> reason_code option" where
  "run_error_code r events =
     (if run_last_error r \<noteq> None \<or> run_status r = Interrupted then last_error_code events else None)"

subsection \<open>Reading back what was written\<close>

lemma ReasonCode_parse_as_str: "ReasonCode_parse (ReasonCode_as_str c) = Some c"
  by (simp add: ReasonCode_parse_def reason_code_enum.find_as_str)

lemma map_of_or_insert:
  "map_of (or_insert detail obj) k =
     (case map_of obj k of Some v \<Rightarrow> Some v | None \<Rightarrow> map_of detail k)"
  by (induction detail obj rule: or_insert.induct) (auto simp: map_add_def split: option.splits)

lemma json_get_Reason_on:
  "json_get k (Reason_on r payload) =
     (if k = CODE_KEY then Some (JStr (ReasonCode_as_str (rsn_code r)))
      else (case json_get k payload of Some v \<Rightarrow> Some v | None \<Rightarrow> map_of (rsn_detail r) k))"
  by (cases payload) (auto simp: Reason_on_def map_of_or_insert update_conv' Let_def split: option.splits)

text \<open>
  C26: the code written into a payload reads back as the code of the event, every other entry the
  payload had keeps its value, and the detail of the reason fills only what was absent.
\<close>

theorem reason_round_trip:
  "event_code (e\<lparr>ev_payload := Reason_on r payload\<rparr>) = Some (rsn_code r)
   \<and> (\<forall>k. k \<noteq> CODE_KEY \<longrightarrow>
        json_get k (Reason_on r payload) =
          (case json_get k payload of Some v \<Rightarrow> Some v | None \<Rightarrow> map_of (rsn_detail r) k))
   \<and> (\<forall>exit_code. json_index (Reason_on (Reason_of_exit_code exit_code) JNull) ''exit_code'' = JInt exit_code)"
  by (auto simp: event_code_def json_get_Reason_on ReasonCode_parse_as_str json_index_def
        Reason_of_exit_code_def Reason_with_def Reason_new_def Let_def CODE_KEY_def update_conv')

theorem reason_round_trip_witness:
  "json_get ''exit_code'' (Reason_on (Reason_of_exit_code 137) (JObj [(''status'', JStr ''failed'')])) = Some (JInt 137)"
  using reason_round_trip
      [where r = "Reason_of_exit_code 137" and payload = "JObj [(''status'', JStr ''failed'')]"]
  by (simp add: CODE_KEY_def Reason_of_exit_code_def Reason_with_def Reason_new_def Let_def)

end
