(* ===== verification/Run_Events.thy ===== *)
theory Run_Events
  imports Reason
begin

text \<open>
  What the supervisor reads from a run's events (oldest first): where its review stands and whether
  its session takes answers (\<^verbatim>\<open>src/src/domain/mod.rs\<close>), how its resumes are counted and fenced
  (\<^verbatim>\<open>resume.rs\<close>), and the landing recheck (\<^verbatim>\<open>recheck.rs\<close>). The latest event with a
  property is \<open>find\<close> on the reversed list.
\<close>

subsection \<open>Landing recheck\<close>

definition LANDING_RECHECK_FAILED :: string where "LANDING_RECHECK_FAILED = ''landing_recheck_failed''"
definition RESUMED :: string where "RESUMED = ''resumed''"
definition HELD :: string where "HELD = ''held''"

datatype recheck_failure =
    Conflict "string list"
  | CheckCommandFailed string int string string

fun RecheckFailure_code :: "recheck_failure \<Rightarrow> reason_code" where
  "RecheckFailure_code (Conflict _) = RebaseConflict"
| "RecheckFailure_code (CheckCommandFailed _ _ _ _) = VerificationFailed"

text \<open>\<open>payload[key] = value\<close> and \<open>json!\<close> of an object.\<close>

definition recheck_payload ::
  "recheck_failure \<Rightarrow> run_id \<Rightarrow> task_id \<Rightarrow> commit_sha \<Rightarrow> commit_sha \<Rightarrow> (string \<times> json) list" where
  "recheck_payload f landed_run landed_task main head =
     [(''code'', JStr (ReasonCode_as_str (RecheckFailure_code f))),
      (''main'', JStr main), (''head'', JStr head),
      (''landed_run_id'', JStr landed_run), (''landed_task_id'', JInt landed_task)]
     @ (case f of
          Conflict paths \<Rightarrow> [(''conflicts'', JArr (map JStr paths))]
        | CheckCommandFailed command exit_code log_path output_tail \<Rightarrow>
            [(''command'', JStr command), (''exit_code'', JInt exit_code),
             (''log_path'', JStr log_path), (''output_tail'', JStr output_tail)])"

definition recheck_parks :: "run_event \<Rightarrow> bool" where
  "recheck_parks e = (ev_kind e = LANDING_RECHECK_FAILED \<and> json_index (ev_payload e) ''action'' = JStr RESUMED)"

definition held_against :: "run_event list \<Rightarrow> string \<Rightarrow> string \<Rightarrow> run_event option" where
  "held_against events main head =
     option_filter
       (\<lambda>e. json_index (ev_payload e) ''action'' = JStr HELD
            \<and> json_index (ev_payload e) ''main'' = JStr main
            \<and> json_index (ev_payload e) ''head'' = JStr head)
       (find (\<lambda>e. ev_kind e = LANDING_RECHECK_FAILED) (rev events))"

subsection \<open>Review and answers\<close>

definition LANDING_OPTIONS :: "string list" where
  "LANDING_OPTIONS = [''land'', ''send_back'', ''cancel'']"

definition TRIAGE_OPTIONS :: "string list" where
  "TRIAGE_OPTIONS = [''retry'', ''resume'', ''cancel'']"

definition TRIAGE_RETRY_FAILURES :: nat where "TRIAGE_RETRY_FAILURES = 2"

definition RECOVER_AGAIN :: string where "RECOVER_AGAIN = ''recover''"

definition review_kinds :: "string list" where
  "review_kinds =
     [''validation_finished'', ''review_started'', ''review_finished'', ''revise_requested'',
      ''revise_unsent'', ''revise_finished'', ''conflict_precheck'', ''conflict_resolved'']"

definition review_anchor :: "run_event list \<Rightarrow> run_event option" where
  "review_anchor events = find (\<lambda>e. ev_kind e \<in> set review_kinds) (rev events)"

definition fix_requested :: "run_event list \<Rightarrow> bool" where
  "fix_requested events =
     is_some_and (\<lambda>anchor.
       (ev_kind anchor = ''revise_requested''
        \<or> (ev_kind anchor = ''conflict_precheck'' \<and> json_index (ev_payload anchor) ''requested'' = JBool True))
       \<and> \<not> list_ex (\<lambda>e. ev_id e > ev_id anchor \<and> ev_kind e = ''exit_requested'') events)
     (review_anchor events)"

text \<open>The events after the last \<open>resume_started\<close>, when there is one.\<close>

fun after_last :: "('a \<Rightarrow> bool) \<Rightarrow> 'a list \<Rightarrow> 'a list option" where
  "after_last p [] = None"
| "after_last p (x # xs) =
     (case after_last p xs of Some ys \<Rightarrow> Some ys | None \<Rightarrow> if p x then Some xs else None)"

definition resume_in_progress :: "run_event list \<Rightarrow> bool" where
  "resume_in_progress events =
     is_some_and (\<lambda>later. \<not> list_ex (\<lambda>e. ev_kind e = ''resume_finished'' \<or> ev_kind e = ''exit_requested'') later)
       (after_last (\<lambda>e. ev_kind e = ''resume_started'') events)"

definition session_takes_answers :: "run_status \<Rightarrow> run_event list \<Rightarrow> bool" where
  "session_takes_answers status events =
     (status = Running
      \<or> (status = AwaitingIntegration \<and> fix_requested events)
      \<or> (status = NeedsSession \<and> resume_in_progress events))"

datatype triage_state = TriagePending | TriageWaiting int | TriageFailed | TriageFinished

definition triage_state :: "run_event list \<Rightarrow> triage_state" where
  "triage_state events =
     (case find (\<lambda>e. ev_kind e \<in> {''resume_started'', ''triage_finished'', ''triage_failed''}
                     \<or> (ev_kind e = ''triage_decided''
                        \<and> json_index (ev_payload e) ''action'' = JStr RECOVER_AGAIN)) (rev events) of
        Some e \<Rightarrow>
          (if ev_kind e = ''triage_finished'' \<and> json_index (ev_payload e) ''action'' = JStr ''wait''
           then TriageWaiting (case as_i64 (json_index (ev_payload e) ''recheck_at'') of Some i \<Rightarrow> i | None \<Rightarrow> 0)
           else if ev_kind e = ''triage_finished'' then TriageFinished
           else if ev_kind e = ''triage_failed'' then TriageFailed
           else TriagePending)
      | None \<Rightarrow> TriagePending)"

subsection \<open>Resumes\<close>

definition MAX_RESUME_ATTEMPTS :: nat where "MAX_RESUME_ATTEMPTS = 3"
definition CONFLICT_ONLY_RESUME_LIMIT :: nat where "CONFLICT_ONLY_RESUME_LIMIT = 5"
definition RETRY_INHERIT :: string where "RETRY_INHERIT = ''retry_inherit''"

definition PARKING :: "string list" where
  "PARKING =
     [''integration_deferred'', ''integration_error'', ''evidence_missing'', ''scope_violation'',
      ''landing_decided'', ''triage_finished'', ''triage_decided'']"

record history =
  h_approved :: bool
  h_passed :: bool
  h_conflict :: bool
  h_rechecked :: bool

definition History_default :: history where
  "History_default = \<lparr>h_approved = False, h_passed = False, h_conflict = False, h_rechecked = False\<rparr>"

definition History_see :: "run_event \<Rightarrow> history \<Rightarrow> history" where
  "History_see e h =
     (let kind = ev_kind e
      in if kind = ''integration_approved'' then h\<lparr>h_approved := True\<rparr>
         else if kind = ''review_finished''
         then h\<lparr>h_passed := (json_index (ev_payload e) ''verdict'' = JStr (ReviewDecision_as_str ReviewPass))\<rparr>
         else if kind \<in> set PARKING \<or> recheck_parks e
         then h\<lparr>h_conflict := ((kind = ''integration_deferred'' \<or> kind = LANDING_RECHECK_FAILED)
                               \<and> json_index (ev_payload e) ''code'' = JStr (ReasonCode_as_str RebaseConflict)),
                h_rechecked := (kind = LANDING_RECHECK_FAILED)\<rparr>
         else h)"

definition conflict_only :: "history \<Rightarrow> bool" where
  "conflict_only h = (h_conflict h \<and> (h_approved h \<or> h_passed h \<or> h_rechecked h))"

definition reviewed_conflict :: "history \<Rightarrow> bool" where
  "reviewed_conflict h = (h_conflict h \<and> (h_approved h \<or> h_passed h))"

definition history_of :: "run_event list \<Rightarrow> history" where
  "history_of events = fold History_see events History_default"

definition parked_for_conflict_only :: "run_event list \<Rightarrow> bool" where
  "parked_for_conflict_only events = conflict_only (history_of events)"

record conflict_only_basis =
  cob_passed :: bool
  cob_approved :: bool
  cob_rechecked :: bool

definition conflict_only_basis :: "run_event list \<Rightarrow> conflict_only_basis option" where
  "conflict_only_basis events =
     (let h = history_of events
      in if conflict_only h
         then Some \<lparr>cob_passed = h_passed h, cob_approved = h_approved h, cob_rechecked = h_rechecked h\<rparr>
         else None)"

definition parked_by_recheck :: "run_event list \<Rightarrow> bool" where
  "parked_by_recheck events = h_rechecked (history_of events)"

record resume_count =
  counted :: nat
  conflict_only_count :: nat

definition resume_step :: "run_event \<Rightarrow> history \<times> resume_count \<Rightarrow> history \<times> resume_count" where
  "resume_step e s =
     (let (h, c) = s;
          c' = (if ev_kind e = ''resume_started''
                then (if conflict_only h
                      then c\<lparr>conflict_only_count := conflict_only_count c + 1\<rparr>
                      else c\<lparr>counted := counted c + 1\<rparr>)
                else c)
      in (History_see e h, c'))"

definition ResumeCount_of :: "run_event list \<Rightarrow> resume_count" where
  "ResumeCount_of events =
     snd (fold resume_step events (History_default, \<lparr>counted = 0, conflict_only_count = 0\<rparr>))"

definition ResumeCount_total :: "resume_count \<Rightarrow> nat" where
  "ResumeCount_total c = counted c + conflict_only_count c"

definition ResumeCount_left :: "resume_count \<Rightarrow> nat" where
  "ResumeCount_left c = MAX_RESUME_ATTEMPTS - counted c"

definition exhausted :: "resume_count \<Rightarrow> bool" where
  "exhausted c = (counted c \<ge> MAX_RESUME_ATTEMPTS \<or> conflict_only_count c \<ge> CONFLICT_ONLY_RESUME_LIMIT)"

definition is_inherit_retry :: "run_event \<Rightarrow> bool" where
  "is_inherit_retry e =
     (ev_kind e = ''triage_finished'' \<and> json_index (ev_payload e) ''action'' = JStr RETRY_INHERIT)"

definition inherits_on_exhaustion :: "run_event list \<Rightarrow> run_event list \<Rightarrow> bool" where
  "inherits_on_exhaustion run_events task_events =
     (reviewed_conflict (history_of run_events) \<and> \<not> list_ex is_inherit_retry task_events)"

definition retried_with_inheritance :: "run_event list \<Rightarrow> bool" where
  "retried_with_inheritance events =
     is_some_and is_inherit_retry
       (find (\<lambda>e. ev_kind e = ''triage_finished'' \<or> ev_kind e = ''triage_decided'') (rev events))"

subsection \<open>The count along the events\<close>

lemma fst_resume_fold: "fst (fold resume_step es s) = fold History_see es (fst s)"
  by (induction es arbitrary: s) (auto simp: resume_step_def Let_def split: prod.splits)

lemma ResumeCount_snoc:
  "ResumeCount_of (es @ [e]) =
     (let c = ResumeCount_of es
      in if ev_kind e \<noteq> ''resume_started'' then c
         else if parked_for_conflict_only es then c\<lparr>conflict_only_count := conflict_only_count c + 1\<rparr>
         else c\<lparr>counted := counted c + 1\<rparr>)"
proof -
  obtain h c where hc: "fold resume_step es (History_default, \<lparr>counted = 0, conflict_only_count = 0\<rparr>) = (h, c)"
    by fastforce
  then have "h = history_of es" "c = ResumeCount_of es"
    using fst_resume_fold [of es "(History_default, \<lparr>counted = 0, conflict_only_count = 0\<rparr>)"]
    by (simp_all add: history_of_def ResumeCount_of_def)
  with hc show ?thesis
    by (simp add: ResumeCount_of_def [of "es @ [e]"] resume_step_def parked_for_conflict_only_def Let_def)
qed

lemma after_last_None: "after_last p xs = None \<longleftrightarrow> (\<forall>x \<in> set xs. \<not> p x)"
  by (induction xs) (auto split: option.splits)

lemma after_last_Some:
  "after_last p xs = Some ys \<longleftrightarrow> (\<exists>pre x. xs = pre @ x # ys \<and> p x \<and> (\<forall>y \<in> set ys. \<not> p y))"
proof (induction xs)
  case (Cons a xs)
  show ?case
  proof (cases "after_last p xs")
    case None
    then have none: "\<forall>x \<in> set xs. \<not> p x" by (simp add: after_last_None)
    show ?thesis
    proof
      assume "after_last p (a # xs) = Some ys"
      with None none show "\<exists>pre x. a # xs = pre @ x # ys \<and> p x \<and> (\<forall>y \<in> set ys. \<not> p y)"
        by (intro exI [of _ "[]"] exI [of _ a]) (auto split: if_splits)
    next
      assume "\<exists>pre x. a # xs = pre @ x # ys \<and> p x \<and> (\<forall>y \<in> set ys. \<not> p y)"
      then obtain pre x where "a # xs = pre @ x # ys" "p x" by blast
      with none None show "after_last p (a # xs) = Some ys" by (cases pre) auto
    qed
  next
    case (Some zs)
    with Cons.IH have "zs = ys \<longleftrightarrow> (\<exists>pre x. xs = pre @ x # ys \<and> p x \<and> (\<forall>y \<in> set ys. \<not> p y))" by simp
    moreover from Some have "\<exists>x \<in> set xs. p x" using after_last_None [of p xs] by auto
    ultimately show ?thesis
      using Some by (auto simp: Cons_eq_append_conv)
  qed
qed simp

text \<open>A driver that starts a resume only while the count is not exhausted.\<close>

definition fenced :: "run_event list \<Rightarrow> bool" where
  "fenced events \<longleftrightarrow>
     (\<forall>before e later. events = before @ e # later \<longrightarrow> ev_kind e = ''resume_started'' \<longrightarrow>
        \<not> exhausted (ResumeCount_of before))"

lemma fenced_snoc: "fenced (es @ [e]) \<longleftrightarrow> fenced es \<and> (ev_kind e = ''resume_started'' \<longrightarrow> \<not> exhausted (ResumeCount_of es))"
proof
  assume f: "fenced (es @ [e])"
  have "fenced es"
    unfolding fenced_def
  proof (intro allI impI)
    fix before x later
    assume "es = before @ x # later" "ev_kind x = ''resume_started''"
    moreover from this(1) have "es @ [e] = before @ x # (later @ [e])" by simp
    ultimately show "\<not> exhausted (ResumeCount_of before)" using f unfolding fenced_def by blast
  qed
  moreover have "ev_kind e = ''resume_started'' \<longrightarrow> \<not> exhausted (ResumeCount_of es)"
    using f unfolding fenced_def by simp
  ultimately show "fenced es \<and> (ev_kind e = ''resume_started'' \<longrightarrow> \<not> exhausted (ResumeCount_of es))" by blast
next
  assume f: "fenced es \<and> (ev_kind e = ''resume_started'' \<longrightarrow> \<not> exhausted (ResumeCount_of es))"
  show "fenced (es @ [e])"
    unfolding fenced_def
  proof (intro allI impI)
    fix before x later
    assume x: "es @ [e] = before @ x # later" "ev_kind x = ''resume_started''"
    show "\<not> exhausted (ResumeCount_of before)"
    proof (cases later rule: rev_cases)
      case Nil
      with x f show ?thesis by simp
    next
      case (snoc ys y)
      with x(1) have "es = before @ x # ys" by simp
      with x(2) f show ?thesis unfolding fenced_def by blast
    qed
  qed
qed

lemma resume_total: "ResumeCount_total (ResumeCount_of es) = length (filter (\<lambda>e. ev_kind e = ''resume_started'') es)"
proof (induction es rule: rev_induct)
  case Nil
  show ?case by (simp add: ResumeCount_of_def ResumeCount_total_def)
next
  case (snoc e es)
  then show ?case by (auto simp: ResumeCount_snoc ResumeCount_total_def Let_def)
qed

lemma resume_fence:
  "fenced es \<Longrightarrow> counted (ResumeCount_of es) \<le> MAX_RESUME_ATTEMPTS
     \<and> conflict_only_count (ResumeCount_of es) \<le> CONFLICT_ONLY_RESUME_LIMIT"
proof (induction es rule: rev_induct)
  case Nil
  show ?case by (simp add: ResumeCount_of_def)
next
  case (snoc e es)
  then show ?case
    by (auto simp: fenced_snoc ResumeCount_snoc exhausted_def Let_def)
qed

subsection \<open>Properties\<close>


definition sample_event :: "event_id \<Rightarrow> string \<Rightarrow> json \<Rightarrow> run_event" where
  "sample_event i kind payload =
     \<lparr>ev_id = i, ev_task_id = None, ev_goal_id = None, ev_run_id = None, ev_kind = kind,
      ev_payload = payload, ev_created_at = ''''\<rparr>"


text \<open>
  C22: the answer of a worker's question is typed into the session of a run waiting for one exactly
  when a resume was started and nothing after its start finished it or asked the session to exit;
  of any other status only a running run, or one awaiting integration that was asked for a fix.
\<close>

theorem session_takes_answers_needs_session:
  "(session_takes_answers NeedsSession events \<longleftrightarrow>
      (\<exists>before start later. events = before @ start # later \<and> ev_kind start = ''resume_started''
         \<and> (\<forall>e \<in> set later. ev_kind e \<notin> {''resume_started'', ''resume_finished'', ''exit_requested''})))
   \<and> (session_takes_answers status events \<longrightarrow> status \<in> {Running, AwaitingIntegration, NeedsSession})"
proof -
  have "resume_in_progress events \<longleftrightarrow>
      (\<exists>later. after_last (\<lambda>e. ev_kind e = ''resume_started'') events = Some later
         \<and> (\<forall>e \<in> set later. ev_kind e \<noteq> ''resume_finished'' \<and> ev_kind e \<noteq> ''exit_requested''))"
    by (cases "after_last (\<lambda>e. ev_kind e = ''resume_started'') events")
       (auto simp: resume_in_progress_def list_ex_iff)
  then have "resume_in_progress events \<longleftrightarrow>
      (\<exists>before start later. events = before @ start # later \<and> ev_kind start = ''resume_started''
         \<and> (\<forall>e \<in> set later. ev_kind e \<notin> {''resume_started'', ''resume_finished'', ''exit_requested''}))"
    unfolding after_last_Some by (simp; blast)
  then show ?thesis by (simp add: session_takes_answers_def)
qed

theorem session_takes_answers_witness:
  "session_takes_answers NeedsSession [sample_event 1 ''resume_started'' JNull, sample_event 2 ''note'' JNull]"
proof -
  have "\<forall>e \<in> set [sample_event 2 ''note'' JNull].
      ev_kind e \<notin> {''resume_started'', ''resume_finished'', ''exit_requested''}"
    by (simp add: sample_event_def)
  moreover have "ev_kind (sample_event 1 ''resume_started'' JNull) = ''resume_started''"
    by (simp add: sample_event_def)
  moreover have "[sample_event 1 ''resume_started'' JNull, sample_event 2 ''note'' JNull]
      = [] @ sample_event 1 ''resume_started'' JNull # [sample_event 2 ''note'' JNull]" by simp
  ultimately show ?thesis
    using session_takes_answers_needs_session
      [of "[sample_event 1 ''resume_started'' JNull, sample_event 2 ''note'' JNull]" NeedsSession]
    by blast
qed

end
