(* ===== verification/Recovery.thy ===== *)
theory Recovery
  imports Run_Events Proposal_Aggregate
begin

text \<open>
  The recovery job (\<^verbatim>\<open>src/src/domain/recovery.rs\<close>): its alerts, the requests and failures read
  from a run's events, when a verdict is applied, and the processes of a run the runtime may stop.
  Process ids are natural numbers; a path is compared by its components, as \<open>Path::starts_with\<close> does.
\<close>

subsection \<open>Alerts and verdicts\<close>

datatype recovery_alert =
    AlertFailed | AlertInterrupted | AlertResumeExhausted | AlertStuckExit | AlertPromptWaiting
  | AlertStalled | AlertLongBackground

fun RecoveryAlert_as_str :: "recovery_alert \<Rightarrow> string" where
  "RecoveryAlert_as_str AlertFailed = ''failed''"
| "RecoveryAlert_as_str AlertInterrupted = ''interrupted''"
| "RecoveryAlert_as_str AlertResumeExhausted = ''resume_exhausted''"
| "RecoveryAlert_as_str AlertStuckExit = ''stuck_exit''"
| "RecoveryAlert_as_str AlertPromptWaiting = ''prompt_waiting''"
| "RecoveryAlert_as_str AlertStalled = ''stalled''"
| "RecoveryAlert_as_str AlertLongBackground = ''long_background''"

definition RecoveryAlert_ALL :: "recovery_alert list" where
  "RecoveryAlert_ALL =
     [AlertFailed, AlertInterrupted, AlertResumeExhausted, AlertStuckExit, AlertPromptWaiting,
      AlertStalled, AlertLongBackground]"

definition RecoveryAlert_from_str :: "string \<Rightarrow> recovery_alert checked" where
  "RecoveryAlert_from_str = parse_enum ''RecoveryAlert'' RecoveryAlert_as_str RecoveryAlert_ALL"

interpretation recovery_alert_enum: string_enum RecoveryAlert_as_str RecoveryAlert_ALL
  by unfold_locales (case_tac v, simp_all add: RecoveryAlert_ALL_def)

datatype recovery_decision = Repair | Escalate
datatype recovery_confidence = HighConfidence | LowConfidence

fun RecoveryDecision_as_str :: "recovery_decision \<Rightarrow> string" where
  "RecoveryDecision_as_str Repair = ''repair''"
| "RecoveryDecision_as_str Escalate = ''escalate''"

fun RecoveryConfidence_as_str :: "recovery_confidence \<Rightarrow> string" where
  "RecoveryConfidence_as_str HighConfidence = ''high''"
| "RecoveryConfidence_as_str LowConfidence = ''low''"

definition MAX_RECOVERY_ATTEMPTS :: nat where "MAX_RECOVERY_ATTEMPTS = 3"
definition MAX_RECHECK_SECS :: nat where "MAX_RECHECK_SECS = 3600"

definition ENDED_ACTIONS :: "string list" where
  "ENDED_ACTIONS = [''retry'', ''retry_inherit'', ''resume'', ''wait'']"

definition STUCK_EXIT_ACTIONS :: "string list" where
  "STUCK_EXIT_ACTIONS = [''answer_known_dialog'', ''close_and_proceed'', ''stop_processes'', ''wait'']"

definition PROMPT_WAITING_ACTIONS :: "string list" where
  "PROMPT_WAITING_ACTIONS = [''answer_known_dialog'', ''stop_processes'', ''wait'']"

definition RecoveryAlert_of_ended :: "run_status \<Rightarrow> recovery_alert" where
  "RecoveryAlert_of_ended status = (if status = Interrupted then AlertInterrupted else AlertFailed)"

fun RecoveryAlert_ask_kind :: "recovery_alert \<Rightarrow> ask_kind" where
  "RecoveryAlert_ask_kind AlertFailed = Decide"
| "RecoveryAlert_ask_kind AlertInterrupted = Decide"
| "RecoveryAlert_ask_kind AlertResumeExhausted = Decide"
| "RecoveryAlert_ask_kind AlertStuckExit = StuckExit"
| "RecoveryAlert_ask_kind AlertPromptWaiting = AnswerPrompt"
| "RecoveryAlert_ask_kind AlertStalled = Stalled"
| "RecoveryAlert_ask_kind AlertLongBackground = Stalled"

datatype recovery_action =
    RetryAction | RetryInheritAction | ResumeAction string | SendInstruction string
  | StopProcesses "nat list" | AnswerKnownDialog string | CloseAndProceed | WaitAction nat

fun RecoveryAction_name :: "recovery_action \<Rightarrow> string" where
  "RecoveryAction_name RetryAction = ''retry''"
| "RecoveryAction_name RetryInheritAction = ''retry_inherit''"
| "RecoveryAction_name (ResumeAction _) = ''resume''"
| "RecoveryAction_name (SendInstruction _) = ''send_instruction''"
| "RecoveryAction_name (StopProcesses _) = ''stop_processes''"
| "RecoveryAction_name (AnswerKnownDialog _) = ''answer_known_dialog''"
| "RecoveryAction_name CloseAndProceed = ''close_and_proceed''"
| "RecoveryAction_name (WaitAction _) = ''wait''"

record recovery_verdict =
  rv_verdict :: recovery_decision
  rv_confidence :: recovery_confidence
  rv_diagnosis :: string
  rv_actions :: "recovery_action list"
  rv_question :: string
  rv_options :: "string list"
  rv_reason_category :: "ask_reason option"

text \<open>\<open>RecoveryVerdict::parse\<close>; the deserializer and the text of its error are \<open>serde_json\<close>'s.\<close>

definition RecoveryVerdict_parse ::
  "(string \<Rightarrow> (string, recovery_verdict) result) \<Rightarrow> string \<Rightarrow> (string, recovery_verdict) result" where
  "RecoveryVerdict_parse from_str stdout =
     (case parse_json_object from_str stdout of
        Inl error \<Rightarrow> Inl (''the recovery job printed no verdict JSON: '' @ error)
      | Inr v \<Rightarrow>
          (if rv_verdict v = Repair \<and> rv_actions v = []
           then Inl ''the recovery job's repair verdict names no action'' else Inr v))"

definition RecoveryVerdict_applies :: "recovery_verdict \<Rightarrow> bool" where
  "RecoveryVerdict_applies v = (rv_verdict v = Repair \<and> rv_confidence v = HighConfidence)"

subsection \<open>Requests in the events\<close>

definition recovery_attempts :: "run_event list \<Rightarrow> recovery_alert \<Rightarrow> nat" where
  "recovery_attempts events alert =
     length (filter (\<lambda>e. ev_kind e = ''recovery_requested''
                         \<and> json_index (ev_payload e) ''alert'' = JStr (RecoveryAlert_as_str alert)) events)"

definition pending_request :: "run_event list \<Rightarrow> run_event option" where
  "pending_request events =
     find (\<lambda>e. ev_kind e = ''recovery_requested'')
       (takeWhile (\<lambda>e. \<not> (ev_kind e = ''triage_started'' \<or> ev_kind e = ''resume_started'')) (rev events))"

definition current_alert :: "run_event list \<Rightarrow> recovery_alert option" where
  "current_alert events =
     Option.bind (Option.bind
       (find (\<lambda>e. ev_kind e = ''recovery_requested'')
          (takeWhile (\<lambda>e. ev_kind e \<noteq> ''resume_started'') (rev events)))
       (\<lambda>e. as_str (json_index (ev_payload e) ''alert'')))
       (\<lambda>alert. case RecoveryAlert_from_str alert of Inr a \<Rightarrow> Some a | Inl _ \<Rightarrow> None)"

definition clears :: "run_event \<Rightarrow> string \<Rightarrow> bool" where
  "clears e alert =
     (ev_kind e \<in> {''session_exited'', ''workspace_closed'', ''supervision_finished'', ''run_recovered'',
                   ''runtime_error''}
      \<or> (alert = RecoveryAlert_as_str AlertPromptWaiting \<and> ev_kind e = ''prompt_cleared'')
      \<or> (alert = RecoveryAlert_as_str AlertLongBackground \<and> ev_kind e = ''receipt_observed''))"

text \<open>The last event of a kind together with those after it.\<close>

fun last_with_rest :: "('a \<Rightarrow> bool) \<Rightarrow> 'a list \<Rightarrow> ('a \<times> 'a list) option" where
  "last_with_rest p [] = None"
| "last_with_rest p (x # xs) =
     (case last_with_rest p xs of Some r \<Rightarrow> Some r | None \<Rightarrow> if p x then Some (x, xs) else None)"

definition failed_live :: "run_event list \<Rightarrow> recovery_alert option \<Rightarrow> run_event option" where
  "failed_live events alert =
     (case last_with_rest
             (\<lambda>e. ev_kind e = ''recovery_failed''
                  \<and> is_none_or (\<lambda>a. json_index (ev_payload e) ''alert'' = JStr (RecoveryAlert_as_str a)) alert)
             events of
        None \<Rightarrow> None
      | Some (failed, later) \<Rightarrow>
          (let failed_alert = (case as_str (json_index (ev_payload failed) ''alert'') of
                                 Some s \<Rightarrow> s | None \<Rightarrow> '''')
           in if \<not> list_ex (\<lambda>e. clears e failed_alert) later then Some failed else None))"

subsection \<open>The processes of a run\<close>

record process_info =
  pi_pid :: nat
  pi_ppid :: nat
  pi_elapsed_secs :: nat
  pi_command :: string
  pi_cwd :: "string option"

text \<open>
  \<open>Path::components\<close>: repeated separators and inner \<open>.\<close> components vanish, the root is one.
\<close>

definition path_components :: "string \<Rightarrow> string list" where
  "path_components path =
     (let segments = split_on CHR ''/'' path;
          plain = filter (\<lambda>s. s \<noteq> [] \<and> s \<noteq> ''.'')
      in if starts_with ''/'' path then ''/'' # plain segments
         else (case segments of
                 s # rest \<Rightarrow> (if s = ''.'' then s # plain rest else plain segments)
               | [] \<Rightarrow> []))"

definition under :: "string \<Rightarrow> string \<Rightarrow> bool" where
  "under path base =
     (let r = path_components base in take (length r) (path_components path) = r)"

definition parent :: "process_info list \<Rightarrow> nat \<Rightarrow> nat option" where
  "parent all pid = map_option pi_ppid (find (\<lambda>p. pi_pid p = pid) all)"

text \<open>
  The chain of parents, the loop of the closure \<open>chain\<close>: it ends because every turn adds a parent
  of the table the chain did not have.
\<close>

lemma parent_in: "parent all pid = Some next \<Longrightarrow> next \<in> pi_ppid ` set all"
  by (auto simp: parent_def find_Some_iff)

function chain_loop :: "process_info list \<Rightarrow> nat list \<Rightarrow> nat \<Rightarrow> nat list" where
  "chain_loop all chain current =
     (case parent all current of
        None \<Rightarrow> chain
      | Some next \<Rightarrow>
          (if next \<le> 1 \<or> next \<in> set chain then chain
           else chain_loop all (chain @ [next]) next))"
  by pat_completeness auto
termination
proof (relation "measure (\<lambda>(all, chain, _). card (pi_ppid ` set all - set chain))")
  fix all :: "process_info list" and chain current up
  assume "parent all current = Some up" and new: "\<not> (up \<le> 1 \<or> up \<in> set chain)"
  then have "card (pi_ppid ` set all - set chain - {up}) < card (pi_ppid ` set all - set chain)"
    using parent_in by (intro card_Diff1_less) auto
  moreover have "pi_ppid ` set all - set (chain @ [up]) = (pi_ppid ` set all - set chain) - {up}" by auto
  ultimately show "((all, chain @ [up], up), (all, chain, current))
      \<in> measure (\<lambda>(all, chain, _). card (pi_ppid ` set all - set chain))"
    by (simp only: in_measure prod.case)
qed simp

declare chain_loop.simps [simp del]

definition chain :: "process_info list \<Rightarrow> nat \<Rightarrow> nat list" where
  "chain all pid = chain_loop all [pid] pid"

definition run_processes ::
  "process_info list \<Rightarrow> string \<Rightarrow> nat option \<Rightarrow> nat option \<Rightarrow> nat \<Rightarrow> process_info list" where
  "run_processes all worktree wrapper agent except =
     (let supervisor = chain all except;
          wrapper = option_filter (\<lambda>pid. pid \<notin> set supervisor) wrapper;
          session = (case wrapper of Some w \<Rightarrow> [w] | None \<Rightarrow> []) @ (case agent of Some a \<Rightarrow> [a] | None \<Rightarrow> []);
          protected = concat (map (chain all) session) @ supervisor
      in filter (\<lambda>p. is_some_and (\<lambda>cwd. under cwd worktree) (pi_cwd p)
                     \<or> is_some_and (\<lambda>w. w \<in> set (chain all (pi_pid p))) wrapper)
           (filter (\<lambda>p. pi_pid p > 1 \<and> pi_pid p \<notin> set protected \<and> except \<notin> set (chain all (pi_pid p))) all))"

subsection \<open>Chains are the ancestors\<close>

definition child_of :: "process_info list \<Rightarrow> nat \<Rightarrow> nat \<Rightarrow> bool" where
  "child_of all pid next \<longleftrightarrow> parent all pid = Some next \<and> next > 1"

lemma rtranclp_closed: "R\<^sup>*\<^sup>* a b \<Longrightarrow> a \<in> A \<Longrightarrow> (\<And>x y. x \<in> A \<Longrightarrow> R x y \<Longrightarrow> y \<in> A) \<Longrightarrow> b \<in> A"
  by (induction rule: rtranclp_induct) blast+

lemma chain_loop_spec:
  assumes "\<And>p. p \<in> set acc \<Longrightarrow> p = current \<or> (\<forall>q. child_of all p q \<longrightarrow> q \<in> set acc)"
    and "current \<in> set acc"
  shows "set acc \<subseteq> set (chain_loop all acc current)
    \<and> (\<forall>p \<in> set (chain_loop all acc current). \<forall>q. child_of all p q \<longrightarrow> q \<in> set (chain_loop all acc current))
    \<and> (\<forall>p \<in> set (chain_loop all acc current). p \<in> set acc \<or> (child_of all)\<^sup>*\<^sup>* current p)"
  using assms
proof (induction all acc current rule: chain_loop.induct)
  case (1 all acc current)
  have closed: "\<forall>p \<in> set acc. \<forall>q. child_of all p q \<longrightarrow> q \<in> set acc"
    if "\<forall>q. child_of all current q \<longrightarrow> q \<in> set acc"
    using "1.prems"(1) that by blast
  show ?case
  proof (cases "parent all current")
    case None
    then have "\<forall>q. child_of all current q \<longrightarrow> q \<in> set acc" by (simp add: child_of_def)
    with closed None show ?thesis by (simp add: chain_loop.simps [of all acc current])
  next
    case (Some up)
    show ?thesis
    proof (cases "up \<le> 1 \<or> up \<in> set acc")
      case True
      with Some have "\<forall>q. child_of all current q \<longrightarrow> q \<in> set acc" by (auto simp: child_of_def)
      with closed True Some show ?thesis by (simp add: chain_loop.simps [of all acc current])
    next
      case False
      have step: "child_of all current up" using Some False by (simp add: child_of_def)
      have inv: "p = up \<or> (\<forall>q. child_of all p q \<longrightarrow> q \<in> set (acc @ [up]))"
        if "p \<in> set (acc @ [up])" for p
        using that "1.prems"(1) [of p] Some by (auto simp: child_of_def)
      from False Some "1.IH" [OF Some _ inv] have ih:
        "set (acc @ [up]) \<subseteq> set (chain_loop all (acc @ [up]) up)"
        "\<forall>p \<in> set (chain_loop all (acc @ [up]) up). \<forall>q. child_of all p q
           \<longrightarrow> q \<in> set (chain_loop all (acc @ [up]) up)"
        "\<forall>p \<in> set (chain_loop all (acc @ [up]) up). p \<in> set (acc @ [up]) \<or> (child_of all)\<^sup>*\<^sup>* up p"
        by simp_all
      have eq: "chain_loop all acc current = chain_loop all (acc @ [up]) up"
        using Some False by (simp add: chain_loop.simps [of all acc current])
      have "p \<in> set acc \<or> (child_of all)\<^sup>*\<^sup>* current p"
        if "p \<in> set (chain_loop all (acc @ [up]) up)" for p
        using ih(3) that step by (auto intro: converse_rtranclp_into_rtranclp)
      with ih(1,2) eq show ?thesis by auto
    qed
  qed
qed

lemma set_chain: "set (chain all pid) = {p. (child_of all)\<^sup>*\<^sup>* pid p}"
proof -
  note spec = chain_loop_spec [of "[pid]" pid all, simplified]
  show ?thesis
  proof (intro equalityI subsetI CollectI)
    fix p assume "p \<in> set (chain all pid)"
    with spec show "(child_of all)\<^sup>*\<^sup>* pid p" by (auto simp: chain_def)
  next
    fix p assume "p \<in> {p. (child_of all)\<^sup>*\<^sup>* pid p}"
    then have "(child_of all)\<^sup>*\<^sup>* pid p" by simp
    then show "p \<in> set (chain all pid)"
      by (rule rtranclp_closed) (use spec in \<open>auto simp: chain_def\<close>)
  qed
qed

text \<open>
  C14: \<open>stop_processes\<close> can touch only the run's own: a process it may stop is one of the table,
  works in the run's worktree or descends from its wrapper, is neither init, nor the supervisor, its
  ancestors or its descendants, nor the agent or anything the agent runs under, nor the wrapper or
  anything the wrapper runs under (a wrapper that hosts the supervisor is of its ancestors).
\<close>

theorem run_processes_safe:
  assumes "p \<in> set (run_processes all worktree wrapper agent except)"
  shows "p \<in> set all \<and> pi_pid p > 1
    \<and> \<not> (child_of all)\<^sup>*\<^sup>* (pi_pid p) except
    \<and> \<not> (child_of all)\<^sup>*\<^sup>* except (pi_pid p)
    \<and> (\<forall>a. agent = Some a \<longrightarrow> \<not> (child_of all)\<^sup>*\<^sup>* a (pi_pid p))
    \<and> (\<forall>w. wrapper = Some w \<longrightarrow> \<not> (child_of all)\<^sup>*\<^sup>* w (pi_pid p))
    \<and> (is_some_and (\<lambda>cwd. under cwd worktree) (pi_cwd p)
       \<or> is_some_and (\<lambda>w. (child_of all)\<^sup>*\<^sup>* (pi_pid p) w \<and> \<not> (child_of all)\<^sup>*\<^sup>* except w) wrapper)"
proof -
  have "\<not> (child_of all)\<^sup>*\<^sup>* w (pi_pid p)" if "wrapper = Some w" for w
  proof (cases "(child_of all)\<^sup>*\<^sup>* except w")
    case True
    with assms show ?thesis
      by (auto simp: run_processes_def Let_def set_chain dest: rtranclp_trans)
  next
    case False
    with assms that show ?thesis by (auto simp: run_processes_def Let_def set_chain)
  qed
  moreover have "\<not> (child_of all)\<^sup>*\<^sup>* a (pi_pid p)" if "agent = Some a" for a
    using assms that by (auto simp: run_processes_def Let_def set_chain)
  moreover have "is_some_and (\<lambda>cwd. under cwd worktree) (pi_cwd p)
      \<or> is_some_and (\<lambda>w. (child_of all)\<^sup>*\<^sup>* (pi_pid p) w \<and> \<not> (child_of all)\<^sup>*\<^sup>* except w) wrapper"
    using assms by (cases wrapper) (auto simp: run_processes_def Let_def set_chain split: if_splits)
  ultimately show ?thesis
    using assms by (auto simp: run_processes_def Let_def set_chain)
qed

definition sample_processes :: "process_info list" where
  "sample_processes =
     [\<lparr>pi_pid = 10, pi_ppid = 1, pi_elapsed_secs = 5, pi_command = ''supervise'', pi_cwd = Some ''/repo''\<rparr>,
      \<lparr>pi_pid = 20, pi_ppid = 1, pi_elapsed_secs = 5, pi_command = ''wrapper'', pi_cwd = Some ''/runs/r/worktree''\<rparr>,
      \<lparr>pi_pid = 21, pi_ppid = 20, pi_elapsed_secs = 5, pi_command = ''agent'', pi_cwd = Some ''/runs/r/worktree''\<rparr>,
      \<lparr>pi_pid = 22, pi_ppid = 21, pi_elapsed_secs = 5, pi_command = ''cargo test'', pi_cwd = None\<rparr>]"

theorem run_processes_witness:
  "\<exists>p \<in> set (run_processes sample_processes ''/runs/r/worktree'' (Some 20) (Some 21) 10).
     pi_pid p = 22 \<and> \<not> (child_of sample_processes)\<^sup>*\<^sup>* 20 (pi_pid p)"
proof -
  let ?p = "\<lparr>pi_pid = 22, pi_ppid = 21, pi_elapsed_secs = 5, pi_command = ''cargo test'', pi_cwd = None\<rparr>"
  have "?p \<in> set (run_processes sample_processes ''/runs/r/worktree'' (Some 20) (Some 21) 10)"
    by code_simp
  with run_processes_safe [OF this] show ?thesis by (intro bexI [of _ ?p]) simp_all
qed

end
