(* ===== verification/Spec2Isabelle.thy ===== *)
theory Spec2Isabelle
  imports Queue_Review Receipts Recovery
begin

text \<open>dagq.\<close>

end
